(* ===== verification/Prelude.thy ===== *)
theory Prelude
  imports Complex_Main "HOL-Library.Word"
begin

text \<open>
  Shared vocabulary of the development: the machine integers and byte strings of the Rust
  code, the result type with a branch for panics, the two arithmetic modes of a Rust build,
  big-endian encodings of integers, and the decimal and hexadecimal renderings that the
  error messages use.

  Conventions. A \<open>u8\<close>, \<open>u32\<close>, \<open>u64\<close> or \<open>u128\<close> is a word of that width; a \<open>usize\<close> is a
  \<open>nat\<close> (the code does no \<open>usize\<close> arithmetic that could leave 64 bits). A \<open>Vec<u8>\<close>, a
  slice and an array \<open>[u8; N]\<close> are lists of bytes; the length of an array is part of the
  well-formedness predicate of the record that holds it. A \<open>String\<close> is the list of its
  UTF-8 bytes, written as a \<open>string\<close>, so that \<open>length\<close> is Rust's \<open>len()\<close>.
\<close>

section \<open>Machine integers and byte strings\<close>

type_synonym u8 = "8 word"
type_synonym u32 = "32 word"
type_synonym u64 = "64 word"
type_synonym u128 = "128 word"
type_synonym bytes = "8 word list"

named_theorems codec_simps \<open>encoders, decoders and the byte-level lemmas about them\<close>
named_theorems guard_simps \<open>definitions of guards and handlers that are early-return chains\<close>

section \<open>Results, panics and build modes\<close>

text \<open>
  \<open>Result<T, E>\<close> with one more constructor for a panic (\<open>unwrap\<close>, \<open>expect\<close>, \<open>assert\<close>, index
  out of range, arithmetic overflow with checks enabled). A method that takes \<open>&mut self\<close>
  returns the state together with the result, so the state that an error or a panic leaves
  behind is part of the model.
\<close>

datatype ('e, 'a) res = Ok 'a | Err 'e | Panic

primrec res_bind :: "('e, 'a) res \<Rightarrow> ('a \<Rightarrow> ('e, 'b) res) \<Rightarrow> ('e, 'b) res" where
  "res_bind (Ok a) f = f a"
| "res_bind (Err e) f = Err e"
| "res_bind Panic f = Panic"

primrec map_err :: "('e \<Rightarrow> 'f) \<Rightarrow> ('e, 'a) res \<Rightarrow> ('f, 'a) res" where
  "map_err f (Ok a) = Ok a"
| "map_err f (Err e) = Err (f e)"
| "map_err f Panic = Panic"

primrec is_ok :: "('e, 'a) res \<Rightarrow> bool" where
  "is_ok (Ok a) = True"
| "is_ok (Err e) = False"
| "is_ok Panic = False"

primrec is_err :: "('e, 'a) res \<Rightarrow> bool" where
  "is_err (Ok a) = False"
| "is_err (Err e) = True"
| "is_err Panic = False"

primrec ok_or :: "'e \<Rightarrow> 'a option \<Rightarrow> ('e, 'a) res" where
  "ok_or e None = Err e"
| "ok_or e (Some a) = Ok a"

primrec unwrap :: "'a option \<Rightarrow> ('e, 'a) res" where
  "unwrap None = Panic"
| "unwrap (Some a) = Ok a"

primrec unwrap_res :: "('f, 'a) res \<Rightarrow> ('e, 'a) res" where
  "unwrap_res (Ok a) = Ok a"
| "unwrap_res (Err e) = Panic"
| "unwrap_res Panic = Panic"

primrec ok_of :: "('e, 'a) res \<Rightarrow> 'a option" where
  "ok_of (Ok a) = Some a"
| "ok_of (Err e) = None"
| "ok_of Panic = None"

text \<open>\<open>iter().map(f).collect::<Result<Vec<_>, _>>()\<close>: the first error stops the iteration.\<close>

primrec collect_res :: "('a \<Rightarrow> ('e, 'b) res) \<Rightarrow> 'a list \<Rightarrow> ('e, 'b list) res" where
  "collect_res f [] = Ok []"
| "collect_res f (x # xs) =
     res_bind (f x) (\<lambda>y. res_bind (collect_res f xs) (\<lambda>ys. Ok (y # ys)))"

lemma res_bind_Ok_iff [simp]: "res_bind r f = Ok b \<longleftrightarrow> (\<exists>a. r = Ok a \<and> f a = Ok b)"
  by (cases r) auto

lemma res_bind_Panic_iff: "res_bind r f = Panic \<longleftrightarrow> r = Panic \<or> (\<exists>a. r = Ok a \<and> f a = Panic)"
  by (cases r) auto

lemma is_ok_iff: "is_ok r \<longleftrightarrow> (\<exists>a. r = Ok a)"
  by (cases r) auto

lemma map_err_Ok_iff [simp]: "map_err f r = Ok b \<longleftrightarrow> r = Ok b"
  by (cases r) auto

lemma unwrap_Ok_iff [simp]: "unwrap x = Ok a \<longleftrightarrow> x = Some a"
  by (cases x) auto

lemma unwrap_Panic_iff [simp]: "unwrap x = Panic \<longleftrightarrow> x = None"
  by (cases x) auto

lemma collect_res_Ok_length: "collect_res f xs = Ok ys \<Longrightarrow> length ys = length xs"
  by (induction xs arbitrary: ys) auto

lemma collect_res_Ok_nth:
  "collect_res f xs = Ok ys \<Longrightarrow> i < length xs \<Longrightarrow> f (xs ! i) = Ok (ys ! i)"
  by (induction xs arbitrary: ys i) (auto simp: nth_Cons split: nat.split)

lemma collect_res_all_Ok:
  "(\<And>x. x \<in> set xs \<Longrightarrow> f x = Ok (g x)) \<Longrightarrow> collect_res f xs = Ok (map g xs)"
  by (induction xs) auto

text \<open>
  Rust compiles \<open>+\<close> and \<open>-\<close> on integers with overflow checks in the debug profile (a panic) and
  without them in the release profile (wrap-around). Every operation whose operands can
  overflow takes the build mode.
\<close>

datatype build = Debug | Release

definition add_u64 :: "build \<Rightarrow> u64 \<Rightarrow> u64 \<Rightarrow> ('e, u64) res" where
  "add_u64 b x y =
     (if unat x + unat y < 2 ^ 64 then Ok (x + y)
      else (case b of Debug \<Rightarrow> Panic | Release \<Rightarrow> Ok (x + y)))"

definition sub_u8 :: "build \<Rightarrow> u8 \<Rightarrow> u8 \<Rightarrow> ('e, u8) res" where
  "sub_u8 b x y =
     (if y \<le> x then Ok (x - y) else (case b of Debug \<Rightarrow> Panic | Release \<Rightarrow> Ok (x - y)))"

definition add_u8 :: "build \<Rightarrow> u8 \<Rightarrow> u8 \<Rightarrow> ('e, u8) res" where
  "add_u8 b x y =
     (if unat x + unat y < 256 then Ok (x + y)
      else (case b of Debug \<Rightarrow> Panic | Release \<Rightarrow> Ok (x + y)))"

definition saturating_sub_u64 :: "u64 \<Rightarrow> u64 \<Rightarrow> u64" where
  "saturating_sub_u64 x y = (if y \<le> x then x - y else 0)"

lemma add_u64_fits: "unat x + unat y < 2 ^ 64 \<Longrightarrow> add_u64 b x y = Ok (x + y)"
  by (simp add: add_u64_def)

lemma add_u64_Ok: "add_u64 b x y = Ok z \<Longrightarrow> z = x + y"
  by (auto simp: add_u64_def split: if_splits build.splits)

lemma unat_add_fits: "unat x + unat y < 2 ^ 64 \<Longrightarrow> unat (x + y :: u64) = unat x + unat y"
  by (simp add: unat_word_ariths)

lemma add_u64_Release [simp]: "add_u64 Release x y = Ok (x + y)"
  by (simp add: add_u64_def)

lemma add_u64_not_Err [simp]: "add_u64 b x y \<noteq> Err e"
  by (simp add: add_u64_def split: build.splits)

lemma unat_lt2p: "unat (w :: 'a :: len word) < 2 ^ LENGTH('a)"
  by (fact unsigned_less)

lemma unat_ucast_u8: "unat (ucast (x :: 'a :: len word) :: u8) = unat x mod 256"
  by (simp add: unsigned_ucast_eq unsigned_take_bit_eq take_bit_eq_mod)

lemma word_eq_of_nat: "unat (w :: 'a :: len word) = n \<Longrightarrow> w = word_of_nat n"
  by auto

section \<open>Big-endian integers\<close>

text \<open>\<open>to_be_bytes\<close> and \<open>from_be_bytes\<close> of every width are instances of one pair of functions.\<close>

primrec nat_be :: "nat \<Rightarrow> nat \<Rightarrow> bytes" where
  "nat_be 0 n = []"
| "nat_be (Suc k) n = nat_be k (n div 256) @ [word_of_nat n]"

definition be_nat :: "bytes \<Rightarrow> nat" where
  "be_nat bs = foldl (\<lambda>a b. a * 256 + unat b) 0 bs"

lemma length_nat_be [simp]: "length (nat_be k n) = k"
  by (induction k arbitrary: n) auto

lemma be_nat_Nil [simp]: "be_nat [] = 0"
  by (simp add: be_nat_def)

lemma be_nat_snoc [simp]: "be_nat (bs @ [b]) = be_nat bs * 256 + unat b"
  by (simp add: be_nat_def)

lemma unat_of_nat_u8: "unat (word_of_nat n :: u8) = n mod 256"
  by (simp add: unat_of_nat)

lemma be_nat_nat_be [codec_simps]: "be_nat (nat_be k n) = n mod 256 ^ k"
proof (induction k arbitrary: n)
  case 0
  then show ?case by simp
next
  case (Suc k)
  have "n mod 256 ^ Suc k = (n div 256) mod 256 ^ k * 256 + n mod 256"
    by (simp add: mod_mult2_eq)
  with Suc show ?case by (simp add: unat_of_nat_u8)
qed

lemma be_nat_less: "be_nat bs < 256 ^ length bs"
proof (induction bs rule: rev_induct)
  case Nil
  then show ?case by simp
next
  case (snoc b bs)
  have "unat b < 256" using unat_lt2p [of b] by simp
  with snoc have "be_nat bs * 256 + unat b < (be_nat bs + 1) * 256" by simp
  also have "\<dots> \<le> 256 ^ length bs * 256" using snoc by (intro mult_right_mono) auto
  finally show ?case by simp
qed

lemma nat_be_be_nat [codec_simps]: "nat_be (length bs) (be_nat bs) = bs"
proof (induction bs rule: rev_induct)
  case Nil
  then show ?case by simp
next
  case (snoc b bs)
  have "unat b < 256" using unat_lt2p [of b] by simp
  then have "(be_nat bs * 256 + unat b) div 256 = be_nat bs" by simp
  moreover have "(word_of_nat (be_nat bs * 256 + unat b) :: u8) = b"
  proof -
    have "(be_nat bs * 256 + unat b) mod 256 = unat b" using \<open>unat b < 256\<close> by simp
    then have "unat (word_of_nat (be_nat bs * 256 + unat b) :: u8) = unat b"
      by (simp only: unat_of_nat_u8)
    then show ?thesis by (simp only: word_unat_eq_iff)
  qed
  ultimately show ?case using snoc by simp
qed

lemma nat_be_inject:
  "m < 256 ^ k \<Longrightarrow> n < 256 ^ k \<Longrightarrow> nat_be k m = nat_be k n \<longleftrightarrow> m = n"
  by (metis be_nat_nat_be mod_less)

definition u32_be :: "u32 \<Rightarrow> bytes" where "u32_be w = nat_be 4 (unat w)"
definition u64_be :: "u64 \<Rightarrow> bytes" where "u64_be w = nat_be 8 (unat w)"
definition u128_be :: "u128 \<Rightarrow> bytes" where "u128_be w = nat_be 16 (unat w)"
definition u32_from_be :: "bytes \<Rightarrow> u32" where "u32_from_be bs = word_of_nat (be_nat bs)"
definition u64_from_be :: "bytes \<Rightarrow> u64" where "u64_from_be bs = word_of_nat (be_nat bs)"

lemma length_u32_be [simp]: "length (u32_be w) = 4" by (simp add: u32_be_def)
lemma length_u64_be [simp]: "length (u64_be w) = 8" by (simp add: u64_be_def)
lemma length_u128_be [simp]: "length (u128_be w) = 16" by (simp add: u128_be_def)

lemma unat_u32_less: "unat (w :: u32) < 256 ^ 4" using unat_lt2p [of w] by simp
lemma unat_u64_less: "unat (w :: u64) < 256 ^ 8" using unat_lt2p [of w] by simp
lemma unat_u128_less: "unat (w :: u128) < 256 ^ 16" using unat_lt2p [of w] by simp

lemma u32_be_inject [simp]: "u32_be v = u32_be w \<longleftrightarrow> v = w"
  unfolding u32_be_def by (simp only: nat_be_inject [OF unat_u32_less unat_u32_less] word_unat_eq_iff)

lemma u64_be_inject [simp]: "u64_be v = u64_be w \<longleftrightarrow> v = w"
  unfolding u64_be_def by (simp only: nat_be_inject [OF unat_u64_less unat_u64_less] word_unat_eq_iff)

lemma u128_be_inject [simp]: "u128_be v = u128_be w \<longleftrightarrow> v = w"
  unfolding u128_be_def
  by (simp only: nat_be_inject [OF unat_u128_less unat_u128_less] word_unat_eq_iff)

lemma u32_from_to_be [codec_simps]: "u32_from_be (u32_be w) = w"
  using unat_u32_less [of w] by (simp add: u32_from_be_def u32_be_def be_nat_nat_be del: power_numeral)

lemma u64_from_to_be [codec_simps]: "u64_from_be (u64_be w) = w"
  using unat_u64_less [of w] by (simp add: u64_from_be_def u64_be_def be_nat_nat_be del: power_numeral)

lemma u32_to_from_be [codec_simps]:
  assumes "length bs = 4"
  shows "u32_be (u32_from_be bs) = bs"
proof -
  have "be_nat bs < 2 ^ 32" using be_nat_less [of bs] assms by simp
  then have "unat (word_of_nat (be_nat bs) :: u32) = be_nat bs" by (simp add: unat_of_nat)
  then show ?thesis using nat_be_be_nat [of bs] assms by (simp add: u32_be_def u32_from_be_def)
qed

lemma u64_to_from_be [codec_simps]:
  assumes "length bs = 8"
  shows "u64_be (u64_from_be bs) = bs"
proof -
  have "be_nat bs < 2 ^ 64" using be_nat_less [of bs] assms by simp
  then have "unat (word_of_nat (be_nat bs) :: u64) = be_nat bs" by (simp add: unat_of_nat)
  then show ?thesis using nat_be_be_nat [of bs] assms by (simp add: u64_be_def u64_from_be_def)
qed

text \<open>The lexicographic order of byte slices and arrays.\<close>

fun bytes_le :: "bytes \<Rightarrow> bytes \<Rightarrow> bool" where
  "bytes_le [] ys = True"
| "bytes_le (x # xs) [] = False"
| "bytes_le (x # xs) (y # ys) = (x < y \<or> (x = y \<and> bytes_le xs ys))"

lemma be_nat_Cons: "be_nat (x # xs) = unat x * 256 ^ length xs + be_nat xs"
proof (induction xs rule: rev_induct)
  case Nil
  then show ?case by (simp add: be_nat_def)
next
  case (snoc y ys)
  have "be_nat (x # ys @ [y]) = be_nat (x # ys) * 256 + unat y"
    using be_nat_snoc [of "x # ys" y] by simp
  with snoc show ?case by (simp add: algebra_simps)
qed

lemma bytes_le_be_nat: "length xs = length ys \<Longrightarrow> bytes_le xs ys \<longleftrightarrow> be_nat xs \<le> be_nat ys"
proof (induction xs ys rule: list_induct2)
  case Nil
  then show ?case by simp
next
  case (Cons x xs y ys)
  let ?p = "256 ^ length xs :: nat"
  have b: "be_nat xs < ?p" "be_nat ys < ?p"
    using be_nat_less [of xs] be_nat_less [of ys] Cons.hyps by simp_all
  have lt: "a * ?p + c < d * ?p + e" if "a < d" "c < ?p" for a c d e :: nat
  proof -
    have "a * ?p + c < Suc a * ?p" using that(2) by simp
    also have "\<dots> \<le> d * ?p" using that(1) by (intro mult_right_mono) auto
    finally show ?thesis by simp
  qed
  show ?case
  proof (cases "unat x" "unat y" rule: linorder_cases)
    case less
    with lt [of "unat x" "unat y" "be_nat xs" "be_nat ys"] b Cons.hyps show ?thesis
      by (simp add: be_nat_Cons word_less_nat_alt)
  next
    case equal
    then have "x = y" by (simp add: word_unat_eq_iff)
    with Cons show ?thesis by (simp add: be_nat_Cons)
  next
    case greater
    with lt [of "unat y" "unat x" "be_nat ys" "be_nat xs"] b Cons.hyps show ?thesis
      by (auto simp: be_nat_Cons word_less_nat_alt)
  qed
qed

section \<open>Strings, decimal and hexadecimal\<close>

definition str_bytes :: "string \<Rightarrow> bytes" where
  "str_bytes s = map (\<lambda>c. word_of_nat (of_char c)) s"

lemma length_str_bytes [simp]: "length (str_bytes s) = length s"
  by (simp add: str_bytes_def)

lemma inj_char_byte: "inj (\<lambda>c :: char. (word_of_nat (of_char c) :: u8))"
proof (rule injI)
  fix c d :: char
  assume "(word_of_nat (of_char c) :: u8) = word_of_nat (of_char d)"
  then have "unat (word_of_nat (of_char c) :: u8) = unat (word_of_nat (of_char d) :: u8)" by simp
  then have "(of_char c :: nat) = of_char d" by (simp add: unat_of_nat_u8)
  then show "c = d" by simp
qed

lemma str_bytes_inject [simp]: "str_bytes s = str_bytes t \<longleftrightarrow> s = t"
  unfolding str_bytes_def by (rule inj_map_eq_map [OF inj_char_byte])

lemma str_bytes_Nil [simp]: "str_bytes [] = []"
  by (simp add: str_bytes_def)

lemma str_bytes_append [simp]: "str_bytes (s @ t) = str_bytes s @ str_bytes t"
  by (simp add: str_bytes_def)

definition digit_char :: "nat \<Rightarrow> char" where
  "digit_char n = char_of (if n < 10 then 48 + n else 87 + n)"

fun show_nat :: "nat \<Rightarrow> string" where
  "show_nat n = (if n < 10 then [digit_char n] else show_nat (n div 10) @ [digit_char (n mod 10)])"

declare show_nat.simps [simp del]

definition parse_nat :: "string \<Rightarrow> nat" where
  "parse_nat s = foldl (\<lambda>a c. a * 10 + (of_char c - 48)) 0 s"

lemma parse_show_nat: "parse_nat (show_nat n) = n"
proof (induction n rule: show_nat.induct)
  case (1 n)
  have d: "(of_char (digit_char k) :: nat) - 48 = k" if "k < 10" for k
    using that by (simp add: digit_char_def)
  show ?case
  proof (cases "n < 10")
    case True
    then show ?thesis by (simp add: show_nat.simps [of n] parse_nat_def d)
  next
    case False
    with 1 have "parse_nat (show_nat n) = n div 10 * 10 + n mod 10"
      by (simp add: show_nat.simps [of n] parse_nat_def d)
    then show ?thesis by simp
  qed
qed

lemma show_nat_inject [simp]: "show_nat m = show_nat n \<longleftrightarrow> m = n"
  by (metis parse_show_nat)

lemma show_small_nats:
  "show_nat 0 = ''0''" "show_nat (Suc 0) = ''1''" "show_nat (Suc (Suc 0)) = ''2''"
  by code_simp+

definition hex_byte :: "u8 \<Rightarrow> string" where
  "hex_byte b = [digit_char (unat b div 16), digit_char (unat b mod 16)]"

definition hex_encode :: "bytes \<Rightarrow> string" where
  "hex_encode bs = concat (map hex_byte bs)"

lemma length_hex_encode [simp]: "length (hex_encode bs) = 2 * length bs"
  by (induction bs) (auto simp: hex_encode_def hex_byte_def)

definition is_ascii_digit :: "char \<Rightarrow> bool" where
  "is_ascii_digit c \<longleftrightarrow> 48 \<le> (of_char c :: nat) \<and> (of_char c :: nat) \<le> 57"

definition is_ascii_upper :: "char \<Rightarrow> bool" where
  "is_ascii_upper c \<longleftrightarrow> 65 \<le> (of_char c :: nat) \<and> (of_char c :: nat) \<le> 90"

definition is_ascii_lower :: "char \<Rightarrow> bool" where
  "is_ascii_lower c \<longleftrightarrow> 97 \<le> (of_char c :: nat) \<and> (of_char c :: nat) \<le> 122"

definition is_ascii_alphanumeric :: "char \<Rightarrow> bool" where
  "is_ascii_alphanumeric c \<longleftrightarrow> is_ascii_digit c \<or> is_ascii_upper c \<or> is_ascii_lower c"

definition is_ascii_hexdigit :: "char \<Rightarrow> bool" where
  "is_ascii_hexdigit c \<longleftrightarrow> is_ascii_digit c
     \<or> 65 \<le> (of_char c :: nat) \<and> (of_char c :: nat) \<le> 70
     \<or> 97 \<le> (of_char c :: nat) \<and> (of_char c :: nat) \<le> 102"

definition ascii_lower :: "char \<Rightarrow> char" where
  "ascii_lower c = (if is_ascii_upper c then char_of ((of_char c :: nat) + 32) else c)"

lemma of_char_ascii_lower:
  "(of_char (ascii_lower c) :: nat) = (if is_ascii_upper c then of_char c + 32 else of_char c)"
  by (auto simp: ascii_lower_def is_ascii_upper_def)

lemma ascii_lower_idem [simp]: "ascii_lower (ascii_lower c) = ascii_lower c"
proof -
  have "\<not> is_ascii_upper (ascii_lower c)"
    unfolding is_ascii_upper_def of_char_ascii_lower
    by (auto simp: is_ascii_upper_def)
  then show ?thesis by (simp add: ascii_lower_def [of "ascii_lower c"])
qed

lemma is_ascii_hexdigit_lower [simp]: "is_ascii_hexdigit (ascii_lower c) = is_ascii_hexdigit c"
  unfolding is_ascii_hexdigit_def is_ascii_digit_def of_char_ascii_lower
  by (auto simp: is_ascii_upper_def)

section \<open>Lists\<close>

text \<open>A zero byte ends a string that holds none: the NUL-terminated fields of the code.\<close>

lemma nul_terminated_inject:
  assumes "z \<notin> set xs" and "z \<notin> set us" and "xs @ z # ys = us @ z # vs"
  shows "xs = us \<and> ys = vs"
  using assms
proof (induction xs arbitrary: us)
  case Nil
  then show ?case by (cases us) auto
next
  case (Cons x xs)
  then show ?case by (cases us) auto
qed

end
