(* ===== verification/Km_Errors.thy ===== *)
theory Km_Errors
  imports Prelude
begin

text \<open>
  The error type of \<open>keymesh-core\<close> (\<open>crates/keymesh-core/src/errors.rs\<close>) and the messages
  its \<open>Display\<close> implementation writes.
\<close>

datatype keymesh_error =
    InvalidInput string
  | InvalidStateTransition (err_from: string) (err_attempted: string)
  | Unauthorized string
  | NotFound string
  | ThresholdNotMet (err_required: nat) (err_actual: nat)
  | DuplicateApproval string
  | TimelockActive (err_remaining_seconds: u64)
  | Expired (err_expiry: u64) (err_now: u64)
  | CryptoOperationFailed string

primrec display_error :: "keymesh_error \<Rightarrow> string" where
  "display_error (InvalidInput msg) = ''invalid input: '' @ msg"
| "display_error (InvalidStateTransition from attempted) =
     ''invalid state transition: '' @ from @ '' -> '' @ attempted"
| "display_error (Unauthorized who) = ''unauthorized: '' @ who"
| "display_error (NotFound what) = ''not found: '' @ what"
| "display_error (ThresholdNotMet required actual) =
     ''threshold not met: required '' @ show_nat required @ '', got '' @ show_nat actual"
| "display_error (DuplicateApproval who) =
     ''duplicate approval: '' @ who @ '' already approved''"
| "display_error (TimelockActive remaining) =
     ''timelock active: '' @ show_nat (unat remaining) @ '' seconds remaining''"
| "display_error (Expired expiry now) =
     ''transaction expired: expiry '' @ show_nat (unat expiry) @ '', now '' @ show_nat (unat now)"
| "display_error (CryptoOperationFailed msg) = ''crypto operation failed: '' @ msg"

text \<open>The kind of an error, which is what callers match on.\<close>

datatype error_kind =
  KInvalidInput | KInvalidStateTransition | KUnauthorized | KNotFound | KThresholdNotMet
  | KDuplicateApproval | KTimelockActive | KExpired | KCryptoOperationFailed

primrec kind_of :: "keymesh_error \<Rightarrow> error_kind" where
  "kind_of (InvalidInput _) = KInvalidInput"
| "kind_of (InvalidStateTransition _ _) = KInvalidStateTransition"
| "kind_of (Unauthorized _) = KUnauthorized"
| "kind_of (NotFound _) = KNotFound"
| "kind_of (ThresholdNotMet _ _) = KThresholdNotMet"
| "kind_of (DuplicateApproval _) = KDuplicateApproval"
| "kind_of (TimelockActive _) = KTimelockActive"
| "kind_of (Expired _ _) = KExpired"
| "kind_of (CryptoOperationFailed _) = KCryptoOperationFailed"

text \<open>The message of an error already tells its kind: no two kinds share a message.\<close>

lemma display_error_kind: "display_error e = display_error f \<Longrightarrow> kind_of e = kind_of f"
  by (cases e; cases f) auto

end
