(* ===== verification/Wire.thy ===== *)
theory Wire
  imports Km_Errors
begin

text \<open>
  The canonical binary encoder and decoder of \<open>keymesh-core\<close>
  (\<open>crates/keymesh-core/src/serialization/mod.rs\<close>). The encoder appends to a buffer; the
  decoder reads from a borrowed buffer at a position. A read returns the decoder after the
  call together with its result: on an error the position is where the code leaves it (a
  failed \<open>read_bytes\<close> has consumed its length prefix).
\<close>

section \<open>Encoder\<close>

record encoder =
  enc_buf :: bytes

definition encoder_new :: encoder where
  "encoder_new = \<lparr>enc_buf = []\<rparr>"

definition into_bytes :: "encoder \<Rightarrow> bytes" where
  "into_bytes e = enc_buf e"

definition write_u8 :: "u8 \<Rightarrow> encoder \<Rightarrow> encoder" where
  "write_u8 v e = e\<lparr>enc_buf := enc_buf e @ [v]\<rparr>"

definition write_u64 :: "u64 \<Rightarrow> encoder \<Rightarrow> encoder" where
  "write_u64 v e = e\<lparr>enc_buf := enc_buf e @ u64_be v\<rparr>"

definition write_raw :: "bytes \<Rightarrow> encoder \<Rightarrow> encoder" where
  "write_raw bs e = e\<lparr>enc_buf := enc_buf e @ bs\<rparr>"

text \<open>\<open>bytes.len() as u32\<close> truncates: \<open>word_of_nat\<close> at type \<open>u32\<close>.\<close>

definition write_bytes :: "bytes \<Rightarrow> encoder \<Rightarrow> encoder" where
  "write_bytes bs e =
     (let e1 = e\<lparr>enc_buf := enc_buf e @ u32_be (word_of_nat (length bs))\<rparr>
      in e1\<lparr>enc_buf := enc_buf e1 @ bs\<rparr>)"

lemma into_bytes_new [codec_simps, simp]: "into_bytes encoder_new = []"
  by (simp add: into_bytes_def encoder_new_def)

lemma into_bytes_write [codec_simps, simp]:
  "into_bytes (write_u8 v e) = into_bytes e @ [v]"
  "into_bytes (write_u64 w e) = into_bytes e @ u64_be w"
  "into_bytes (write_raw bs e) = into_bytes e @ bs"
  "into_bytes (write_bytes bs e) = into_bytes e @ u32_be (word_of_nat (length bs)) @ bs"
  by (simp_all add: into_bytes_def write_u8_def write_u64_def write_raw_def write_bytes_def)

section \<open>Decoder\<close>

record decoder =
  dec_buf :: bytes
  dec_pos :: nat

definition decoder_new :: "bytes \<Rightarrow> decoder" where
  "decoder_new buf = \<lparr>dec_buf = buf, dec_pos = 0\<rparr>"

definition remaining :: "decoder \<Rightarrow> nat" where
  "remaining d = length (dec_buf d) - dec_pos d"

definition finish :: "decoder \<Rightarrow> (keymesh_error, unit) res" where
  "finish d =
     (if remaining d \<noteq> 0
      then Err (InvalidInput (''trailing bytes: '' @ show_nat (remaining d) @ '' unconsumed''))
      else Ok ())"

definition read_u8 :: "decoder \<Rightarrow> decoder \<times> (keymesh_error, u8) res" where
  "read_u8 d =
     (if remaining d < 1 then (d, Err (InvalidInput ''unexpected end of buffer''))
      else (d\<lparr>dec_pos := dec_pos d + 1\<rparr>, Ok (dec_buf d ! dec_pos d)))"

definition read_u64 :: "decoder \<Rightarrow> decoder \<times> (keymesh_error, u64) res" where
  "read_u64 d =
     (if remaining d < 8 then (d, Err (InvalidInput ''unexpected end of buffer reading u64''))
      else (d\<lparr>dec_pos := dec_pos d + 8\<rparr>, Ok (u64_from_be (take 8 (drop (dec_pos d) (dec_buf d))))))"

definition read_u32 :: "decoder \<Rightarrow> decoder \<times> (keymesh_error, u32) res" where
  "read_u32 d =
     (if remaining d < 4 then (d, Err (InvalidInput ''unexpected end of buffer reading u32''))
      else (d\<lparr>dec_pos := dec_pos d + 4\<rparr>, Ok (u32_from_be (take 4 (drop (dec_pos d) (dec_buf d))))))"

definition read_bytes :: "decoder \<Rightarrow> decoder \<times> (keymesh_error, bytes) res" where
  "read_bytes d =
     (case read_u32 d of
        (d1, Ok w) \<Rightarrow>
          (let len = unat w
           in if remaining d1 < len
              then (d1, Err (InvalidInput ''declared length exceeds remaining buffer''))
              else (d1\<lparr>dec_pos := dec_pos d1 + len\<rparr>, Ok (take len (drop (dec_pos d1) (dec_buf d1)))))
      | (d1, Err e) \<Rightarrow> (d1, Err e)
      | (d1, Panic) \<Rightarrow> (d1, Panic))"

text \<open>What the fields of a decoder satisfy: the position never passes the end of the buffer.\<close>

definition dec_ok :: "decoder \<Rightarrow> bool" where
  "dec_ok d \<longleftrightarrow> dec_pos d \<le> length (dec_buf d)"

section \<open>The interface of one wire field\<close>

text \<open>
  \<open>rest_of d\<close> is what is left to read. A field is an encoding \<open>enc\<close>, a reader \<open>rd\<close> and the
  set \<open>ok\<close> of the values that the encoding represents. The reader returns exactly the value
  whose encoding it consumed, so it both inverts the encoding and accepts no other bytes.
\<close>

definition rest_of :: "decoder \<Rightarrow> bytes" where
  "rest_of d = drop (dec_pos d) (dec_buf d)"

definition advance :: "nat \<Rightarrow> decoder \<Rightarrow> decoder" where
  "advance n d = d\<lparr>dec_pos := dec_pos d + n\<rparr>"

lemma remaining_rest: "remaining d = length (rest_of d)"
  by (simp add: remaining_def rest_of_def)

lemma rest_of_advance [simp]: "rest_of (advance n d) = drop n (rest_of d)"
  by (simp add: rest_of_def advance_def add.commute)

lemma dec_ok_advance: "dec_ok d \<Longrightarrow> n \<le> length (rest_of d) \<Longrightarrow> dec_ok (advance n d)"
  by (simp add: dec_ok_def advance_def rest_of_def)

lemma advance_0 [simp]: "advance 0 d = d"
  by (simp add: advance_def)

lemma advance_advance [simp]: "advance m (advance n d) = advance (n + m) d"
  by (simp add: advance_def add.assoc)

lemma rest_of_new [simp]: "rest_of (decoder_new bs) = bs"
  by (simp add: rest_of_def decoder_new_def)

lemma dec_ok_new [simp]: "dec_ok (decoder_new bs)"
  by (simp add: dec_ok_def decoder_new_def)

lemma finish_Ok_iff: "finish d = Ok () \<longleftrightarrow> rest_of d = []"
  by (simp add: finish_def remaining_rest)

locale wire_field =
  fixes enc :: "'a \<Rightarrow> bytes"
    and rd :: "decoder \<Rightarrow> decoder \<times> (keymesh_error, 'a) res"
    and ok :: "'a \<Rightarrow> bool"
  assumes read_back: "ok v \<Longrightarrow> rest_of d = enc v @ zs \<Longrightarrow> rd d = (advance (length (enc v)) d, Ok v)"
    and read_only: "rd d = (d', Ok v) \<Longrightarrow>
      ok v \<and> rest_of d = enc v @ rest_of d' \<and> d' = advance (length (enc v)) d"
    and no_panic: "snd (rd d) \<noteq> Panic"
    and keeps_ok: "dec_ok d \<Longrightarrow> dec_ok (fst (rd d))"
begin

lemma enc_prefix_free:
  assumes "ok v" and "ok w" and "enc v @ xs = enc w @ ys"
  shows "v = w \<and> xs = ys"
proof -
  have "rd (decoder_new (enc v @ xs)) = (advance (length (enc v)) (decoder_new (enc v @ xs)), Ok v)"
    by (rule read_back [OF assms(1)]) simp
  moreover have "rd (decoder_new (enc v @ xs)) = (advance (length (enc w)) (decoder_new (enc v @ xs)), Ok w)"
    by (rule read_back [OF assms(2)]) (simp add: assms(3))
  ultimately have "v = w" by simp
  with assms(3) show ?thesis by simp
qed

lemma truncated_is_error:
  assumes "ok v" and "rest_of d = take n (enc v)" and "n < length (enc v)"
  shows "is_err (snd (rd d))"
proof (cases "rd d")
  case (Pair d' r)
  show ?thesis
  proof (cases r)
    case (Ok w)
    with Pair have "rd d = (d', Ok w)" by (simp only:)
    then have w: "ok w" "rest_of d = enc w @ rest_of d'" using read_only by blast+
    have "enc v @ [] = enc w @ rest_of d' @ drop n (enc v)"
      by (metis append.assoc append_Nil2 append_take_drop_id assms(2) w(2))
    from enc_prefix_free [OF assms(1) w(1) this] have "[] = rest_of d' @ drop n (enc v)" by blast
    then have "drop n (enc v) = []" by simp
    with assms(3) show ?thesis by simp
  qed (use Pair no_panic [of d] in auto)
qed

end

lemma read_u8_eq: "read_u8 d =
    (case rest_of d of [] \<Rightarrow> (d, Err (InvalidInput ''unexpected end of buffer''))
     | b # _ \<Rightarrow> (advance 1 d, Ok b))"
  by (cases "rest_of d")
    (auto simp: read_u8_def remaining_def rest_of_def advance_def dest: nth_via_drop)

lemma read_u64_eq: "read_u64 d =
    (if length (rest_of d) < 8 then (d, Err (InvalidInput ''unexpected end of buffer reading u64''))
     else (advance 8 d, Ok (u64_from_be (take 8 (rest_of d)))))"
  by (simp add: read_u64_def remaining_rest rest_of_def advance_def)

lemma read_u32_eq: "read_u32 d =
    (if length (rest_of d) < 4 then (d, Err (InvalidInput ''unexpected end of buffer reading u32''))
     else (advance 4 d, Ok (u32_from_be (take 4 (rest_of d)))))"
  by (simp add: read_u32_def remaining_rest rest_of_def advance_def)

lemma read_bytes_eq: "read_bytes d =
    (if length (rest_of d) < 4 then (d, Err (InvalidInput ''unexpected end of buffer reading u32''))
     else let len = unat (u32_from_be (take 4 (rest_of d)))
       in if length (rest_of d) - 4 < len
          then (advance 4 d, Err (InvalidInput ''declared length exceeds remaining buffer''))
          else (advance (4 + len) d, Ok (take len (drop 4 (rest_of d)))))"
  by (auto simp: read_bytes_def read_u32_eq remaining_rest Let_def)
    (auto simp: rest_of_def advance_def add.commute)

definition bytes_enc :: "bytes \<Rightarrow> bytes" where
  "bytes_enc bs = u32_be (word_of_nat (length bs)) @ bs"

lemma unat_len_u32: "length bs < 2 ^ 32 \<Longrightarrow> unat (word_of_nat (length (bs :: bytes)) :: u32) = length bs"
  by (simp add: unat_of_nat)

interpretation u8_field: wire_field "\<lambda>v. [v]" read_u8 "\<lambda>_. True"
  by unfold_locales (auto simp: read_u8_eq dec_ok_advance split: list.splits)

interpretation u64_field: wire_field u64_be read_u64 "\<lambda>_. True"
  by unfold_locales
    (auto simp: read_u64_eq codec_simps dec_ok_advance split: if_splits)

interpretation u32_field: wire_field u32_be read_u32 "\<lambda>_. True"
  by unfold_locales
    (auto simp: read_u32_eq codec_simps dec_ok_advance split: if_splits)

interpretation bytes_field: wire_field bytes_enc read_bytes "\<lambda>bs. length bs < 2 ^ 32"
proof
  fix v zs and d :: decoder
  assume "length v < 2 ^ 32" and "rest_of d = bytes_enc v @ zs"
  then show "read_bytes d = (advance (length (bytes_enc v)) d, Ok v)"
    by (simp add: read_bytes_eq bytes_enc_def u32_from_to_be unat_len_u32 Let_def)
next
  fix d d' :: decoder and v
  assume r: "read_bytes d = (d', Ok v)"
  define w where "w = u32_from_be (take 4 (rest_of d))"
  from r have l: "4 \<le> length (rest_of d)" "unat w \<le> length (rest_of d) - 4"
      and v: "v = take (unat w) (drop 4 (rest_of d))" and d': "d' = advance (4 + unat w) d"
    by (auto simp: read_bytes_eq Let_def w_def split: if_splits)
  have lv: "length v = unat w" using l v by simp
  have "u32_be w = take 4 (rest_of d)" using l(1) by (simp add: w_def u32_to_from_be)
  then have e: "bytes_enc v = take 4 (rest_of d) @ v" by (simp add: bytes_enc_def lv)
  have "rest_of d = take 4 (rest_of d) @ v @ drop (unat w) (drop 4 (rest_of d))"
    unfolding v by (simp only: append_take_drop_id)
  then have "rest_of d = bytes_enc v @ rest_of d'" by (simp add: e d' add.commute)
  moreover have "length v < 2 ^ 32" using unat_lt2p [of w] lv by simp
  moreover have "d' = advance (length (bytes_enc v)) d" using lv l(1) by (simp add: d' e)
  ultimately show "length v < 2 ^ 32 \<and> rest_of d = bytes_enc v @ rest_of d'
      \<and> d' = advance (length (bytes_enc v)) d"
    by blast
next
  fix d :: decoder
  show "snd (read_bytes d) \<noteq> Panic" by (simp add: read_bytes_eq Let_def)
  show "dec_ok d \<Longrightarrow> dec_ok (fst (read_bytes d))"
    by (auto simp: read_bytes_eq Let_def dec_ok_advance)
qed

section \<open>Messages: sequences of fields\<close>

text \<open>
  A protocol message is written by a sequence of encoder calls and read by the matching
  sequence of decoder calls, ended by \<open>finish\<close>. \<open>write_all\<close> and \<open>read_all\<close> are those call
  sequences for a given list of field kinds.
\<close>

datatype wire_value = VU8 u8 | VU64 u64 | VBytes bytes

datatype wire_kind = KU8 | KU64 | KBytes

primrec kind_of_value :: "wire_value \<Rightarrow> wire_kind" where
  "kind_of_value (VU8 v) = KU8"
| "kind_of_value (VU64 v) = KU64"
| "kind_of_value (VBytes v) = KBytes"

primrec value_ok :: "wire_value \<Rightarrow> bool" where
  "value_ok (VU8 v) = True"
| "value_ok (VU64 v) = True"
| "value_ok (VBytes v) = (length v < 2 ^ 32)"

primrec write_value :: "wire_value \<Rightarrow> encoder \<Rightarrow> encoder" where
  "write_value (VU8 v) = write_u8 v"
| "write_value (VU64 v) = write_u64 v"
| "write_value (VBytes v) = write_bytes v"

definition write_all :: "wire_value list \<Rightarrow> encoder \<Rightarrow> encoder" where
  "write_all = fold write_value"

primrec map_snd :: "('a \<Rightarrow> 'b) \<Rightarrow> ('e, 'a) res \<Rightarrow> ('e, 'b) res" where
  "map_snd f (Ok a) = Ok (f a)"
| "map_snd f (Err e) = Err e"
| "map_snd f Panic = Panic"

primrec read_value :: "wire_kind \<Rightarrow> decoder \<Rightarrow> decoder \<times> (keymesh_error, wire_value) res" where
  "read_value KU8 d = map_prod id (map_snd VU8) (read_u8 d)"
| "read_value KU64 d = map_prod id (map_snd VU64) (read_u64 d)"
| "read_value KBytes d = map_prod id (map_snd VBytes) (read_bytes d)"

primrec read_all :: "wire_kind list \<Rightarrow> decoder \<Rightarrow> decoder \<times> (keymesh_error, wire_value list) res" where
  "read_all [] d = (d, Ok [])"
| "read_all (k # ks) d =
     (case read_value k d of
        (d1, Ok v) \<Rightarrow> map_prod id (map_snd (\<lambda>vs. v # vs)) (read_all ks d1)
      | (d1, Err e) \<Rightarrow> (d1, Err e)
      | (d1, Panic) \<Rightarrow> (d1, Panic))"

definition decode_message :: "wire_kind list \<Rightarrow> bytes \<Rightarrow> (keymesh_error, wire_value list) res" where
  "decode_message ks bs =
     (case read_all ks (decoder_new bs) of
        (d, Ok vs) \<Rightarrow> res_bind (finish d) (\<lambda>_. Ok vs)
      | (d, Err e) \<Rightarrow> Err e
      | (d, Panic) \<Rightarrow> Panic)"

definition encode_message :: "wire_value list \<Rightarrow> bytes" where
  "encode_message vs = into_bytes (write_all vs encoder_new)"

primrec value_bytes :: "wire_value \<Rightarrow> bytes" where
  "value_bytes (VU8 v) = [v]"
| "value_bytes (VU64 v) = u64_be v"
| "value_bytes (VBytes v) = bytes_enc v"

lemma into_bytes_write_value [simp]: "into_bytes (write_value v e) = into_bytes e @ value_bytes v"
  by (cases v) (simp_all add: bytes_enc_def)

lemma into_bytes_write_all: "into_bytes (write_all vs e) = into_bytes e @ concat (map value_bytes vs)"
  by (induction vs arbitrary: e) (simp_all add: write_all_def)

lemma encode_message_concat: "encode_message vs = concat (map value_bytes vs)"
  by (simp add: encode_message_def into_bytes_write_all)

lemma encode_message_simps [simp]:
  "encode_message [] = []" "encode_message (v # vs) = value_bytes v @ encode_message vs"
  by (simp_all add: encode_message_concat)

text \<open>
  Each kind of value is a wire field, and a sequence of fields is one too: the locale is
  interpreted on whole messages, for every list of kinds.
\<close>

lemma wire_field_of:
  assumes w: "wire_field enc rd ok"
    and rd': "\<And>d. rd' d = map_prod id (map_snd con) (rd d)"
    and ok': "\<And>v. ok' v \<longleftrightarrow> (\<exists>u. v = con u \<and> ok u)"
    and enc': "\<And>u. ok u \<Longrightarrow> enc' (con u) = enc u"
  shows "wire_field enc' rd' ok'"
proof
  fix v zs and d :: decoder
  assume v: "ok' v" "rest_of d = enc' v @ zs"
  then obtain u where u: "v = con u" "ok u" using ok' by blast
  with v(2) enc' wire_field.read_back [OF w u(2), of d zs]
  show "rd' d = (advance (length (enc' v)) d, Ok v)" by (simp add: rd')
next
  fix d d' :: decoder and v
  assume "rd' d = (d', Ok v)"
  then obtain u where "rd d = (d', Ok u)" "v = con u"
    by (cases "rd d"; cases "snd (rd d)") (auto simp: rd')
  with wire_field.read_only [OF w this(1)] ok' enc'
  show "ok' v \<and> rest_of d = enc' v @ rest_of d' \<and> d' = advance (length (enc' v)) d"
    by metis
next
  fix d :: decoder
  show "snd (rd' d) \<noteq> Panic"
    using wire_field.no_panic [OF w, of d] by (cases "rd d"; cases "snd (rd d)") (auto simp: rd')
  show "dec_ok d \<Longrightarrow> dec_ok (fst (rd' d))"
    using wire_field.keeps_ok [OF w, of d] by (simp add: rd' fst_map_prod)
qed

lemma kind_of_value_iff:
  "kind_of_value v = KU8 \<longleftrightarrow> (\<exists>u. v = VU8 u)"
  "kind_of_value v = KU64 \<longleftrightarrow> (\<exists>u. v = VU64 u)"
  "kind_of_value v = KBytes \<longleftrightarrow> (\<exists>u. v = VBytes u)"
  by (cases v; simp)+

lemma read_all_Cons_Ok:
  "read_all (k # ks) d = (d', Ok vs) \<longleftrightarrow>
     (\<exists>d1 v ws. read_value k d = (d1, Ok v) \<and> read_all ks d1 = (d', Ok ws) \<and> vs = v # ws)"
proof -
  obtain d1 r1 where r1: "read_value k d = (d1, r1)" by fastforce
  obtain d2 r2 where r2: "read_all ks d1 = (d2, r2)" by fastforce
  show ?thesis by (cases r1; cases r2) (auto simp: r1 r2)
qed

lemma wire_field_value:
  "wire_field value_bytes (read_value k) (\<lambda>v. kind_of_value v = k \<and> value_ok v)"
proof (cases k)
  case KU8
  show ?thesis
    by (rule wire_field_of [OF u8_field.wire_field_axioms, where con = VU8])
      (auto simp: KU8 kind_of_value_iff)
next
  case KU64
  show ?thesis
    by (rule wire_field_of [OF u64_field.wire_field_axioms, where con = VU64])
      (auto simp: KU64 kind_of_value_iff)
next
  case KBytes
  show ?thesis
    by (rule wire_field_of [OF bytes_field.wire_field_axioms, where con = VBytes])
      (auto simp: KBytes kind_of_value_iff)
qed

lemma wire_field_all:
  "wire_field encode_message (read_all ks) (\<lambda>vs. map kind_of_value vs = ks \<and> list_all value_ok vs)"
proof (induction ks)
  case Nil
  show ?case by unfold_locales auto
next
  case (Cons k ks)
  note one = wire_field_value [of k] and more = Cons.IH
  show ?case
  proof
    fix vs zs and d :: decoder
    assume vs: "map kind_of_value vs = k # ks \<and> list_all value_ok vs"
      and d: "rest_of d = encode_message vs @ zs"
    then obtain v ws where v: "vs = v # ws" by (cases vs) auto
    let ?d = "advance (length (value_bytes v)) d"
    from wire_field.read_back [OF one, of v d "encode_message ws @ zs"] vs d v
    have "read_value k d = (?d, Ok v)" by auto
    moreover have "read_all ks ?d = (advance (length (encode_message ws)) ?d, Ok ws)"
      by (rule wire_field.read_back [OF more]) (use vs d v in auto)
    ultimately show "read_all (k # ks) d = (advance (length (encode_message vs)) d, Ok vs)"
      by (simp add: v)
  next
    fix d d' :: decoder and vs
    assume "read_all (k # ks) d = (d', Ok vs)"
    then obtain d1 v ws where r: "read_value k d = (d1, Ok v)" "read_all ks d1 = (d', Ok ws)"
        and vs: "vs = v # ws"
      unfolding read_all_Cons_Ok by blast
    note f1 = wire_field.read_only [OF one r(1)] and f2 = wire_field.read_only [OF more r(2)]
    from f1 f2 have k: "kind_of_value v = k" "value_ok v" "map kind_of_value ws = ks" "list_all value_ok ws"
      by blast+
    from f1 f2 have "rest_of d = value_bytes v @ encode_message ws @ rest_of d'" by metis
    moreover from f1 f2 have "d' = advance (length (value_bytes v) + length (encode_message ws)) d"
      by (metis advance_advance)
    ultimately have "rest_of d = encode_message vs @ rest_of d'"
        "d' = advance (length (encode_message vs)) d"
      unfolding vs by (simp_all only: encode_message_simps append.assoc length_append)
    moreover have "map kind_of_value vs = k # ks \<and> list_all value_ok vs" using k by (simp add: vs)
    ultimately show "(map kind_of_value vs = k # ks \<and> list_all value_ok vs) \<and>
        rest_of d = encode_message vs @ rest_of d' \<and> d' = advance (length (encode_message vs)) d"
      by blast
  next
    fix d :: decoder
    obtain d1 r1 where r1: "read_value k d = (d1, r1)" by fastforce
    obtain d2 r2 where r2: "read_all ks d1 = (d2, r2)" by fastforce
    show "snd (read_all (k # ks) d) \<noteq> Panic"
      using wire_field.no_panic [OF one, of d] wire_field.no_panic [OF more, of d1] r1 r2
      by (cases r1; cases r2) auto
    show "dec_ok d \<Longrightarrow> dec_ok (fst (read_all (k # ks) d))"
      using wire_field.keeps_ok [OF one, of d] wire_field.keeps_ok [OF more, of d1] r1 r2
      by (cases r1; cases r2) auto
  qed
qed

interpretation message: wire_field encode_message "read_all ks"
    "\<lambda>vs. map kind_of_value vs = ks \<and> list_all value_ok vs" for ks
  by (rule wire_field_all)

text \<open>
  Claim C8. Canonical encoding. Decoding a buffer as a message of given field kinds succeeds
  with the values \<open>vs\<close> exactly when \<open>vs\<close> are values of those kinds (byte strings shorter than
  \<open>2\<^sup>3\<^sup>2\<close>) and the buffer is their encoding: whatever was encoded is read back,
  and no second byte string decodes to the same values.
\<close>

theorem decode_iff_encoding:
  "decode_message ks bs = Ok vs \<longleftrightarrow>
     map kind_of_value vs = ks \<and> list_all value_ok vs \<and> bs = encode_message vs"
proof
  assume "decode_message ks bs = Ok vs"
  then obtain d where r: "read_all ks (decoder_new bs) = (d, Ok vs)" and "finish d = Ok ()"
    by (auto simp: decode_message_def split: prod.splits res.splits)
  then have "rest_of d = []" by (simp add: finish_Ok_iff)
  with message.read_only [OF r]
  show "map kind_of_value vs = ks \<and> list_all value_ok vs \<and> bs = encode_message vs" by simp
next
  assume vs: "map kind_of_value vs = ks \<and> list_all value_ok vs \<and> bs = encode_message vs"
  let ?d = "decoder_new bs"
  have "read_all ks ?d = (advance (length (encode_message vs)) ?d, Ok vs)"
    by (rule message.read_back) (use vs in auto)
  moreover have "finish (advance (length (encode_message vs)) ?d) = Ok ()"
    using vs by (simp add: finish_Ok_iff)
  ultimately show "decode_message ks bs = Ok vs" by (simp add: decode_message_def)
qed

text \<open>
  Hostile buffers. A message cut anywhere before its end, or followed by further
  bytes, is rejected with an error (never accepted, never a panic).
\<close>

theorem damaged_message_rejected:
  assumes "list_all value_ok vs" and "n < length (encode_message vs)" and "extra \<noteq> []"
  shows "is_err (decode_message (map kind_of_value vs) (take n (encode_message vs)))
    \<and> is_err (decode_message (map kind_of_value vs) (encode_message vs @ extra))"
proof
  let ?ks = "map kind_of_value vs"
  have ok: "map kind_of_value vs = ?ks \<and> list_all value_ok vs" using assms(1) by simp
  let ?d = "decoder_new (take n (encode_message vs))"
  have "is_err (snd (read_all ?ks ?d))"
    by (rule message.truncated_is_error [OF ok _ assms(2)]) simp
  then show "is_err (decode_message ?ks (take n (encode_message vs)))"
    by (cases "read_all ?ks ?d"; cases "snd (read_all ?ks ?d)") (auto simp: decode_message_def)
  let ?e = "decoder_new (encode_message vs @ extra)"
  have "read_all ?ks ?e = (advance (length (encode_message vs)) ?e, Ok vs)"
    by (rule message.read_back [OF ok]) simp
  then show "is_err (decode_message ?ks (encode_message vs @ extra))"
    using assms(3) by (simp add: decode_message_def finish_def remaining_rest)
qed

theorem damaged_message_rejected_witness:
  "is_err (decode_message (map kind_of_value [VU8 7, VBytes [1, 2]])
     (take 6 (encode_message [VU8 7, VBytes [1, 2]])))
   \<and> is_err (decode_message (map kind_of_value [VU8 7, VBytes [1, 2]])
     (encode_message [VU8 7, VBytes [1, 2]] @ [0]))"
  by (rule damaged_message_rejected) (simp_all add: bytes_enc_def)

text \<open>No sequence of reads moves the position past the end of the buffer.\<close>

lemma read_all_dec_ok: "dec_ok d \<Longrightarrow> dec_ok (fst (read_all ks d)) \<and> snd (read_all ks d) \<noteq> Panic"
  using message.keeps_ok message.no_panic by blast

section \<open>Recovery states on the wire\<close>

datatype wire_recovery_state = WPending | WTimelockActive | WCompleted | WCancelled | WExpired

primrec wire_discriminant :: "wire_recovery_state \<Rightarrow> u8" where
  "wire_discriminant WPending = 0x01"
| "wire_discriminant WTimelockActive = 0x02"
| "wire_discriminant WCompleted = 0x03"
| "wire_discriminant WCancelled = 0x04"
| "wire_discriminant WExpired = 0x05"

definition wire_state_try_from :: "u8 \<Rightarrow> (keymesh_error, wire_recovery_state) res" where
  "wire_state_try_from v =
     (if v = 0x01 then Ok WPending
      else if v = 0x02 then Ok WTimelockActive
      else if v = 0x03 then Ok WCompleted
      else if v = 0x04 then Ok WCancelled
      else if v = 0x05 then Ok WExpired
      else Err (InvalidInput (''unknown recovery state discriminant: 0x'' @ hex_byte v)))"

lemma wire_state_try_from_iff: "wire_state_try_from v = Ok s \<longleftrightarrow> v = wire_discriminant s"
  by (cases s) (auto simp: wire_state_try_from_def)

lemma wire_state_no_panic: "wire_state_try_from v \<noteq> Panic"
  by (simp add: wire_state_try_from_def)

lemma wire_state_unknown: "v \<notin> range wire_discriminant \<Longrightarrow> is_err (wire_state_try_from v)"
  using wire_state_try_from_iff [of v] wire_state_no_panic [of v]
  by (cases "wire_state_try_from v") auto

end
