(* ===== verification/Contracts.thy ===== *)
theory Contracts
  imports Prelude
begin

text \<open>
  The interfaces that several components share, each a locale whose parameters are the
  operations a client calls and whose assumptions are what the provider promises.

  \<^item> \<open>quorum_timelock\<close>: collect distinct approvals, arm a timelock at the quorum, become
    executable when it has elapsed. Provided by \<open>RecoveryRequest\<close> (theory Recovery) and by
    \<open>TssRotationRequest\<close> (theory Governance).
  \<^item> \<open>quorum_machine\<close>: the same machine among further operations that leave the collection alone.
  \<^item> \<open>cancellable_quorum\<close>: the same machine with a \<open>cancel\<close> that closes it for good.
  \<^item> \<open>one_shot\<close>: a session that leaves its start status once. Provided by the three
    \<open>SigningSession\<close> types (theories Core_Tss, Tss_Session and Proto_Session).
\<close>

section \<open>Approvals, quorum and timelock\<close>

text \<open>What holds of the approvals, the quorum, the collecting flag and the deadline.\<close>

definition quorum_inv :: "string list \<Rightarrow> nat \<Rightarrow> bool \<Rightarrow> u64 option \<Rightarrow> bool" where
  "quorum_inv as q open_now dl \<longleftrightarrow>
     distinct as \<and> (open_now \<longrightarrow> length as < q \<and> dl = None)
       \<and> (dl \<noteq> None \<longrightarrow> length as = q)"

text \<open>A sequence of approval calls, each by a guardian at a time; errors leave the state.\<close>

definition approve_run ::
  "('s \<Rightarrow> string \<Rightarrow> u64 \<Rightarrow> 's \<times> ('e, unit) res) \<Rightarrow> 's \<Rightarrow> (string \<times> u64) list \<Rightarrow> 's" where
  "approve_run approve s calls = foldl (\<lambda>s (g, now). fst (approve s g now)) s calls"

lemma approve_run_Nil [simp]: "approve_run f s [] = s"
  by (simp add: approve_run_def)

lemma approve_run_Cons [simp]:
  "approve_run f s ((g, now) # calls) = approve_run f (fst (f s g now)) calls"
  by (simp add: approve_run_def)

lemma approve_run_append [simp]:
  "approve_run f s (xs @ ys) = approve_run f (approve_run f s xs) ys"
  by (simp add: approve_run_def)

locale quorum_timelock =
  fixes approve :: "'s \<Rightarrow> string \<Rightarrow> u64 \<Rightarrow> 's \<times> ('e, unit) res"
    and apprs :: "'s \<Rightarrow> string list"
    and quorum :: "'s \<Rightarrow> nat"
    and delay :: "'s \<Rightarrow> u64"
    and collecting :: "'s \<Rightarrow> bool"
    and deadline :: "'s \<Rightarrow> u64 option"
    and executable :: "'s \<Rightarrow> u64 \<Rightarrow> bool"
    and wf :: "'s \<Rightarrow> bool"
  assumes keeps_quorum: "quorum (fst (approve s g now)) = quorum s"
    and keeps_delay: "delay (fst (approve s g now)) = delay s"
    and refused: "\<not> collecting s \<or> g \<in> set (apprs s) \<Longrightarrow>
      fst (approve s g now) = s \<and> is_err (snd (approve s g now))"
    and counted: "collecting s \<Longrightarrow> g \<notin> set (apprs s) \<Longrightarrow>
      apprs (fst (approve s g now)) = apprs s @ [g]"
    and below: "collecting s \<Longrightarrow> g \<notin> set (apprs s) \<Longrightarrow> Suc (length (apprs s)) < quorum s \<Longrightarrow>
      collecting (fst (approve s g now)) \<and> deadline (fst (approve s g now)) = deadline s"
    and reached: "collecting s \<Longrightarrow> g \<notin> set (apprs s) \<Longrightarrow> quorum s \<le> Suc (length (apprs s)) \<Longrightarrow>
      \<not> collecting (fst (approve s g now)) \<and>
      (deadline (fst (approve s g now)) = Some (now + delay s) \<or>
       deadline (fst (approve s g now)) = deadline s \<and> 2 ^ 64 \<le> unat now + unat (delay s))"
    and keeps_wf: "wf s \<Longrightarrow> wf (fst (approve s g now))"
    and executable_deadline: "wf s \<Longrightarrow> executable s now \<Longrightarrow>
      \<not> collecting s \<and> (\<exists>t. deadline s = Some t \<and> t \<le> now)"
begin

lemma approve_cases:
  obtains (refuse) "\<not> collecting s \<or> g \<in> set (apprs s)" "fst (approve s g now) = s"
  | (count) "collecting s" "g \<notin> set (apprs s)" "Suc (length (apprs s)) < quorum s"
      "apprs (fst (approve s g now)) = apprs s @ [g]" "collecting (fst (approve s g now))"
      "deadline (fst (approve s g now)) = deadline s"
  | (arm) "collecting s" "g \<notin> set (apprs s)" "quorum s \<le> Suc (length (apprs s))"
      "apprs (fst (approve s g now)) = apprs s @ [g]" "\<not> collecting (fst (approve s g now))"
      "deadline (fst (approve s g now)) = Some (now + delay s) \<or>
       deadline (fst (approve s g now)) = deadline s \<and> 2 ^ 64 \<le> unat now + unat (delay s)"
proof (cases "\<not> collecting s \<or> g \<in> set (apprs s)")
  case True
  with refused [OF True] refuse show thesis by blast
next
  case False
  then have c: "collecting s" "g \<notin> set (apprs s)" by auto
  show thesis
  proof (cases "Suc (length (apprs s)) < quorum s")
    case True
    with below [OF c True] counted [OF c] count [OF c] show thesis by blast
  next
    case False
    then have "quorum s \<le> Suc (length (apprs s))" by simp
    with reached [OF c this] counted [OF c] arm [OF c] show thesis by blast
  qed
qed

lemma approve_inv:
  assumes "quorum_inv (apprs s) (quorum s) (collecting s) (deadline s)"
  shows "quorum_inv (apprs (fst (approve s g now))) (quorum (fst (approve s g now)))
           (collecting (fst (approve s g now))) (deadline (fst (approve s g now)))"
  by (cases rule: approve_cases [where s = s and g = g and now = now])
    (use assms in \<open>auto simp: quorum_inv_def keeps_quorum\<close>)

lemma run_keeps: "quorum (approve_run approve s calls) = quorum s
    \<and> delay (approve_run approve s calls) = delay s"
  by (induction calls arbitrary: s) (auto simp: keeps_quorum keeps_delay)

lemma run_inv:
  "quorum_inv (apprs s) (quorum s) (collecting s) (deadline s) \<Longrightarrow>
   quorum_inv (apprs (approve_run approve s calls)) (quorum (approve_run approve s calls))
     (collecting (approve_run approve s calls)) (deadline (approve_run approve s calls))"
proof (induction calls arbitrary: s)
  case Nil
  then show ?case by simp
next
  case (Cons c calls)
  obtain g now where c: "c = (g, now)" by (cases c)
  from Cons.IH [OF approve_inv [OF Cons.prems]] c show ?case by simp
qed

lemma run_wf: "wf s \<Longrightarrow> wf (approve_run approve s calls)"
proof (induction calls arbitrary: s)
  case Nil
  then show ?case by simp
next
  case (Cons c calls)
  obtain g now where c: "c = (g, now)" by (cases c)
  from Cons.IH [OF keeps_wf [OF Cons.prems]] c show ?case by simp
qed

lemma run_closed: "\<not> collecting s \<Longrightarrow> approve_run approve s calls = s"
  by (induction calls arbitrary: s) (auto simp: refused)

lemma run_apprs_from: "set (apprs (approve_run approve s calls)) \<subseteq> set (apprs s) \<union> fst ` set calls"
proof (induction calls arbitrary: s)
  case Nil
  then show ?case by simp
next
  case (Cons c calls)
  obtain g now where c: "c = (g, now)" by (cases c)
  have "set (apprs (fst (approve s g now))) \<subseteq> insert g (set (apprs s))"
    by (cases rule: approve_cases [where s = s and g = g and now = now]) auto
  with Cons.IH [of "fst (approve s g now)"] c show ?case by auto
qed

text \<open>Nothing becomes executable before the quorum of distinct approvals has been given.\<close>

lemma executable_quorum:
  assumes "quorum_inv (apprs s) (quorum s) (collecting s) (deadline s)" and "wf s"
    and "executable s now"
  shows "distinct (apprs s) \<and> length (apprs s) = quorum s"
  using executable_deadline [OF assms(2,3)] assms(1) by (auto simp: quorum_inv_def)

lemma run_executable_guardians:
  assumes "quorum_inv [] (quorum s) (collecting s) (deadline s)" and "apprs s = []"
    and "wf s" and "executable (approve_run approve s calls) now"
  shows "quorum s \<le> card (fst ` set calls)"
proof -
  let ?s = "approve_run approve s calls"
  have "quorum_inv (apprs ?s) (quorum ?s) (collecting ?s) (deadline ?s)"
    by (rule run_inv) (simp add: assms(1,2))
  from executable_quorum [OF this run_wf [OF assms(3)] assms(4)] have "card (set (apprs ?s)) = quorum s"
    by (simp add: distinct_card run_keeps)
  moreover have "set (apprs ?s) \<subseteq> fst ` set calls"
    using run_apprs_from [of s calls] assms(2) by simp
  ultimately show ?thesis by (metis List.finite_set card_mono finite_imageI)
qed

text \<open>The deadline of a run is the time of the approval that reached the quorum plus the delay.\<close>

lemma run_deadline:
  assumes "deadline s = None" and "deadline (approve_run approve s calls) = Some t"
  shows "\<exists>(g, now) \<in> set calls. t = now + delay s"
  using assms
proof (induction calls arbitrary: s)
  case Nil
  then show ?case by simp
next
  case (Cons c calls)
  obtain g now where c: "c = (g, now)" by (cases c)
  show ?case
  proof (cases "deadline (fst (approve s g now))")
    case None
    with Cons.IH [of "fst (approve s g now)"] Cons.prems c show ?thesis
      by (fastforce simp: keeps_delay)
  next
    case (Some u)
    show ?thesis
    proof (cases rule: approve_cases [where s = s and g = g and now = now])
      case arm
      with Cons.prems c Some run_closed [of "fst (approve s g now)" calls] show ?thesis by auto
    qed (use Some Cons.prems in auto)
  qed
qed

text \<open>Enough distinct guardians do close the collection.\<close>

lemma run_closes:
  assumes "quorum s \<le> length (apprs s) + card (fst ` set calls - set (apprs s))"
    and "quorum_inv (apprs s) (quorum s) (collecting s) (deadline s)"
  shows "\<not> collecting (approve_run approve s calls)"
  using assms
proof (induction calls arbitrary: s)
  case Nil
  then show ?case by (auto simp: quorum_inv_def)
next
  case (Cons c calls)
  obtain g now where c: "c = (g, now)" by (cases c)
  let ?s = "fst (approve s g now)" and ?G = "fst ` set calls"
  have inv: "quorum_inv (apprs ?s) (quorum ?s) (collecting ?s) (deadline ?s)"
    by (rule approve_inv) (rule Cons.prems(2))
  show ?case
  proof (cases rule: approve_cases [where s = s and g = g and now = now])
    case refuse
    show ?thesis
    proof (cases "collecting s")
      case True
      with refuse have "g \<in> set (apprs s)" by simp
      then have "fst ` set (c # calls) - set (apprs s) = ?G - set (apprs s)" using c by auto
      with Cons.IH [of s] Cons.prems refuse c show ?thesis by simp
    next
      case False
      with run_closed [OF False] show ?thesis by simp
    qed
  next
    case count
    have "fst ` set (c # calls) - set (apprs s) = insert g (?G - set (apprs s) - {g})"
      using count(2) c by auto
    then have "card (fst ` set (c # calls) - set (apprs s)) = Suc (card (?G - set (apprs s) - {g}))"
      by (simp only:) (rule card_insert_disjoint, auto)
    moreover have "?G - set (apprs ?s) = ?G - set (apprs s) - {g}" using count(4) by auto
    ultimately have "quorum ?s \<le> length (apprs ?s) + card (?G - set (apprs ?s))"
      using Cons.prems(1) count(4) by (simp add: keeps_quorum)
    from Cons.IH [OF this inv] c show ?thesis by simp
  next
    case arm
    with run_closed [of ?s calls] c show ?thesis by simp
  qed
qed

end

text \<open>
  A machine with further operations besides the approvals: they leave approvals, quorum, delay
  and deadline alone and never reopen the collection. An event is an approval or one of those.
\<close>

primrec machine_step ::
  "('s \<Rightarrow> string \<Rightarrow> u64 \<Rightarrow> 's \<times> ('e, unit) res) \<Rightarrow> ('o \<Rightarrow> 's \<Rightarrow> 's)
     \<Rightarrow> 's \<Rightarrow> string \<times> u64 + 'o \<Rightarrow> 's" where
  "machine_step approve other s (Inl a) = fst (approve s (fst a) (snd a))"
| "machine_step approve other s (Inr z) = other z s"

definition machine_run ::
  "('s \<Rightarrow> string \<Rightarrow> u64 \<Rightarrow> 's \<times> ('e, unit) res) \<Rightarrow> ('o \<Rightarrow> 's \<Rightarrow> 's)
     \<Rightarrow> 's \<Rightarrow> (string \<times> u64 + 'o) list \<Rightarrow> 's" where
  "machine_run approve other = foldl (machine_step approve other)"

locale quorum_machine = quorum_timelock +
  fixes other :: "'o \<Rightarrow> 'a \<Rightarrow> 'a"
  assumes other_keeps: "apprs (other z s) = apprs s \<and> quorum (other z s) = quorum s
      \<and> delay (other z s) = delay s \<and> deadline (other z s) = deadline s"
    and other_closes: "collecting (other z s) \<Longrightarrow> collecting s"
    and other_wf: "wf s \<Longrightarrow> wf (other z s)"
begin

text \<open>What a state's approvals and deadline say about the events that led to it.\<close>

definition accounted :: "'a \<Rightarrow> (string \<times> u64 + 'o) list \<Rightarrow> bool" where
  "accounted s evs \<longleftrightarrow>
     quorum_inv (apprs s) (quorum s) (collecting s) (deadline s) \<and> wf s
     \<and> (\<forall>g \<in> set (apprs s). \<exists>t. Inl (g, t) \<in> set evs)
     \<and> (\<forall>dl. deadline s = Some dl \<longrightarrow> (\<exists>t. Inl (last (apprs s), t) \<in> set evs \<and> dl = t + delay s))"

lemma accounted_step:
  assumes "accounted s evs"
  shows "accounted (machine_step approve other s ev) (evs @ [ev])"
proof (cases ev)
  case (Inr z)
  with assms other_closes [of z s] other_wf [of s z] show ?thesis
    by (auto simp: accounted_def other_keeps quorum_inv_def)
next
  case (Inl a)
  obtain g now where a: "a = (g, now)" by (cases a)
  have inv: "quorum_inv (apprs (fst (approve s g now))) (quorum (fst (approve s g now)))
      (collecting (fst (approve s g now))) (deadline (fst (approve s g now)))"
    using approve_inv assms by (simp add: accounted_def)
  have w: "wf (fst (approve s g now))" using keeps_wf assms by (simp add: accounted_def)
  show ?thesis
  proof (cases rule: approve_cases [where s = s and g = g and now = now])
    case refuse
    with assms Inl a show ?thesis by (auto simp: accounted_def)
  next
    case count
    with assms have "deadline s = None" by (auto simp: accounted_def quorum_inv_def)
    with assms count inv w Inl a show ?thesis by (auto simp: accounted_def)
  next
    case arm
    with assms have "deadline s = None" by (auto simp: accounted_def quorum_inv_def)
    with assms arm inv w Inl a show ?thesis by (auto simp: accounted_def keeps_delay)
  qed
qed

lemma accounted_run:
  "accounted s evs \<Longrightarrow> accounted (machine_run approve other s evs') (evs @ evs')"
proof (induction evs' arbitrary: s evs)
  case Nil
  then show ?case by (simp add: machine_run_def)
next
  case (Cons ev evs')
  from Cons.IH [OF accounted_step [OF Cons.prems], of ev] show ?case
    by (simp add: machine_run_def)
qed

lemma machine_run_keeps: "quorum (machine_run approve other s evs) = quorum s
    \<and> delay (machine_run approve other s evs) = delay s"
proof (induction evs arbitrary: s)
  case Nil
  then show ?case by (simp add: machine_run_def)
next
  case (Cons ev evs)
  have "quorum (machine_step approve other s ev) = quorum s
      \<and> delay (machine_step approve other s ev) = delay s"
    by (cases ev) (auto simp: other_keeps keeps_quorum keeps_delay)
  with Cons show ?case by (simp add: machine_run_def)
qed

text \<open>An executable state has had its quorum of guardians and has waited out its delay.\<close>

lemma run_executable:
  assumes "apprs s = []" and "deadline s = None" and "0 < quorum s" and "wf s"
    and "executable (machine_run approve other s evs) now"
    and "list_all (\<lambda>ev. case ev of Inl (g, t) \<Rightarrow> unat t + unat (delay s) < 2 ^ 64 | Inr z \<Rightarrow> True) evs"
  shows "\<exists>gs t. distinct gs \<and> length gs = quorum s \<and> (\<forall>g \<in> set gs. \<exists>u. Inl (g, u) \<in> set evs)
    \<and> Inl (last gs, t) \<in> set evs \<and> unat t + unat (delay s) \<le> unat now"
proof -
  let ?s = "machine_run approve other s evs"
  have "accounted s []" using assms(1-4) by (simp add: accounted_def quorum_inv_def)
  from accounted_run [OF this, of evs] have acc: "accounted ?s evs" by simp
  then have "wf ?s" by (simp add: accounted_def)
  from executable_deadline [OF this assms(5)] obtain dl where dl: "deadline ?s = Some dl" "dl \<le> now"
    by blast
  with acc obtain t where t: "Inl (last (apprs ?s), t) \<in> set evs" "dl = t + delay ?s"
    by (auto simp: accounted_def)
  have "unat t + unat (delay s) < 2 ^ 64" using assms(6) t(1) by (fastforce simp: list_all_iff)
  then have "unat t + unat (delay s) \<le> unat now"
    using t(2) dl(2) machine_run_keeps [of s evs] by (simp add: unat_add_fits word_le_nat_alt)
  moreover have "distinct (apprs ?s) \<and> length (apprs ?s) = quorum s"
    using acc dl(1) machine_run_keeps [of s evs] by (auto simp: accounted_def quorum_inv_def)
  ultimately show ?thesis using acc t(1) unfolding accounted_def by blast
qed

end

locale cancellable_quorum = quorum_timelock +
  fixes cancel :: "'a \<Rightarrow> 'a \<times> ('b, unit) res"
    and live :: "'a \<Rightarrow> bool"
  assumes cancel_live: "live s \<Longrightarrow> snd (cancel s) = Ok () \<and> \<not> live (fst (cancel s))"
    and cancel_dead: "\<not> live s \<Longrightarrow> fst (cancel s) = s \<and> is_err (snd (cancel s))"
    and dead_inert: "\<not> live s \<Longrightarrow> \<not> collecting s \<and> \<not> executable s now"
begin

lemma cancel_twice: "is_err (snd (cancel (fst (cancel s))))"
  by (cases "live s") (auto simp: cancel_live cancel_dead)

lemma cancelled_forever:
  "live s \<Longrightarrow> \<not> executable (approve_run approve (fst (cancel s)) calls) now"
proof -
  assume "live s"
  then have d: "\<not> live (fst (cancel s))" by (simp add: cancel_live)
  then have "approve_run approve (fst (cancel s)) calls = fst (cancel s)"
    using dead_inert run_closed by blast
  with d show ?thesis using dead_inert by simp
qed

end

section \<open>One-shot sessions\<close>

text \<open>Attempted transitions in a row; a refused one leaves the session as it was.\<close>

definition try_step :: "('s \<Rightarrow> 'st \<Rightarrow> 's option) \<Rightarrow> 's \<Rightarrow> 'st \<Rightarrow> 's" where
  "try_step step s t = (case step s t of Some s' \<Rightarrow> s' | None \<Rightarrow> s)"

definition try_run :: "('s \<Rightarrow> 'st \<Rightarrow> 's option) \<Rightarrow> 's \<Rightarrow> 'st list \<Rightarrow> 's" where
  "try_run step = foldl (try_step step)"

locale one_shot =
  fixes step :: "'s \<Rightarrow> 'st \<Rightarrow> 's option"
    and status :: "'s \<Rightarrow> 'st"
    and started :: 'st
    and frame :: "'s \<Rightarrow> 'f"
  assumes accepts: "status s = started \<Longrightarrow> t \<noteq> started \<Longrightarrow>
      \<exists>s'. step s t = Some s' \<and> status s' = t \<and> frame s' = frame s"
    and rejects: "status s \<noteq> started \<or> t = started \<Longrightarrow> step s t = None"
begin

lemma terminal_frozen: "status s \<noteq> started \<Longrightarrow> try_run step s ts = s"
  by (induction ts) (auto simp: try_run_def try_step_def rejects)

lemma try_run_frame: "frame (try_run step s ts) = frame s"
proof (induction ts arbitrary: s)
  case Nil
  then show ?case by (simp add: try_run_def)
next
  case (Cons t ts)
  have "frame (try_step step s t) = frame s"
    using accepts [of s t] rejects [of s t]
    by (cases "status s = started"; cases "t = started") (auto simp: try_step_def)
  with Cons show ?case by (simp add: try_run_def)
qed

text \<open>The status after any attempts is the first target that is not the start status.\<close>

lemma try_run_status:
  assumes "status s = started"
  shows "status (try_run step s ts)
    = (case filter (\<lambda>t. t \<noteq> started) ts of [] \<Rightarrow> started | t # _ \<Rightarrow> t)"
  using assms
proof (induction ts)
  case Nil
  then show ?case by (simp add: try_run_def)
next
  case (Cons t ts)
  show ?case
  proof (cases "t = started")
    case True
    with Cons rejects show ?thesis by (simp add: try_run_def try_step_def)
  next
    case False
    with accepts [OF Cons.prems False] obtain s' where s': "step s t = Some s'" "status s' = t"
      by blast
    with terminal_frozen [of s' ts] False show ?thesis by (simp add: try_run_def try_step_def)
  qed
qed

end

end
