(* ===== verification/Recovery.thy ===== *)
theory Recovery
  imports Wire Contracts
begin

text \<open>
  The guardian recovery state machine of \<open>crates/keymesh-core/src/recovery/mod.rs\<close>: the
  statuses and the table of allowed actions, the request aggregate with its operations
  \<open>initiate\<close>, \<open>approve\<close>, \<open>cancel\<close>, \<open>finalize\<close> and its views, and the canonical encoding of a
  request. The code takes the clock as an argument; so does the model. \<open>approve\<close> adds two
  \<open>u64\<close>, so it takes the build mode.
\<close>

unbundle bit_operations_syntax

section \<open>Statuses and actions\<close>

datatype recovery_status =
  RecNone | RecPending | RecQuorumReached | RecExecutable | RecExecuted | RecCancelled

datatype action = Initiate | Approve | Cancel | Finalize

primrec recovery_discriminant :: "recovery_status \<Rightarrow> u8" where
  "recovery_discriminant RecNone = 0"
| "recovery_discriminant RecPending = 1"
| "recovery_discriminant RecQuorumReached = 2"
| "recovery_discriminant RecExecutable = 3"
| "recovery_discriminant RecExecuted = 4"
| "recovery_discriminant RecCancelled = 5"

definition recovery_is_terminal :: "recovery_status \<Rightarrow> bool" where
  "recovery_is_terminal s \<longleftrightarrow> s = RecExecuted \<or> s = RecCancelled"

definition recovery_is_live :: "recovery_status \<Rightarrow> bool" where
  "recovery_is_live s \<longleftrightarrow> s = RecPending \<or> s = RecQuorumReached \<or> s = RecExecutable"

primrec allows :: "recovery_status \<Rightarrow> action \<Rightarrow> bool" where
  "allows s Approve = (s = RecPending)"
| "allows s Cancel = recovery_is_live s"
| "allows s Finalize = (s = RecExecutable)"
| "allows s Initiate = (\<not> recovery_is_live s)"

primrec display_status :: "recovery_status \<Rightarrow> string" where
  "display_status RecNone = ''none''"
| "display_status RecPending = ''pending''"
| "display_status RecQuorumReached = ''quorum_reached''"
| "display_status RecExecutable = ''executable''"
| "display_status RecExecuted = ''executed''"
| "display_status RecCancelled = ''cancelled''"

section \<open>The request\<close>

record recovery_request =
  rr_id :: u64
  rr_wallet :: string
  rr_initiator :: string
  rr_replaced_device :: "string option"
  rr_new_device :: string
  rr_initiated_at :: u64
  rr_execute_after :: "u64 option"
  rr_quorum_snapshot :: u32
  rr_timelock_snapshot_seconds :: u64
  rr_approvals :: "string list"
  rr_status :: recovery_status

definition MIN_TIMELOCK_SECONDS :: u64 where
  "MIN_TIMELOCK_SECONDS = 3600"

definition recovery_initiate ::
  "u64 \<Rightarrow> string \<Rightarrow> string \<Rightarrow> string option \<Rightarrow> string \<Rightarrow> nat \<Rightarrow> u32 \<Rightarrow> u64 \<Rightarrow> u64
     \<Rightarrow> (keymesh_error, recovery_request) res" where
  "recovery_initiate i wallet initiator replaced_device new_device active_guardian_count
     quorum_snapshot timelock_snapshot_seconds now_seconds =
     (if new_device = [] then Err (InvalidInput ''replacement device must not be empty'')
      else if replaced_device = Some new_device
      then Err (InvalidInput ''replacement device must differ from the device it replaces'')
      else if quorum_snapshot = 0
      then Err (InvalidInput ''recovery threshold must be greater than zero'')
      else if active_guardian_count < unat quorum_snapshot
      then Err (ThresholdNotMet (unat quorum_snapshot) active_guardian_count)
      else if timelock_snapshot_seconds < MIN_TIMELOCK_SECONDS
      then Err (TimelockActive (MIN_TIMELOCK_SECONDS - timelock_snapshot_seconds))
      else Ok \<lparr>rr_id = i, rr_wallet = wallet, rr_initiator = initiator,
               rr_replaced_device = replaced_device, rr_new_device = new_device,
               rr_initiated_at = now_seconds, rr_execute_after = None,
               rr_quorum_snapshot = quorum_snapshot,
               rr_timelock_snapshot_seconds = timelock_snapshot_seconds,
               rr_approvals = [], rr_status = RecPending\<rparr>)"

definition recovery_effective_status :: "recovery_request \<Rightarrow> u64 \<Rightarrow> recovery_status" where
  "recovery_effective_status r now_seconds =
     (if rr_status r = RecQuorumReached
      then (case rr_execute_after r of
              Some execute_after \<Rightarrow>
                (if execute_after \<le> now_seconds then RecExecutable else rr_status r)
            | None \<Rightarrow> rr_status r)
      else rr_status r)"

definition has_approved :: "recovery_request \<Rightarrow> string \<Rightarrow> bool" where
  "has_approved r guardian = list_ex (\<lambda>a. a = guardian) (rr_approvals r)"

definition recovery_approve ::
  "build \<Rightarrow> recovery_request \<Rightarrow> string \<Rightarrow> u64 \<Rightarrow> recovery_request \<times> (keymesh_error, unit) res" where
  "recovery_approve b r guardian now_seconds =
     (if rr_status r \<noteq> RecPending
      then (r, Err (InvalidStateTransition (display_status (rr_status r)) ''approve''))
      else if guardian \<in> set (rr_approvals r) then (r, Err (DuplicateApproval guardian))
      else
        (let r1 = r\<lparr>rr_approvals := rr_approvals r @ [guardian]\<rparr>
         in if unat (rr_quorum_snapshot r1) \<le> length (rr_approvals r1)
            then (let r2 = r1\<lparr>rr_status := RecQuorumReached\<rparr>
                  in (case add_u64 b now_seconds (rr_timelock_snapshot_seconds r2) of
                        Ok t \<Rightarrow> (r2\<lparr>rr_execute_after := Some t\<rparr>, Ok ())
                      | Err e \<Rightarrow> (r2, Err e)
                      | Panic \<Rightarrow> (r2, Panic)))
            else (r1, Ok ())))"

definition recovery_cancel :: "recovery_request \<Rightarrow> recovery_request \<times> (keymesh_error, unit) res" where
  "recovery_cancel r =
     (if \<not> allows (rr_status r) Cancel
      then (r, Err (InvalidStateTransition (display_status (rr_status r)) ''cancel''))
      else (r\<lparr>rr_status := RecCancelled\<rparr>, Ok ()))"

definition recovery_finalize ::
  "recovery_request \<Rightarrow> u64 \<Rightarrow> recovery_request \<times> (keymesh_error, string option \<times> string) res" where
  "recovery_finalize r now_seconds =
     (let eff = recovery_effective_status r now_seconds
      in if eff = RecExecutable
         then (r\<lparr>rr_status := RecExecuted\<rparr>, Ok (rr_replaced_device r, rr_new_device r))
         else if eff = RecQuorumReached
         then (case rr_execute_after r of
                 None \<Rightarrow> (r, Panic)
               | Some execute_after \<Rightarrow>
                   (r, Err (TimelockActive (saturating_sub_u64 execute_after now_seconds))))
         else (r, Err (InvalidStateTransition (display_status eff) ''finalize'')))"

lemmas recovery_ops = recovery_approve_def recovery_cancel_def recovery_finalize_def
declare recovery_ops [guard_simps]

section \<open>Canonical encoding\<close>

definition RECOVERY_DOMAIN :: string where
  "RECOVERY_DOMAIN = ''KEYMESH_RECOVERY_V1''"

definition CANONICAL_VERSION :: u8 where
  "CANONICAL_VERSION = 1"

definition keccakless_domain_tag :: bytes where
  "keccakless_domain_tag =
     (let hash = foldl (\<lambda>h byte. (h XOR ucast byte) * 0x00000100000001B3)
                   (0xcbf29ce484222325 :: u64) (str_bytes RECOVERY_DOMAIN)
      in u64_be hash @ replicate 24 0)"

text \<open>The \<open>expect\<close> on the conversion of the quorum to \<open>u8\<close> is the panic branch.\<close>

definition recovery_canonical_bytes :: "recovery_request \<Rightarrow> (keymesh_error, bytes) res" where
  "recovery_canonical_bytes r =
     (if unat (rr_quorum_snapshot r) < 256
      then Ok (into_bytes
        (write_u64 (rr_timelock_snapshot_seconds r)
        (write_u8 (ucast (rr_quorum_snapshot r))
        (write_u64 (rr_initiated_at r)
        (write_bytes (str_bytes (rr_new_device r))
        (write_bytes (str_bytes (case rr_replaced_device r of None \<Rightarrow> '''' | Some d \<Rightarrow> d))
        (write_bytes (str_bytes (rr_initiator r))
        (write_bytes (str_bytes (rr_wallet r))
        (write_u64 (rr_id r)
        (write_u8 CANONICAL_VERSION
        (write_raw keccakless_domain_tag encoder_new)))))))))))
      else Panic)"

section \<open>The contract\<close>

lemma recovery_initiate_Ok:
  "recovery_initiate i w ini rep nd n q lock now = Ok r \<longleftrightarrow>
     nd \<noteq> [] \<and> rep \<noteq> Some nd \<and> q \<noteq> 0 \<and> unat q \<le> n \<and> MIN_TIMELOCK_SECONDS \<le> lock \<and>
     r = \<lparr>rr_id = i, rr_wallet = w, rr_initiator = ini, rr_replaced_device = rep,
          rr_new_device = nd, rr_initiated_at = now, rr_execute_after = None,
          rr_quorum_snapshot = q, rr_timelock_snapshot_seconds = lock, rr_approvals = [],
          rr_status = RecPending\<rparr>"
  unfolding recovery_initiate_def by (auto simp: not_less not_le)

lemma recovery_effective_executable:
  "recovery_effective_status r now = RecExecutable \<longleftrightarrow>
     rr_status r = RecExecutable \<or>
     rr_status r = RecQuorumReached \<and> (\<exists>t. rr_execute_after r = Some t \<and> t \<le> now)"
  by (auto simp: recovery_effective_status_def split: option.split)

interpretation rec_quorum: cancellable_quorum "recovery_approve b" rr_approvals
    "\<lambda>r. unat (rr_quorum_snapshot r)" rr_timelock_snapshot_seconds
    "\<lambda>r. rr_status r = RecPending" rr_execute_after
    "\<lambda>r now. recovery_effective_status r now = RecExecutable"
    "\<lambda>r. rr_status r \<noteq> RecExecutable" recovery_cancel "\<lambda>r. recovery_is_live (rr_status r)" for b
proof (unfold_locales, goal_cases)
  case (9 s)
  then show ?case by (simp add: recovery_cancel_def recovery_is_live_def)
next
  case (10 s)
  then show ?case by (simp add: recovery_cancel_def)
next
  case (11 s now)
  then show ?case by (auto simp: recovery_is_live_def recovery_effective_executable)
qed (auto simp: recovery_approve_def Let_def add_u64_def recovery_effective_executable
       split: build.split)

end
