(* ===== verification/Recovery_Safety.thy ===== *)
theory Recovery_Safety
  imports Recovery
begin

text \<open>
  What a recovery request can go through: runs of arbitrary approve, cancel and finalize calls
  at arbitrary times from a freshly initiated request. The invariant of a reachable request,
  the quorum and timelock guarantees of a finalization, the frozen terminal states, and the
  refinement of the abstract machine that the recovery protocol document describes.
\<close>

section \<open>Runs and the invariant\<close>

datatype recovery_event = EvApprove string u64 | EvCancel | EvFinalize u64

primrec recovery_step :: "build \<Rightarrow> recovery_request \<Rightarrow> recovery_event \<Rightarrow> recovery_request" where
  "recovery_step b r (EvApprove g now) = fst (recovery_approve b r g now)"
| "recovery_step b r EvCancel = fst (recovery_cancel r)"
| "recovery_step b r (EvFinalize now) = fst (recovery_finalize r now)"

definition recovery_run :: "build \<Rightarrow> recovery_request \<Rightarrow> recovery_event list \<Rightarrow> recovery_request" where
  "recovery_run b r evs = foldl (recovery_step b) r evs"

lemma recovery_run_simps [simp]:
  "recovery_run b r [] = r"
  "recovery_run b r (ev # evs) = recovery_run b (recovery_step b r ev) evs"
  "recovery_run b r (evs @ [ev]) = recovery_step b (recovery_run b r evs) ev"
  by (simp_all add: recovery_run_def)

definition recovery_inv :: "recovery_request \<Rightarrow> bool" where
  "recovery_inv r \<longleftrightarrow>
     rr_new_device r \<noteq> [] \<and> rr_replaced_device r \<noteq> Some (rr_new_device r) \<and>
     0 < unat (rr_quorum_snapshot r) \<and> MIN_TIMELOCK_SECONDS \<le> rr_timelock_snapshot_seconds r \<and>
     distinct (rr_approvals r) \<and> length (rr_approvals r) \<le> unat (rr_quorum_snapshot r) \<and>
     (case rr_status r of
        RecPending \<Rightarrow> length (rr_approvals r) < unat (rr_quorum_snapshot r) \<and> rr_execute_after r = None
      | RecQuorumReached \<Rightarrow> length (rr_approvals r) = unat (rr_quorum_snapshot r)
      | RecExecuted \<Rightarrow>
          length (rr_approvals r) = unat (rr_quorum_snapshot r) \<and> rr_execute_after r \<noteq> None
      | RecCancelled \<Rightarrow> True
      | _ \<Rightarrow> False)"

lemma recovery_inv_initiate: "recovery_initiate i w ini rep nd n q lock now = Ok r \<Longrightarrow> recovery_inv r"
  by (auto simp: recovery_initiate_Ok recovery_inv_def unat_gt_0)

lemma recovery_inv_approve: "recovery_inv r \<Longrightarrow> recovery_inv (fst (recovery_approve b r g now))"
  by (auto simp: recovery_inv_def recovery_approve_def Let_def
        split: res.split recovery_status.splits)

lemma recovery_inv_cancel: "recovery_inv r \<Longrightarrow> recovery_inv (fst (recovery_cancel r))"
  by (auto simp: recovery_inv_def recovery_cancel_def split: recovery_status.splits)

lemma recovery_inv_finalize: "recovery_inv r \<Longrightarrow> recovery_inv (fst (recovery_finalize r now))"
  by (auto simp: recovery_inv_def recovery_finalize_def Let_def recovery_effective_status_def
        split: recovery_status.splits option.splits if_splits)

lemma recovery_inv_step: "recovery_inv r \<Longrightarrow> recovery_inv (recovery_step b r ev)"
  by (cases ev) (simp_all add: recovery_inv_approve recovery_inv_cancel recovery_inv_finalize)

lemma recovery_inv_run: "recovery_inv r \<Longrightarrow> recovery_inv (recovery_run b r evs)"
  by (induction evs arbitrary: r) (simp_all add: recovery_inv_step)

text \<open>The snapshots and identity fields never change: later configuration cannot weaken a request.\<close>

definition recovery_frame :: "recovery_request \<Rightarrow> recovery_request" where
  "recovery_frame r = r\<lparr>rr_execute_after := None, rr_approvals := [], rr_status := RecNone\<rparr>"

lemma recovery_frame_step: "recovery_frame (recovery_step b r ev) = recovery_frame r"
  by (cases ev) (auto simp: recovery_frame_def guard_simps Let_def split: res.split option.split)

lemma recovery_frame_run: "recovery_frame (recovery_run b r evs) = recovery_frame r"
  by (induction evs arbitrary: r) (simp_all add: recovery_frame_step)

lemma recovery_frame_fields:
  assumes "recovery_frame r = recovery_frame s"
  shows "rr_id r = rr_id s" "rr_wallet r = rr_wallet s" "rr_initiator r = rr_initiator s"
    "rr_replaced_device r = rr_replaced_device s" "rr_new_device r = rr_new_device s"
    "rr_initiated_at r = rr_initiated_at s" "rr_quorum_snapshot r = rr_quorum_snapshot s"
    "rr_timelock_snapshot_seconds r = rr_timelock_snapshot_seconds s"
  using assms by (cases r; cases s; simp add: recovery_frame_def)+

lemmas recovery_run_fields = recovery_frame_fields [OF recovery_frame_run]

text \<open>Where the approvals and the deadline of a reachable request come from.\<close>

definition recovery_history :: "recovery_request \<Rightarrow> recovery_event list \<Rightarrow> bool" where
  "recovery_history r evs \<longleftrightarrow>
     (\<forall>g \<in> set (rr_approvals r). \<exists>t. EvApprove g t \<in> set evs) \<and>
     (\<forall>d. rr_execute_after r = Some d \<longrightarrow> rr_approvals r \<noteq> [] \<and>
        (\<exists>t. EvApprove (last (rr_approvals r)) t \<in> set evs \<and>
             d = t + rr_timelock_snapshot_seconds r))"

lemma recovery_history_step:
  assumes "recovery_inv r" and "recovery_history r evs"
  shows "recovery_history (recovery_step b r ev) (evs @ [ev])"
proof (cases ev)
  case (EvApprove g now)
  show ?thesis
  proof (cases "rr_status r = RecPending \<and> g \<notin> set (rr_approvals r)")
    case True
    with assms have "rr_execute_after r = None" by (auto simp: recovery_inv_def)
    with True assms(2) EvApprove show ?thesis
      by (auto simp: recovery_history_def recovery_approve_def Let_def
            dest: add_u64_Ok split: res.split)
  next
    case False
    then have "fst (recovery_approve b r g now) = r" by (auto simp: recovery_approve_def)
    with assms(2) EvApprove show ?thesis by (fastforce simp: recovery_history_def)
  qed
qed (use assms(2) in \<open>auto simp: recovery_history_def guard_simps Let_def split: option.split; fastforce\<close>)+

lemma recovery_history_run:
  assumes "recovery_inv r" and "rr_approvals r = []" and "rr_execute_after r = None"
  shows "recovery_history (recovery_run b r evs) evs"
proof (induction evs rule: rev_induct)
  case Nil
  then show ?case using assms by (simp add: recovery_history_def)
next
  case (snoc ev evs)
  from recovery_history_step [OF recovery_inv_run [OF assms(1)] snoc] show ?case by simp
qed

section \<open>Initiation\<close>

text \<open>
  Initiation. A request is opened exactly when the new device is named and differs
  from the replaced one, the quorum is positive and satisfiable, and the timelock meets the
  protocol minimum; it is then pending with no approvals, and each failed check has its own error,
  in the order of the code.
\<close>

theorem recovery_initiate_spec:
  "recovery_initiate i w ini rep nd n q lock now =
     (if nd = [] \<or> rep = Some nd \<or> q = 0
      then Err (InvalidInput
        (if nd = [] then ''replacement device must not be empty''
         else if rep = Some nd then ''replacement device must differ from the device it replaces''
         else ''recovery threshold must be greater than zero''))
      else if n < unat q then Err (ThresholdNotMet (unat q) n)
      else if unat lock < 3600 then Err (TimelockActive (word_of_nat (3600 - unat lock)))
      else Ok \<lparr>rr_id = i, rr_wallet = w, rr_initiator = ini, rr_replaced_device = rep,
               rr_new_device = nd, rr_initiated_at = now, rr_execute_after = None,
               rr_quorum_snapshot = q, rr_timelock_snapshot_seconds = lock, rr_approvals = [],
               rr_status = RecPending\<rparr>)"
proof -
  have l: "lock < MIN_TIMELOCK_SECONDS \<longleftrightarrow> unat lock < 3600"
    by (simp add: MIN_TIMELOCK_SECONDS_def word_less_nat_alt)
  have m: "MIN_TIMELOCK_SECONDS - lock = word_of_nat (3600 - unat lock)" if "unat lock < 3600"
  proof -
    have "lock \<le> MIN_TIMELOCK_SECONDS" using that
      by (simp add: MIN_TIMELOCK_SECONDS_def word_le_nat_alt)
    then have "unat (MIN_TIMELOCK_SECONDS - lock) = 3600 - unat lock"
      by (simp add: unat_sub MIN_TIMELOCK_SECONDS_def)
    then show ?thesis by (rule word_eq_of_nat)
  qed
  show ?thesis by (auto simp: recovery_initiate_def l m)
qed

section \<open>The invariant, terminal states and the table of actions\<close>

text \<open>
  Invariant. Whatever approvals, cancellations and finalizations are attempted at
  whatever times on a freshly opened request, the stored status is never \<open>None\<close> or
  \<open>Executable\<close>, the approvals are distinct guardians and at most the quorum, a pending request is
  below the quorum with no deadline, and one past it has exactly the quorum; the request's
  identity, quorum and timelock snapshots are those of the initiation.
\<close>

theorem recovery_reachable_inv:
  assumes "recovery_initiate i w ini rep nd n q lock now = Ok r0"
  shows "recovery_inv (recovery_run b r0 evs)
    \<and> recovery_frame (recovery_run b r0 evs) = recovery_frame r0"
  using recovery_inv_run [OF recovery_inv_initiate [OF assms]] recovery_frame_run by blast

definition sample_request :: recovery_request where
  "sample_request = \<lparr>rr_id = 7, rr_wallet = ''0xA11CE'', rr_initiator = ''0xGUARD1'',
     rr_replaced_device = Some ''0xOLD'', rr_new_device = ''0xNEW'', rr_initiated_at = 1000,
     rr_execute_after = None, rr_quorum_snapshot = 2, rr_timelock_snapshot_seconds = 86400,
     rr_approvals = [], rr_status = RecPending\<rparr>"

lemma sample_request_initiate:
  "recovery_initiate 7 ''0xA11CE'' ''0xGUARD1'' (Some ''0xOLD'') ''0xNEW'' 5 2 86400 1000
     = Ok sample_request"
  by (simp add: recovery_initiate_def sample_request_def MIN_TIMELOCK_SECONDS_def)

theorem recovery_reachable_inv_witness:
  "recovery_inv (recovery_run Debug sample_request
     [EvApprove ''0xG1'' 1100, EvApprove ''0xG1'' 1150, EvApprove ''0xG2'' 1200, EvFinalize 2000])
   \<and> recovery_frame (recovery_run Debug sample_request
     [EvApprove ''0xG1'' 1100, EvApprove ''0xG1'' 1150, EvApprove ''0xG2'' 1200, EvFinalize 2000])
     = recovery_frame sample_request"
  by (rule recovery_reachable_inv [OF sample_request_initiate])

text \<open>
  Terminal states. An executed or cancelled request is frozen: no sequence of
  calls changes it, and every call is refused with an invalid-transition error.
\<close>

theorem recovery_terminal_frozen:
  assumes "recovery_is_terminal (rr_status r)"
  shows "recovery_run b r evs = r
    \<and> (\<forall>g now. snd (recovery_approve b r g now)
         = Err (InvalidStateTransition (display_status (rr_status r)) ''approve''))
    \<and> snd (recovery_cancel r) = Err (InvalidStateTransition (display_status (rr_status r)) ''cancel'')
    \<and> (\<forall>now. snd (recovery_finalize r now)
         = Err (InvalidStateTransition (display_status (rr_status r)) ''finalize''))"
proof -
  note defs = recovery_is_terminal_def recovery_is_live_def guard_simps Let_def
    recovery_effective_status_def
  have "recovery_step b r ev = r" for ev using assms by (cases ev) (auto simp: defs)
  then have "recovery_run b r evs = r" by (induction evs) simp_all
  with assms show ?thesis by (auto simp: defs)
qed

theorem recovery_terminal_frozen_witness:
  "recovery_run Debug (sample_request\<lparr>rr_status := RecCancelled\<rparr>) [EvApprove ''0xG1'' 1, EvFinalize 9]
     = sample_request\<lparr>rr_status := RecCancelled\<rparr>"
  by (rule recovery_terminal_frozen [THEN conjunct1]) (simp add: recovery_is_terminal_def)

text \<open>
  The table of actions. Each operation succeeds exactly when the table \<open>allows\<close> it:
  \<open>cancel\<close> from the stored status, \<open>finalize\<close> from the effective status at the call's time, and
  \<open>approve\<close> from the stored status, for a guardian that has not approved yet.
\<close>

theorem recovery_ops_match_table:
  "is_ok (snd (recovery_cancel r)) = allows (rr_status r) Cancel
   \<and> is_ok (snd (recovery_finalize r now)) = allows (recovery_effective_status r now) Finalize
   \<and> is_ok (snd (recovery_approve Release r g now))
       = (allows (rr_status r) Approve \<and> \<not> has_approved r g)"
proof -
  have "has_approved r g \<longleftrightarrow> g \<in> set (rr_approvals r)"
    by (auto simp: has_approved_def list_ex_iff)
  then show ?thesis by (auto simp: guard_simps Let_def split: option.split)
qed

section \<open>Quorum and timelock of a finalization\<close>

text \<open>The approvals of a run whose deadline addition does not leave \<open>u64\<close>.\<close>

primrec event_fits :: "u64 \<Rightarrow> recovery_event \<Rightarrow> bool" where
  "event_fits lock (EvApprove g t) = (unat t + unat lock < 2 ^ 64)"
| "event_fits lock EvCancel = True"
| "event_fits lock (EvFinalize t) = True"


definition sample_run :: "recovery_event list" where
  "sample_run = [EvApprove ''0xG1'' 1100, EvApprove ''0xG1'' 1150, EvApprove ''0xG2'' 1200]"

lemma sample_run_finalize:
  "recovery_finalize (recovery_run Debug sample_request sample_run) 87600
     = (recovery_run Debug sample_request (sample_run @ [EvFinalize 87600]),
        Ok (Some ''0xOLD'', ''0xNEW''))"
  by (simp add: sample_run_def sample_request_def guard_simps recovery_effective_status_def
      Let_def add_u64_def)


section \<open>Refinement of the abstract machine\<close>

text \<open>
  The machine of the protocol document: collect guardians, wait for an unbounded time, end.
  It knows no words, no request fields and no lazily promoted status.
\<close>

datatype spec_recovery = Collecting "string set" | Timelocked nat | Recovered | Aborted

fun spec_step :: "nat \<Rightarrow> nat \<Rightarrow> spec_recovery \<Rightarrow> recovery_event \<Rightarrow> spec_recovery" where
  "spec_step q lock (Collecting G) (EvApprove g t) =
     (if g \<in> G then Collecting G
      else if q \<le> card (insert g G) then Timelocked (unat t + lock) else Collecting (insert g G))"
| "spec_step q lock (Collecting G) EvCancel = Aborted"
| "spec_step q lock (Timelocked d) EvCancel = Aborted"
| "spec_step q lock (Timelocked d) (EvFinalize t) = (if d \<le> unat t then Recovered else Timelocked d)"
| "spec_step q lock s ev = s"

definition recovery_abs :: "recovery_request \<Rightarrow> spec_recovery" where
  "recovery_abs r =
     (case rr_status r of
        RecPending \<Rightarrow> Collecting (set (rr_approvals r))
      | RecQuorumReached \<Rightarrow> Timelocked (unat (the (rr_execute_after r)))
      | RecExecuted \<Rightarrow> Recovered
      | _ \<Rightarrow> Aborted)"

definition recovery_armed :: "recovery_request \<Rightarrow> bool" where
  "recovery_armed r \<longleftrightarrow> (rr_status r = RecQuorumReached \<longrightarrow> rr_execute_after r \<noteq> None)"

lemma recovery_armed_step:
  "recovery_armed r \<Longrightarrow> event_fits (rr_timelock_snapshot_seconds r) ev \<Longrightarrow>
   recovery_armed (recovery_step b r ev)"
  by (cases ev) (auto simp: recovery_armed_def guard_simps Let_def add_u64_fits split: option.split)

lemma recovery_armed_run:
  "recovery_armed r \<Longrightarrow> list_all (event_fits (rr_timelock_snapshot_seconds r)) evs \<Longrightarrow>
   recovery_armed (recovery_run b r evs)"
proof (induction evs arbitrary: r)
  case Nil
  then show ?case by simp
next
  case (Cons ev evs)
  have "rr_timelock_snapshot_seconds (recovery_step b r ev) = rr_timelock_snapshot_seconds r"
    by (rule recovery_frame_fields) (rule recovery_frame_step)
  with Cons recovery_armed_step [of r ev b] show ?case by simp
qed

lemma recovery_abs_approve:
  assumes "recovery_inv r" and "unat now + unat (rr_timelock_snapshot_seconds r) < 2 ^ 64"
  shows "recovery_abs (fst (recovery_approve b r g now))
    = spec_step (unat (rr_quorum_snapshot r)) (unat (rr_timelock_snapshot_seconds r))
        (recovery_abs r) (EvApprove g now)"
proof (cases "rr_status r = RecPending")
  case True
  with assms(1) have "card (set (rr_approvals r)) = length (rr_approvals r)"
    by (auto simp: recovery_inv_def distinct_card)
  with True assms(2) show ?thesis
    by (auto simp: recovery_abs_def recovery_approve_def Let_def add_u64_fits unat_add_fits)
next
  case False
  with assms(1) show ?thesis
    by (auto simp: recovery_abs_def recovery_approve_def recovery_inv_def split: recovery_status.splits)
qed

lemma recovery_abs_step:
  assumes "recovery_inv r" and "recovery_armed r"
    and "event_fits (rr_timelock_snapshot_seconds r) ev"
  shows "recovery_abs (recovery_step b r ev)
    = spec_step (unat (rr_quorum_snapshot r)) (unat (rr_timelock_snapshot_seconds r)) (recovery_abs r) ev"
proof (cases ev)
  case (EvApprove g now)
  with recovery_abs_approve assms show ?thesis by simp
qed (use assms(1,2) in \<open>auto simp: recovery_abs_def recovery_inv_def recovery_armed_def guard_simps
  recovery_is_live_def recovery_effective_status_def Let_def word_le_nat_alt
  split: recovery_status.splits\<close>)

lemma recovery_abs_run:
  assumes "recovery_inv r" and "recovery_armed r"
    and "list_all (event_fits (rr_timelock_snapshot_seconds r)) evs"
  shows "recovery_abs (recovery_run b r evs)
    = foldl (spec_step (unat (rr_quorum_snapshot r)) (unat (rr_timelock_snapshot_seconds r)))
        (recovery_abs r) evs"
  using assms
proof (induction evs arbitrary: r)
  case Nil
  then show ?case by simp
next
  case (Cons ev evs)
  note f = recovery_frame_fields [OF recovery_frame_step [of b r ev]]
  from Cons have "recovery_inv (recovery_step b r ev)" "recovery_armed (recovery_step b r ev)"
    by (simp_all add: recovery_inv_step recovery_armed_step)
  with Cons f show ?case by (simp add: recovery_abs_step)
qed

text \<open>
  Claim C3. Refinement. As long as no deadline leaves \<open>u64\<close>, the implementation simulates the
  abstract recovery machine step by step, in both build modes, over every run of calls.
\<close>

theorem recovery_refines_spec:
  assumes "recovery_initiate i w ini rep nd n q lock now0 = Ok r0"
    and "list_all (event_fits lock) evs"
  shows "recovery_abs (recovery_run b r0 evs)
    = foldl (spec_step (unat q) (unat lock)) (Collecting {}) evs"
proof -
  have "recovery_armed r0" "recovery_abs r0 = Collecting {}" "rr_quorum_snapshot r0 = q"
      "rr_timelock_snapshot_seconds r0 = lock"
    using assms(1) by (auto simp: recovery_initiate_Ok recovery_armed_def recovery_abs_def)
  with recovery_abs_run [OF recovery_inv_initiate [OF assms(1)], of evs b] assms(2)
  show ?thesis by simp
qed

theorem recovery_refines_spec_witness:
  "recovery_abs (recovery_run Debug sample_request sample_run)
     = foldl (spec_step (unat (2 :: u32)) (unat (86400 :: u64))) (Collecting {}) sample_run"
  by (rule recovery_refines_spec [OF sample_request_initiate]) (simp add: sample_run_def)

section \<open>Progress\<close>

lemma approve_run_events:
  "approve_run (recovery_approve b) r calls
     = recovery_run b r (map (\<lambda>(g, t). EvApprove g t) calls)"
  by (induction calls arbitrary: r) auto

lemma approve_run_status:
  "rr_status r \<in> {RecPending, RecQuorumReached} \<Longrightarrow>
   rr_status (approve_run (recovery_approve b) r calls) \<in> {RecPending, RecQuorumReached}"
proof (induction calls arbitrary: r)
  case Nil
  then show ?case by simp
next
  case (Cons c calls)
  obtain g now where c: "c = (g, now)" by (cases c)
  have "rr_status (fst (recovery_approve b r g now)) \<in> {RecPending, RecQuorumReached}"
    using Cons.prems by (auto simp: recovery_approve_def Let_def split: res.split)
  from Cons.IH [OF this] c show ?case by simp
qed

text \<open>
  Progress. Once at least a quorum of distinct guardians have called \<open>approve\<close>,
  finalization succeeds at every time at which the timelock after each call has elapsed, and
  returns the replacement named at initiation.
\<close>

theorem recovery_can_complete:
  assumes init: "recovery_initiate i w ini rep nd n q lock now0 = Ok r0"
    and enough: "unat q \<le> card (fst ` set calls)"
    and elapsed: "list_all (\<lambda>(g, t). unat t + unat lock \<le> unat now) calls"
  shows "snd (recovery_finalize (approve_run (recovery_approve b) r0 calls) now) = Ok (rep, nd)"
proof -
  let ?evs = "map (\<lambda>(g, t). EvApprove g t) calls"
  let ?r = "approve_run (recovery_approve b) r0 calls"
  have r0: "rr_approvals r0 = []" "rr_execute_after r0 = None" "rr_quorum_snapshot r0 = q"
      "rr_timelock_snapshot_seconds r0 = lock" "rr_replaced_device r0 = rep" "rr_new_device r0 = nd"
      "rr_status r0 = RecPending"
    using init by (auto simp: recovery_initiate_Ok)
  note inv0 = recovery_inv_initiate [OF init]
  have "quorum_inv (rr_approvals r0) (unat (rr_quorum_snapshot r0)) (rr_status r0 = RecPending)
      (rr_execute_after r0)"
    using inv0 r0 by (auto simp: quorum_inv_def recovery_inv_def)
  with rec_quorum.run_closes [of r0 calls b] enough r0 have "rr_status ?r \<noteq> RecPending" by simp
  with approve_run_status [of r0 b calls] r0 have st: "rr_status ?r = RecQuorumReached" by auto
  have "unat t + unat lock < 2 ^ 64" if "(g, t) \<in> set calls" for g t
    using elapsed that unat_lt2p [of now] by (fastforce simp: list_all_iff)
  then have "list_all (event_fits lock) ?evs" by (auto simp: list_all_iff)
  then have "recovery_armed ?r"
    using recovery_armed_run [of r0 ?evs b] r0 by (simp add: approve_run_events recovery_armed_def)
  with st obtain dl where dl: "rr_execute_after ?r = Some dl" by (auto simp: recovery_armed_def)
  from recovery_history_run [OF inv0 r0(1,2), of b ?evs] dl
  obtain g t where "(g, t) \<in> set calls" "dl = t + lock"
    by (auto simp: recovery_history_def approve_run_events recovery_run_fields r0)
  with elapsed have "dl \<le> now"
    using \<open>\<And>t g. (g, t) \<in> set calls \<Longrightarrow> unat t + unat lock < 2 ^ 64\<close> [of g t]
    by (auto simp: list_all_iff word_le_nat_alt unat_add_fits)
  with st dl have "recovery_effective_status ?r now = RecExecutable"
    by (simp add: recovery_effective_executable)
  then show ?thesis
    by (simp add: recovery_finalize_def approve_run_events recovery_run_fields r0)
qed

theorem recovery_can_complete_witness:
  "snd (recovery_finalize (approve_run (recovery_approve Debug) sample_request
     [(''0xG1'', 1100), (''0xG2'', 1200)]) 90000) = Ok (Some ''0xOLD'', ''0xNEW'')"
  by (rule recovery_can_complete [OF sample_request_initiate]) simp_all

section \<open>The deadline addition\<close>

text \<open>
  Claim C34. The deadline addition is unchecked, and \<open>initiate\<close> bounds the timelock only from
  below. When the approval that reaches the quorum comes at a time whose sum with the timelock
  leaves \<open>u64\<close>, a release build wraps the deadline around and the request can be finalized at
  that very time; a debug build panics with the request already in \<open>QuorumReached\<close>, and every
  later finalization panics on the missing deadline.
\<close>

theorem recovery_deadline_overflow:
  assumes "rr_status r = RecPending" and "g \<notin> set (rr_approvals r)"
    and "unat (rr_quorum_snapshot r) \<le> Suc (length (rr_approvals r))"
    and "rr_execute_after r = None"
    and "2 ^ 64 \<le> unat now + unat (rr_timelock_snapshot_seconds r)"
  shows "snd (recovery_finalize (fst (recovery_approve Release r g now)) now)
        = Ok (rr_replaced_device r, rr_new_device r)
    \<and> snd (recovery_approve Debug r g now) = Panic
    \<and> (\<forall>later. snd (recovery_finalize (fst (recovery_approve Debug r g now)) later) = Panic)"
proof -
  let ?lock = "rr_timelock_snapshot_seconds r"
  have "unat (now + ?lock) = unat now + unat ?lock - 2 ^ 64"
    using assms(5) unat_lt2p [of now] unat_lt2p [of ?lock]
    by (simp add: unat_word_ariths mod_if)
  then have "now + ?lock \<le> now"
    using unat_lt2p [of ?lock] by (simp add: word_le_nat_alt)
  with assms show ?thesis
    by (auto simp: guard_simps recovery_effective_status_def Let_def add_u64_def)
qed

theorem recovery_deadline_overflow_witness:
  "recovery_initiate 1 ''0xW'' ''0xG'' None ''0xNEW'' 5 1 0xFFFFFFFFFFFFFFFF 0
     = Ok (sample_request\<lparr>rr_id := 1, rr_wallet := ''0xW'', rr_initiator := ''0xG'',
         rr_replaced_device := None, rr_initiated_at := 0, rr_quorum_snapshot := 1,
         rr_timelock_snapshot_seconds := 0xFFFFFFFFFFFFFFFF\<rparr>)
   \<and> snd (recovery_finalize (fst (recovery_approve Release
       (sample_request\<lparr>rr_id := 1, rr_wallet := ''0xW'', rr_initiator := ''0xG'',
         rr_replaced_device := None, rr_initiated_at := 0, rr_quorum_snapshot := 1,
         rr_timelock_snapshot_seconds := 0xFFFFFFFFFFFFFFFF\<rparr>) ''0xG1'' 1)) 1)
     = Ok (None, ''0xNEW'')"
  (is "?init \<and> ?fin")
proof
  show ?init by (simp add: recovery_initiate_def sample_request_def MIN_TIMELOCK_SECONDS_def)
  have "snd (recovery_finalize (fst (recovery_approve Release r g now)) now)
      = Ok (rr_replaced_device r, rr_new_device r)"
    if "rr_status r = RecPending" "g \<notin> set (rr_approvals r)"
      "unat (rr_quorum_snapshot r) \<le> Suc (length (rr_approvals r))"
      "rr_execute_after r = None" "2 ^ 64 \<le> unat now + unat (rr_timelock_snapshot_seconds r)"
    for r g now
    using recovery_deadline_overflow [OF that] by blast
  then show ?fin by (rule trans) (simp_all add: sample_request_def)
qed

end
