(* ===== verification/Recovery_Encoding.thy ===== *)
theory Recovery_Encoding
  imports Recovery_Safety
begin

text \<open>
  The canonical encoding of a recovery request: what it depends on, which requests share one,
  and when the function panics instead of returning it.
\<close>

text \<open>The fields a canonical encoding covers; a missing device and an empty one look the same.\<close>

definition recovery_identity ::
  "recovery_request \<Rightarrow> u64 \<times> string \<times> string \<times> string \<times> string \<times> u64 \<times> u32 \<times> u64" where
  "recovery_identity r =
     (rr_id r, rr_wallet r, rr_initiator r,
      (case rr_replaced_device r of None \<Rightarrow> '''' | Some d \<Rightarrow> d), rr_new_device r,
      rr_initiated_at r, rr_quorum_snapshot r, rr_timelock_snapshot_seconds r)"

definition recovery_fields :: "recovery_request \<Rightarrow> wire_value list" where
  "recovery_fields r =
     [VU8 CANONICAL_VERSION, VU64 (rr_id r), VBytes (str_bytes (rr_wallet r)),
      VBytes (str_bytes (rr_initiator r)),
      VBytes (str_bytes (case rr_replaced_device r of None \<Rightarrow> '''' | Some d \<Rightarrow> d)),
      VBytes (str_bytes (rr_new_device r)), VU64 (rr_initiated_at r),
      VU8 (ucast (rr_quorum_snapshot r)), VU64 (rr_timelock_snapshot_seconds r)]"

definition short_strings :: "recovery_request \<Rightarrow> bool" where
  "short_strings r \<longleftrightarrow> length (rr_wallet r) < 2 ^ 32 \<and> length (rr_initiator r) < 2 ^ 32 \<and>
     length (case rr_replaced_device r of None \<Rightarrow> '''' | Some d \<Rightarrow> d) < 2 ^ 32 \<and>
     length (rr_new_device r) < 2 ^ 32"

lemma recovery_canonical_eq:
  "recovery_canonical_bytes r =
     (if unat (rr_quorum_snapshot r) < 256
      then Ok (keccakless_domain_tag @ encode_message (recovery_fields r)) else Panic)"
  by (simp add: recovery_canonical_bytes_def recovery_fields_def bytes_enc_def)

lemma ucast_u8_inject:
  fixes x y :: u32
  assumes "unat x < 256" and "unat y < 256" and "(ucast x :: u8) = ucast y"
  shows "x = y"
proof -
  have "unat (ucast x :: u8) = unat x" "unat (ucast y :: u8) = unat y"
    using assms(1,2) by (simp_all add: unat_ucast_u8)
  with assms(3) show ?thesis by (simp add: word_unat_eq_iff)
qed

lemma recovery_fields_identity:
  assumes "unat (rr_quorum_snapshot r) < 256" and "unat (rr_quorum_snapshot s) < 256"
  shows "recovery_fields r = recovery_fields s \<longleftrightarrow> recovery_identity r = recovery_identity s"
proof -
  have "(ucast (rr_quorum_snapshot r) :: u8) = ucast (rr_quorum_snapshot s)
      \<longleftrightarrow> rr_quorum_snapshot r = rr_quorum_snapshot s"
    using ucast_u8_inject [OF assms] by auto
  then show ?thesis by (simp add: recovery_fields_def recovery_identity_def)
qed

text \<open>
  Lifecycle-free identity. Approvals, status and deadline never enter the canonical
  bytes: any run of calls leaves them as they were at initiation.
\<close>

theorem canonical_bytes_lifecycle_free:
  "recovery_canonical_bytes (recovery_run b r evs) = recovery_canonical_bytes r"
  by (simp add: recovery_canonical_bytes_def recovery_run_fields)

text \<open>
  Claim C19. Unambiguous encoding. Two requests (strings below \<open>2\<^sup>3\<^sup>2\<close> bytes) have the
  same canonical bytes exactly when all the fields of the recovery intent agree, where a
  replaced device of \<open>None\<close> and one of \<open>Some("")\<close> are not told apart.
\<close>

theorem canonical_bytes_injective:
  assumes "short_strings r" and "short_strings s" and "recovery_canonical_bytes r = Ok bs"
  shows "recovery_canonical_bytes s = Ok bs \<longleftrightarrow> recovery_identity r = recovery_identity s"
proof -
  let ?ks = "map kind_of_value (recovery_fields r)"
  have k: "map kind_of_value (recovery_fields s) = ?ks"
    by (simp add: recovery_fields_def)
  have ok: "list_all value_ok (recovery_fields r)" "list_all value_ok (recovery_fields s)"
    using assms(1,2) by (simp_all add: recovery_fields_def short_strings_def)
  have enc: "encode_message (recovery_fields s) = encode_message (recovery_fields r)
      \<longleftrightarrow> recovery_fields r = recovery_fields s"
    using message.enc_prefix_free [of "recovery_fields s" ?ks "recovery_fields r" "[]" "[]"] k ok
    by auto
  have r: "unat (rr_quorum_snapshot r) < 256"
      "bs = keccakless_domain_tag @ encode_message (recovery_fields r)"
    using assms(3) by (auto simp: recovery_canonical_eq split: if_splits)
  show ?thesis
  proof (cases "unat (rr_quorum_snapshot s) < 256")
    case True
    have "recovery_canonical_bytes s = Ok bs
        \<longleftrightarrow> encode_message (recovery_fields s) = encode_message (recovery_fields r)"
      by (simp add: recovery_canonical_eq True r(2))
    with enc recovery_fields_identity [OF r(1) True] show ?thesis by (simp only:)
  next
    case False
    with r(1) have "recovery_identity r \<noteq> recovery_identity s" by (auto simp: recovery_identity_def)
    with False show ?thesis by (simp add: recovery_canonical_eq)
  qed
qed

theorem canonical_bytes_injective_witness:
  "recovery_canonical_bytes (sample_request\<lparr>rr_replaced_device := Some ''''\<rparr>)
     = Ok (keccakless_domain_tag
         @ encode_message (recovery_fields (sample_request\<lparr>rr_replaced_device := None\<rparr>)))"
proof -
  let ?r = "sample_request\<lparr>rr_replaced_device := None\<rparr>"
    and ?s = "sample_request\<lparr>rr_replaced_device := Some ''''\<rparr>"
  have "short_strings ?r" "short_strings ?s" by (simp_all add: short_strings_def sample_request_def)
  moreover have "recovery_canonical_bytes ?r
      = Ok (keccakless_domain_tag @ encode_message (recovery_fields ?r))"
    by (simp add: recovery_canonical_eq sample_request_def)
  ultimately show ?thesis
    by (rule canonical_bytes_injective [THEN iffD2]) (simp add: recovery_identity_def sample_request_def)
qed

text \<open>
  Claim C35. A request that \<open>initiate\<close> accepts can have no canonical bytes: the quorum is a
  \<open>u32\<close> bounded only by the number of active guardians, but it is encoded as a \<open>u8\<close>, and
  \<open>canonical_bytes\<close> panics on exactly the quorums above 255.
\<close>

theorem canonical_bytes_panics:
  assumes "recovery_initiate i w ini rep nd n q lock now = Ok r"
  shows "recovery_canonical_bytes (recovery_run b r evs) = Panic \<longleftrightarrow> 255 < unat q"
proof -
  have "rr_quorum_snapshot r = q" using assms by (simp add: recovery_initiate_Ok)
  then show ?thesis by (auto simp: recovery_canonical_eq recovery_run_fields)
qed

theorem canonical_bytes_panics_witness:
  "recovery_canonical_bytes (recovery_run Debug (sample_request\<lparr>rr_quorum_snapshot := 256\<rparr>) []) = Panic"
proof -
  have "recovery_initiate 7 ''0xA11CE'' ''0xGUARD1'' (Some ''0xOLD'') ''0xNEW'' 300 256 86400 1000
      = Ok (sample_request\<lparr>rr_quorum_snapshot := 256\<rparr>)"
    by (simp add: recovery_initiate_def sample_request_def MIN_TIMELOCK_SECONDS_def)
  from canonical_bytes_panics [OF this, of Debug "[]"] show ?thesis by simp
qed

text \<open>The domain tag: 32 bytes, the hash in the first eight and zeros after it.\<close>

lemma length_keccakless_domain_tag: "length keccakless_domain_tag = 32"
  by (simp add: keccakless_domain_tag_def Let_def)

lemma recovery_canonical_length:
  "recovery_canonical_bytes r = Ok bs \<Longrightarrow>
   length bs = 32 + 1 + 8 + (4 + length (rr_wallet r)) + (4 + length (rr_initiator r))
     + (4 + length (case rr_replaced_device r of None \<Rightarrow> '''' | Some d \<Rightarrow> d))
     + (4 + length (rr_new_device r)) + 8 + 1 + 8"
  by (auto simp: recovery_canonical_eq recovery_fields_def bytes_enc_def
      length_keccakless_domain_tag split: if_splits)

end
