(* ===== verification/Policy.thy ===== *)
theory Policy
  imports Prelude
begin

text \<open>
  The transaction policy of \<open>crates/keymesh-core/src/policy/mod.rs\<close>: authorization modes, the
  configuration of a wallet and the classification of a transaction. Membership of the
  destination and of the selector in the wallet's restriction sets is resolved by the caller
  and comes in as booleans, as in the code.
\<close>

datatype authorization_mode = DeviceOnly | DevicePlusGuardians

primrec mode_discriminant :: "authorization_mode \<Rightarrow> u8" where
  "mode_discriminant DeviceOnly = 0"
| "mode_discriminant DevicePlusGuardians = 1"

definition mode_from_discriminant :: "u8 \<Rightarrow> authorization_mode option" where
  "mode_from_discriminant v =
     (if v = 0 then Some DeviceOnly else if v = 1 then Some DevicePlusGuardians else None)"

record policy_config =
  default_mode :: authorization_mode
  value_threshold_wei :: u128
  guardian_approvals_required :: u32
  version :: u64

definition unconfigured :: policy_config where
  "unconfigured = \<lparr>default_mode = DeviceOnly, value_threshold_wei = 0,
     guardian_approvals_required = 0, version = 0\<rparr>"

definition is_configured :: "policy_config \<Rightarrow> bool" where
  "is_configured c \<longleftrightarrow> version c \<noteq> 0"

definition effective_request_quorum :: "policy_config \<Rightarrow> u32" where
  "effective_request_quorum c =
     (if guardian_approvals_required c = 0 then 1 else guardian_approvals_required c)"

record transaction_view =
  tv_to :: bytes
  tv_value_wei :: u128
  tv_data :: bytes

definition classify ::
  "policy_config \<Rightarrow> bool \<Rightarrow> bool \<Rightarrow> bool \<Rightarrow> transaction_view \<Rightarrow> authorization_mode" where
  "classify config to_is_policy_manager selector_restricted destination_restricted tx =
     (let has_selector = 4 \<le> length (tv_data tx)
      in if to_is_policy_manager \<and> has_selector \<and> selector_restricted then DevicePlusGuardians
         else if \<not> is_configured config then DeviceOnly
         else if has_selector \<and> selector_restricted then DevicePlusGuardians
         else if destination_restricted then DevicePlusGuardians
         else if value_threshold_wei config < tv_value_wei tx then DevicePlusGuardians
         else default_mode config)"

definition is_authorization_version_valid :: "u64 \<Rightarrow> u64 \<Rightarrow> bool" where
  "is_authorization_version_valid request_version current_version
     \<longleftrightarrow> request_version = current_version"

section \<open>Modes as an ordered type\<close>

text \<open>\<open>DevicePlusGuardians\<close> is the stronger mode; the order is the one of the discriminants.\<close>

instantiation authorization_mode :: linorder
begin

definition less_eq_authorization_mode :: "authorization_mode \<Rightarrow> authorization_mode \<Rightarrow> bool" where
  "less_eq_authorization_mode a b \<longleftrightarrow> a = DeviceOnly \<or> b = DevicePlusGuardians"

definition less_authorization_mode :: "authorization_mode \<Rightarrow> authorization_mode \<Rightarrow> bool" where
  "less_authorization_mode a b \<longleftrightarrow> a = DeviceOnly \<and> b = DevicePlusGuardians"

instance
  by standard (auto simp: less_eq_authorization_mode_def less_authorization_mode_def
    intro: authorization_mode.exhaust)

end

lemma mode_from_discriminant_iff: "mode_from_discriminant v = Some m \<longleftrightarrow> v = mode_discriminant m"
  by (cases m) (auto simp: mode_from_discriminant_def)

lemma mode_discriminant_mono: "a \<le> b \<longleftrightarrow> mode_discriminant a \<le> mode_discriminant b"
  by (cases a; cases b) (auto simp: less_eq_authorization_mode_def)

section \<open>Properties\<close>

text \<open>
  Claim C18. Classification. Guardians are required exactly when one of the rules fires: an
  administration selector on the policy manager (for unconfigured wallets too), or, for a
  configured wallet, a restricted selector in calldata of at least four bytes, a restricted
  destination, a value strictly above the threshold, or a default mode that says so.
\<close>

theorem classify_guardians_iff:
  "classify c pm sel dest tx = DevicePlusGuardians \<longleftrightarrow>
     pm \<and> sel \<and> 4 \<le> length (tv_data tx) \<or>
     version c \<noteq> 0 \<and> (sel \<and> 4 \<le> length (tv_data tx) \<or> dest \<or>
       unat (value_threshold_wei c) < unat (tv_value_wei tx) \<or> default_mode c = DevicePlusGuardians)"
  by (cases "default_mode c") (auto simp: classify_def is_configured_def Let_def word_less_nat_alt)

text \<open>
  No downgrade by a more restrictive input. Adding a restriction, sending more
  value, using more calldata or configuring a stricter default or a lower threshold never
  lowers the required mode.
\<close>

theorem classify_mono:
  assumes "pm \<le> pm'" and "sel \<le> sel'" and "dest \<le> dest'"
    and "length (tv_data tx) \<le> length (tv_data tx')" and "tv_value_wei tx \<le> tv_value_wei tx'"
    and "default_mode c \<le> default_mode c'" and "value_threshold_wei c' \<le> value_threshold_wei c"
    and "is_configured c \<le> is_configured c'"
  shows "classify c pm sel dest tx \<le> classify c' pm' sel' dest' tx'"
proof -
  have v: "value_threshold_wei c' < tv_value_wei tx'" if "value_threshold_wei c < tv_value_wei tx"
    using assms(5,7) that by (meson le_less_trans less_le_trans)
  have d: "default_mode c' = DevicePlusGuardians" if "default_mode c = DevicePlusGuardians"
    using assms(6) that by (simp add: less_eq_authorization_mode_def)
  have "classify c' pm' sel' dest' tx' = DevicePlusGuardians"
    if "classify c pm sel dest tx = DevicePlusGuardians"
    using that assms(1-4,8) v d by (auto simp: classify_def Let_def split: if_splits)
  then show ?thesis
    by (cases "classify c pm sel dest tx") (auto simp: less_eq_authorization_mode_def)
qed

theorem classify_mono_witness:
  "classify (unconfigured\<lparr>version := 1, value_threshold_wei := 10\<rparr>) False False False
      \<lparr>tv_to = [], tv_value_wei = 5, tv_data = []\<rparr>
    \<le> classify (unconfigured\<lparr>version := 4, value_threshold_wei := 7\<rparr>) False True True
      \<lparr>tv_to = [1], tv_value_wei = 8, tv_data = [1, 2]\<rparr>"
  by (rule classify_mono) (simp_all add: unconfigured_def is_configured_def)

text \<open>
  Request quorum. The quorum used for a new authorization request is never zero,
  and it is the configured one whenever that is not zero.
\<close>

theorem effective_request_quorum_spec:
  "unat (effective_request_quorum c) = max 1 (unat (guardian_approvals_required c))"
proof -
  have "1 \<le> unat (guardian_approvals_required c)" if "guardian_approvals_required c \<noteq> 0"
    using that by (simp add: unat_gt_0 Suc_le_eq)
  then show ?thesis by (auto simp: effective_request_quorum_def max_def)
qed

end
