(* ===== verification/Transaction.thy ===== *)
theory Transaction
  imports Wire
begin

text \<open>
  The canonical signed transaction \<open>KEYMESH_TX_V1\<close> of
  \<open>crates/keymesh-core/src/transaction/mod.rs\<close>: validation, expiry, the canonical encoding and
  the digest. Keccak-256 comes from the \<open>tiny_keccak\<close> crate; it is the parameter \<open>keccak\<close> of the
  definitions that hash.
\<close>

definition TX_DOMAIN :: string where
  "TX_DOMAIN = ''KEYMESH_TX_V1''"

definition MAX_DATA_BYTES :: nat where
  "MAX_DATA_BYTES = 128 * 1024"

definition domain_tag :: "(bytes \<Rightarrow> bytes) \<Rightarrow> bytes" where
  "domain_tag keccak = keccak (str_bytes TX_DOMAIN)"

record keymesh_transaction =
  tx_wallet :: bytes
  tx_chain_id :: u64
  tx_nonce :: u64
  tx_to :: bytes
  tx_value :: u128
  tx_data :: bytes
  tx_expiry :: u64

text \<open>\<open>wallet\<close> and \<open>to\<close> are arrays \<open>[u8; 20]\<close>.\<close>

definition tx_wf :: "keymesh_transaction \<Rightarrow> bool" where
  "tx_wf t \<longleftrightarrow> length (tx_wallet t) = 20 \<and> length (tx_to t) = 20"

definition tx_validate :: "keymesh_transaction \<Rightarrow> (keymesh_error, unit) res" where
  "tx_validate t =
     (if tx_chain_id t = 0 then Err (InvalidInput ''chain_id must be positive'')
      else if MAX_DATA_BYTES < length (tx_data t)
      then Err (InvalidInput (''data exceeds '' @ show_nat MAX_DATA_BYTES @ '' bytes''))
      else Ok ())"

definition is_valid_at :: "keymesh_transaction \<Rightarrow> u64 \<Rightarrow> bool" where
  "is_valid_at t now_seconds \<longleftrightarrow> now_seconds \<le> tx_expiry t"

definition validate_at :: "keymesh_transaction \<Rightarrow> u64 \<Rightarrow> (keymesh_error, unit) res" where
  "validate_at t now_seconds =
     res_bind (tx_validate t) (\<lambda>_.
       if \<not> is_valid_at t now_seconds then Err (Expired (tx_expiry t) now_seconds) else Ok ())"

definition be256_u128 :: "u128 \<Rightarrow> bytes" where
  "be256_u128 v = replicate 16 0 @ u128_be v"

definition be256_u64 :: "u64 \<Rightarrow> bytes" where
  "be256_u64 v = replicate 24 0 @ u64_be v"

definition encode_canonical ::
  "(bytes \<Rightarrow> bytes) \<Rightarrow> keymesh_transaction \<Rightarrow> (keymesh_error, bytes) res" where
  "encode_canonical keccak tx =
     res_bind (tx_validate tx) (\<lambda>_.
       Ok (into_bytes
         (write_raw (be256_u64 (tx_expiry tx))
         (write_bytes (tx_data tx)
         (write_raw (be256_u128 (tx_value tx))
         (write_raw (tx_to tx)
         (write_raw (be256_u64 (tx_nonce tx))
         (write_raw (be256_u64 (tx_chain_id tx))
         (write_raw (tx_wallet tx)
         (write_raw (domain_tag keccak) encoder_new))))))))))"

definition tx_digest ::
  "(bytes \<Rightarrow> bytes) \<Rightarrow> keymesh_transaction \<Rightarrow> (keymesh_error, bytes) res" where
  "tx_digest keccak tx = res_bind (encode_canonical keccak tx) (\<lambda>bs. Ok (keccak bs))"

section \<open>Encoding\<close>

lemma length_be256 [simp]: "length (be256_u128 v) = 32" "length (be256_u64 w) = 32"
  by (simp_all add: be256_u128_def be256_u64_def)

lemma be256_inject [simp]:
  "be256_u128 v = be256_u128 v' \<longleftrightarrow> v = v'" "be256_u64 w = be256_u64 w' \<longleftrightarrow> w = w'"
  by (simp_all add: be256_u128_def be256_u64_def)

definition tx_payload :: "keymesh_transaction \<Rightarrow> bytes" where
  "tx_payload t = tx_wallet t @ be256_u64 (tx_chain_id t) @ be256_u64 (tx_nonce t) @ tx_to t
     @ be256_u128 (tx_value t) @ bytes_enc (tx_data t) @ be256_u64 (tx_expiry t)"

lemma encode_canonical_eq:
  "encode_canonical keccak t = res_bind (tx_validate t) (\<lambda>_. Ok (domain_tag keccak @ tx_payload t))"
  by (simp add: encode_canonical_def tx_payload_def bytes_enc_def)

lemma tx_validate_Ok: "tx_validate t = Ok () \<longleftrightarrow> tx_chain_id t \<noteq> 0 \<and> length (tx_data t) \<le> 131072"
  by (auto simp: tx_validate_def MAX_DATA_BYTES_def)

lemma tx_payload_inject:
  assumes "tx_wf t" and "tx_wf u" and "tx_validate t = Ok ()" and "tx_validate u = Ok ()"
    and "tx_payload t = tx_payload u"
  shows "t = u"
proof -
  from assms(1,2,5) have "tx_wallet t = tx_wallet u" "tx_chain_id t = tx_chain_id u"
      "tx_nonce t = tx_nonce u" "tx_to t = tx_to u" "tx_value t = tx_value u"
      and tail: "bytes_enc (tx_data t) @ be256_u64 (tx_expiry t)
        = bytes_enc (tx_data u) @ be256_u64 (tx_expiry u)"
    by (auto simp: tx_payload_def tx_wf_def)
  moreover have "length (tx_data t) < 2 ^ 32" "length (tx_data u) < 2 ^ 32"
    using assms(3,4) by (simp_all add: tx_validate_Ok)
  from bytes_field.enc_prefix_free [OF this tail]
  have "tx_data t = tx_data u" "tx_expiry t = tx_expiry u" by auto
  ultimately show ?thesis by (cases t; cases u) simp
qed

lemma encode_canonical_inj:
  assumes "tx_wf t" and "tx_wf u" and "encode_canonical keccak t = Ok bs"
    and "encode_canonical keccak u = Ok bs"
  shows "t = u"
proof -
  from assms(3,4) have v: "tx_validate t = Ok ()" "tx_validate u = Ok ()"
      and "domain_tag keccak @ tx_payload t = domain_tag keccak @ tx_payload u"
    by (auto simp: encode_canonical_eq)
  then have "tx_payload t = tx_payload u" by simp
  with tx_payload_inject [OF assms(1,2) v] show "t = u" by simp
qed

text \<open>
  Claim C9. Unambiguous transaction encoding. A valid transaction encodes, and the encoding
  is its own: another transaction has the same canonical bytes only if it is the same in every
  field, the calldata and its length included.
\<close>

theorem encode_canonical_injective:
  assumes "tx_wf t" and "tx_wf u" and "encode_canonical keccak t = Ok bs"
  shows "encode_canonical keccak u = Ok bs \<longleftrightarrow> t = u"
  using encode_canonical_inj [OF assms] assms(3) by blast

definition sample_tx :: keymesh_transaction where
  "sample_tx = \<lparr>tx_wallet = replicate 20 0x11, tx_chain_id = 31337, tx_nonce = 0,
     tx_to = replicate 20 0x22, tx_value = 1000000000000000000, tx_data = [],
     tx_expiry = 2000000000\<rparr>"

lemma sample_tx_ok: "tx_wf sample_tx" "tx_validate sample_tx = Ok ()"
  by (simp_all add: sample_tx_def tx_wf_def tx_validate_Ok)

theorem encode_canonical_injective_witness:
  "encode_canonical (\<lambda>_. replicate 32 0) (sample_tx\<lparr>tx_nonce := 1\<rparr>)
     \<noteq> Ok (replicate 32 0 @ tx_payload sample_tx)"
proof -
  let ?u = "sample_tx\<lparr>tx_nonce := 1\<rparr>" and ?k = "\<lambda>_ :: bytes. replicate 32 0 :: bytes"
  have "tx_wf ?u" using sample_tx_ok by (simp add: tx_wf_def)
  moreover have "encode_canonical ?k sample_tx = Ok (replicate 32 0 @ tx_payload sample_tx)"
    by (simp add: encode_canonical_eq sample_tx_ok domain_tag_def)
  ultimately have "encode_canonical ?k ?u = Ok (replicate 32 0 @ tx_payload sample_tx)
      \<longleftrightarrow> sample_tx = ?u"
    using encode_canonical_injective [OF sample_tx_ok(1)] by blast
  moreover have "tx_nonce sample_tx \<noteq> tx_nonce ?u" by (simp add: sample_tx_def)
  then have "sample_tx \<noteq> ?u" by metis
  ultimately show ?thesis by blast
qed

text \<open>
  The digest binds every field. Two well-formed transactions with the same digest
  are equal, or their canonical encodings are two different inputs on which the hash collides.
\<close>

theorem digest_binds_fields:
  assumes "tx_wf t" and "tx_wf u" and "tx_digest keccak t = Ok h" and "tx_digest keccak u = Ok h"
  shows "t = u \<or> (\<exists>x y. encode_canonical keccak t = Ok x \<and> encode_canonical keccak u = Ok y
    \<and> x \<noteq> y \<and> keccak x = keccak y)"
proof -
  from assms(3,4) obtain x y where xy: "encode_canonical keccak t = Ok x"
      "encode_canonical keccak u = Ok y" "keccak x = h" "keccak y = h"
    by (auto simp: tx_digest_def)
  have "x = y \<longrightarrow> t = u"
    using encode_canonical_inj [OF assms(1,2)] xy by blast
  with xy(3,4) have "t = u \<or> (x \<noteq> y \<and> keccak x = keccak y)" by auto
  with xy(1,2) show ?thesis by (auto intro: exI [of _ x])
qed

theorem digest_binds_fields_witness:
  "sample_tx = sample_tx\<lparr>tx_nonce := 5\<rparr> \<or>
   (\<exists>x y. encode_canonical (\<lambda>_. replicate 32 7) sample_tx = Ok x
     \<and> encode_canonical (\<lambda>_. replicate 32 7) (sample_tx\<lparr>tx_nonce := 5\<rparr>) = Ok y
     \<and> x \<noteq> y \<and> (\<lambda>_. replicate 32 7) x = (\<lambda>_. replicate 32 (7 :: u8)) y)"
  by (rule digest_binds_fields [where h = "replicate 32 7"])
    (simp_all add: sample_tx_def tx_wf_def tx_digest_def encode_canonical_eq tx_validate_Ok)

text \<open>
  Validity at a time. \<open>validate_at\<close> accepts exactly the transactions with a positive
  chain id, at most 128 KiB of calldata and an expiry not before the time given (inclusive), and
  the structural errors come before the expiry.
\<close>

theorem validate_at_spec:
  "(validate_at t now = Ok () \<longleftrightarrow>
      0 < unat (tx_chain_id t) \<and> length (tx_data t) \<le> 131072 \<and> unat now \<le> unat (tx_expiry t))
   \<and> (validate_at t now = Err (Expired e n) \<longleftrightarrow>
      0 < unat (tx_chain_id t) \<and> length (tx_data t) \<le> 131072 \<and> unat (tx_expiry t) < unat now
      \<and> e = tx_expiry t \<and> n = now)
   \<and> validate_at t now \<noteq> Panic"
  by (auto simp: validate_at_def tx_validate_def MAX_DATA_BYTES_def is_valid_at_def
      word_le_nat_alt unat_gt_0)

text \<open>
  Size and shape. With a 32-byte hash, the canonical bytes of a well-formed valid
  transaction are 204 bytes plus the calldata, so at most 131276 bytes.
\<close>

theorem encode_canonical_length:
  assumes "\<And>x. length (keccak x) = 32" and "tx_wf t" and "encode_canonical keccak t = Ok bs"
  shows "length bs = 204 + length (tx_data t) \<and> length bs \<le> 131276"
  using assms by (auto simp: encode_canonical_eq tx_payload_def bytes_enc_def domain_tag_def
      tx_wf_def tx_validate_Ok)

theorem encode_canonical_length_witness:
  "length (replicate 32 0 @ tx_payload sample_tx) = 204 + length (tx_data sample_tx)
   \<and> length (replicate 32 0 @ tx_payload sample_tx) \<le> 131276"
  by (rule encode_canonical_length [of "\<lambda>_. replicate 32 0"])
    (simp_all add: encode_canonical_eq sample_tx_ok domain_tag_def)

end
