(* ===== verification/Crypto.thy ===== *)
theory Crypto
  imports Wire
begin

text \<open>
  The crypto provider boundary of \<open>crates/keymesh-core/src/crypto/mod.rs\<close> and the signing
  service over it (\<open>signing/mod.rs\<close>): the trait \<open>CryptoProvider\<close> as a locale with the laws its
  clients rely on, the insecure mock provider as the interpretation the code ships, and the
  domain-separated messages of the service. The newtypes \<open>PrivateKeyBytes\<close>, \<open>PublicKeyBytes\<close>
  and \<open>SignatureBytes\<close> keep their constructors, so a key is never used as a signature.
\<close>

datatype curve = Secp256k1 | Ed25519

datatype signature_bytes = SignatureBytes bytes
datatype public_key_bytes = PublicKeyBytes bytes
datatype private_key_bytes = PrivateKeyBytes bytes

primrec sig_bytes :: "signature_bytes \<Rightarrow> bytes" where "sig_bytes (SignatureBytes b) = b"
primrec pk_bytes :: "public_key_bytes \<Rightarrow> bytes" where "pk_bytes (PublicKeyBytes b) = b"
primrec sk_bytes :: "private_key_bytes \<Rightarrow> bytes" where "sk_bytes (PrivateKeyBytes b) = b"

definition MOCK_TAG :: bytes where
  "MOCK_TAG = str_bytes ''KEYMESH-MOCK-NOT-A-SIGNATURE''"

definition mock_generate_keypair ::
  "curve \<Rightarrow> (keymesh_error, private_key_bytes \<times> public_key_bytes) res" where
  "mock_generate_keypair c =
     Ok (PrivateKeyBytes (replicate 32 0x11), PublicKeyBytes (replicate 33 0x22))"

definition mock_public_key :: "private_key_bytes \<Rightarrow> (keymesh_error, public_key_bytes) res" where
  "mock_public_key sk =
     (if sk_bytes sk = [] then Err (CryptoOperationFailed ''empty private key'')
      else Ok (PublicKeyBytes (replicate 33 0x22)))"

definition mock_sign ::
  "private_key_bytes \<Rightarrow> bytes \<Rightarrow> (keymesh_error, signature_bytes) res" where
  "mock_sign sk message =
     (if sk_bytes sk = [] then Err (CryptoOperationFailed ''empty private key'')
      else Ok (SignatureBytes (MOCK_TAG @ u64_be (word_of_nat (length message)) @ message)))"

definition mock_verify ::
  "public_key_bytes \<Rightarrow> bytes \<Rightarrow> signature_bytes \<Rightarrow> (keymesh_error, bool) res" where
  "mock_verify pk message signature =
     (if pk_bytes pk = [] then Err (CryptoOperationFailed ''empty public key'')
      else res_bind (mock_sign (PrivateKeyBytes (replicate 32 0x11)) message)
        (\<lambda>expected. Ok (sig_bytes expected = sig_bytes signature)))"

datatype signing_domain = TransactionAuthorization | RecoveryApproval | DeviceRegistration

primrec domain_bytes :: "signing_domain \<Rightarrow> bytes" where
  "domain_bytes TransactionAuthorization = str_bytes ''KEYMESH/tx-auth/v1''"
| "domain_bytes RecoveryApproval = str_bytes ''KEYMESH/recovery/v1''"
| "domain_bytes DeviceRegistration = str_bytes ''KEYMESH/device-reg/v1''"

definition composite :: "signing_domain \<Rightarrow> bytes \<Rightarrow> bytes" where
  "composite dm payload = domain_bytes dm @ [0x00] @ payload"

definition sign_message ::
  "private_key_bytes \<Rightarrow> signing_domain \<Rightarrow> bytes \<Rightarrow> (keymesh_error, signature_bytes) res" where
  "sign_message key dm payload = mock_sign key (composite dm payload)"

section \<open>Domain separation\<close>

lemma domain_bytes_no_nul: "0 \<notin> set (domain_bytes dm)"
  by (cases dm) (simp_all add: str_bytes_def)

lemma domain_bytes_inject: "domain_bytes a = domain_bytes b \<longleftrightarrow> a = b"
  by (cases a; cases b) simp_all

lemma composite_inject: "composite a p = composite b q \<longleftrightarrow> a = b \<and> p = q"
proof
  assume "composite a p = composite b q"
  then have "domain_bytes a @ 0 # p = domain_bytes b @ 0 # q" by (simp add: composite_def)
  from nul_terminated_inject [OF domain_bytes_no_nul domain_bytes_no_nul this]
  show "a = b \<and> p = q" by (simp add: domain_bytes_inject)
qed simp

section \<open>The provider interface\<close>

locale crypto_provider =
  fixes gen :: "curve \<Rightarrow> (keymesh_error, private_key_bytes \<times> public_key_bytes) res"
    and pubkey :: "private_key_bytes \<Rightarrow> (keymesh_error, public_key_bytes) res"
    and sgn :: "private_key_bytes \<Rightarrow> bytes \<Rightarrow> (keymesh_error, signature_bytes) res"
    and vfy :: "public_key_bytes \<Rightarrow> bytes \<Rightarrow> signature_bytes \<Rightarrow> (keymesh_error, bool) res"
  assumes gen_pubkey: "gen c = Ok (sk, pk) \<Longrightarrow> pubkey sk = Ok pk"
    and gen_signs: "gen c = Ok (sk, pk) \<Longrightarrow> \<exists>s. sgn sk m = Ok s \<and> vfy pk m s = Ok True"
    and sign_verifies: "pubkey sk = Ok pk \<Longrightarrow> sgn sk m = Ok s \<Longrightarrow> vfy pk m s = Ok True"
    and binds_message: "sgn sk m = Ok s \<Longrightarrow> vfy pk m' s = Ok True \<Longrightarrow> m' = m"
    and total: "pubkey sk \<noteq> Panic \<and> sgn sk m \<noteq> Panic \<and> vfy pk m s \<noteq> Panic"
    and empty_private: "sk_bytes sk = [] \<Longrightarrow>
      pubkey sk = Err (CryptoOperationFailed ''empty private key'') \<and>
      sgn sk m = Err (CryptoOperationFailed ''empty private key'')"
    and empty_public: "pk_bytes pk = [] \<Longrightarrow>
      vfy pk m s = Err (CryptoOperationFailed ''empty public key'')"
begin

text \<open>A signature made for one domain and payload is valid for no other.\<close>

lemma no_cross_domain:
  assumes "sgn sk (composite a p) = Ok s" and "vfy pk (composite b q) s = Ok True"
  shows "a = b \<and> p = q"
  using binds_message [OF assms] by (simp add: composite_inject)

lemma service_roundtrip:
  "gen c = Ok (sk, pk) \<Longrightarrow> sgn sk (composite a p) = Ok s \<Longrightarrow>
   vfy pk (composite b q) s = Ok True \<longleftrightarrow> a = b \<and> p = q"
  using no_cross_domain sign_verifies gen_pubkey by blast

lemma same_signature_same_message:
  "pubkey sk = Ok pk \<Longrightarrow> sgn sk m = Ok s \<Longrightarrow> sgn sk' m' = Ok s \<Longrightarrow> m = m'"
  using binds_message sign_verifies by blast

end

interpretation mock: crypto_provider mock_generate_keypair mock_public_key mock_sign mock_verify
  by unfold_locales
    (auto simp: mock_generate_keypair_def mock_public_key_def mock_sign_def mock_verify_def
      split: if_splits)

text \<open>
  Domain separation of the signing service. Signing succeeds exactly for non-empty keys,
  and a signature made for one domain and payload verifies (under any non-empty public key) for
  exactly that domain and payload.
\<close>

theorem sign_message_domains_separated:
  assumes "sk_bytes sk \<noteq> []" and "pk_bytes pk \<noteq> []"
  shows "\<exists>s. sign_message sk dm payload = Ok s
    \<and> (\<forall>dm' payload'. mock_verify pk (composite dm' payload') s
        = Ok (dm' = dm \<and> payload' = payload))"
proof -
  obtain s where s: "mock_sign sk (composite dm payload) = Ok s"
    using assms(1) by (simp add: mock_sign_def)
  have "mock_verify pk (composite dm' payload') s = Ok (dm' = dm \<and> payload' = payload)"
    for dm' payload'
  proof (cases "mock_verify pk (composite dm' payload') s = Ok True")
    case True
    with mock.no_cross_domain [OF s] show ?thesis by auto
  next
    case False
    then have "mock_verify pk (composite dm' payload') s = Ok False"
      using assms(2) by (auto simp: mock_verify_def mock_sign_def)
    moreover have "\<not> (dm' = dm \<and> payload' = payload)"
      using False s assms by (auto simp: mock_verify_def mock_sign_def)
    ultimately show ?thesis by simp
  qed
  with s show ?thesis by (auto simp: sign_message_def)
qed

theorem sign_message_domains_separated_witness:
  "\<exists>s. sign_message (PrivateKeyBytes [0x11]) RecoveryApproval [1, 2] = Ok s
    \<and> (\<forall>dm' payload'. mock_verify (PublicKeyBytes [0x22]) (composite dm' payload') s
        = Ok (dm' = RecoveryApproval \<and> payload' = [1, 2]))"
  by (rule sign_message_domains_separated) simp_all

text \<open>The mock is not a signature scheme: every non-empty key signs for every public key.\<close>

lemma mock_forgery:
  "sk_bytes sk \<noteq> [] \<Longrightarrow> pk_bytes pk \<noteq> [] \<Longrightarrow>
   \<exists>s. mock_sign sk m = Ok s \<and> mock_verify pk m s = Ok True"
  by (simp add: mock_sign_def mock_verify_def)

end
