(* ===== verification/Core_Tss.thy ===== *)
theory Core_Tss
  imports Contracts Km_Errors
begin

text \<open>
  The type-only TSS abstraction of \<open>crates/keymesh-core/src/signing/tss.rs\<close>: participant ids and
  their normalisation, the syntax of protocol versions and session ids, and the session with its
  terminal states.
\<close>

datatype participant_id = ParticipantId string
datatype signing_protocol_version = SigningProtocolVersion string
datatype session_id = SessionId string

definition SIGNING_PROTOCOL_V1 :: string where
  "SIGNING_PROTOCOL_V1 = ''cggmp21/v1''"

datatype core_session_status = CoreStarted | CoreAborted | CoreFailed | CoreCompleted

definition is_valid_participant_id :: "string \<Rightarrow> bool" where
  "is_valid_participant_id v =
     (if take 2 v \<noteq> ''0x'' then False
      else let hex = drop 2 v in
        if length hex < 40 \<or> 64 < length hex \<or> length hex mod 2 \<noteq> 0 then False
        else list_all is_ascii_hexdigit hex)"

definition participant_id_new :: "string \<Rightarrow> (keymesh_error, participant_id) res" where
  "participant_id_new fingerprint =
     (if \<not> is_valid_participant_id fingerprint
      then Err (InvalidInput ''ParticipantId must be 0x hex 20-32 bytes'')
      else Ok (ParticipantId (map ascii_lower fingerprint)))"

text \<open>\<open>value.split('/').collect()\<close>: there is always at least one part.\<close>

fun split_on :: "char \<Rightarrow> string \<Rightarrow> string list" where
  "split_on sep [] = [[]]"
| "split_on sep (c # cs) =
     (if c = sep then [] # split_on sep cs
      else case split_on sep cs of [] \<Rightarrow> [[c]] | w # ws \<Rightarrow> (c # w) # ws)"

definition is_valid_signing_protocol_version :: "string \<Rightarrow> bool" where
  "is_valid_signing_protocol_version v =
     (if v = [] \<or> 64 < length v then False
      else let parts = split_on CHR ''/'' v in
        if length parts \<noteq> 2 \<or> parts ! 0 = [] \<or> parts ! 1 = [] then False
        else list_all (\<lambda>c. is_ascii_alphanumeric c \<or> c \<in> {CHR ''.'', CHR ''_'', CHR ''-'', CHR ''/''}) v)"

definition is_valid_session_id :: "string \<Rightarrow> bool" where
  "is_valid_session_id v =
     (if take 2 v \<noteq> ''0x'' \<or> length v \<noteq> 66 then False
      else list_all is_ascii_hexdigit (drop 2 v))"

record core_signing_session =
  cs_session_id :: session_id
  cs_wallet :: string
  cs_digest :: string
  cs_nonce :: u64
  cs_policy_version :: u64
  cs_protocol_version :: signing_protocol_version
  cs_participants :: "participant_id list"
  cs_threshold :: nat
  cs_status :: core_session_status

primrec debug_core_status :: "core_session_status \<Rightarrow> string" where
  "debug_core_status CoreStarted = ''Started''"
| "debug_core_status CoreAborted = ''Aborted''"
| "debug_core_status CoreFailed = ''Failed''"
| "debug_core_status CoreCompleted = ''Completed''"

definition core_transition ::
  "core_signing_session \<Rightarrow> core_session_status \<Rightarrow> (keymesh_error, core_signing_session) res" where
  "core_transition s target =
     (if cs_status s \<noteq> CoreStarted
      then Err (InvalidStateTransition (debug_core_status (cs_status s)) (debug_core_status target))
      else if target = CoreStarted then Err (InvalidInput ''cannot transition back to Started'')
      else Ok (s\<lparr>cs_status := target\<rparr>))"

interpretation core_session: one_shot "\<lambda>s t. ok_of (core_transition s t)" cs_status CoreStarted
    "\<lambda>s. s\<lparr>cs_status := CoreStarted\<rparr>"
  by unfold_locales (auto simp: core_transition_def)

section \<open>Participant ids\<close>

lemma ascii_lower_hex_prefix: "take 2 v = ''0x'' \<Longrightarrow> take 2 (map ascii_lower v) = ''0x''"
  by (simp add: take_map ascii_lower_def is_ascii_upper_def)

lemma is_valid_participant_id_iff:
  "is_valid_participant_id v \<longleftrightarrow>
     take 2 v = ''0x'' \<and> 42 \<le> length v \<and> length v \<le> 66 \<and> even (length v)
       \<and> list_all is_ascii_hexdigit (drop 2 v)"
proof (cases "take 2 v = ''0x''")
  case True
  then obtain w where v: "v = ''0x'' @ w" by (metis append_take_drop_id)
  have "length w mod 2 \<noteq> 0 \<longleftrightarrow> odd (length w)" by (simp add: odd_iff_mod_2_eq_one)
  then show ?thesis unfolding v is_valid_participant_id_def by (auto simp: Let_def)
qed (simp add: is_valid_participant_id_def)

text \<open>
  Participant ids are canonical. From a valid fingerprint \<open>a\<close>, another string gives the
  same id exactly when it starts with \<open>0x\<close> and equals \<open>a\<close> up to ASCII case, and the id is itself
  a valid fingerprint that gives itself: ids can be compared as strings.
\<close>

theorem participant_id_canonical:
  assumes "participant_id_new a = Ok (ParticipantId p)"
  shows "(participant_id_new b = Ok (ParticipantId p)
      \<longleftrightarrow> take 2 b = ''0x'' \<and> map ascii_lower b = map ascii_lower a)
    \<and> participant_id_new p = Ok (ParticipantId p)"
proof -
  have a: "is_valid_participant_id a" "p = map ascii_lower a"
    using assms by (auto simp: participant_id_new_def split: if_splits)
  have valid: "is_valid_participant_id v"
    if "take 2 v = ''0x''" "map ascii_lower v = map ascii_lower a" for v
  proof -
    have l: "length v = length a" using that(2) map_eq_imp_length_eq by blast
    have "map ascii_lower (drop 2 v) = map ascii_lower (drop 2 a)"
      using that(2) by (simp add: drop_map [symmetric])
    then have "list_all is_ascii_hexdigit (map ascii_lower (drop 2 v))
        = list_all is_ascii_hexdigit (map ascii_lower (drop 2 a))" by simp
    then have "list_all is_ascii_hexdigit (drop 2 v) = list_all is_ascii_hexdigit (drop 2 a)"
      by (simp add: list.pred_map comp_def)
    with a(1) l that(1) show ?thesis by (simp add: is_valid_participant_id_iff)
  qed
  have p: "map ascii_lower p = map ascii_lower a" using a(2) by (simp add: comp_def)
  moreover have "take 2 p = ''0x''"
    using a by (simp add: ascii_lower_hex_prefix is_valid_participant_id_iff)
  ultimately have "is_valid_participant_id p" using valid by blast
  with p a(2) have "participant_id_new p = Ok (ParticipantId p)"
    by (simp add: participant_id_new_def comp_def)
  moreover have "participant_id_new b = Ok (ParticipantId p)
      \<longleftrightarrow> take 2 b = ''0x'' \<and> map ascii_lower b = map ascii_lower a"
    using valid [of b] a(2) by (auto simp: participant_id_new_def is_valid_participant_id_iff)
  ultimately show ?thesis by blast
qed

theorem participant_id_canonical_witness:
  "participant_id_new ''0xF39FD6E51AAD88F6F4CE6AB8827279CFFFB92266''
     = Ok (ParticipantId ''0xf39fd6e51aad88f6f4ce6ab8827279cfffb92266'')"
proof -
  have "participant_id_new ''0xf39Fd6e51aad88F6F4ce6aB8827279cffFb92266''
      = Ok (ParticipantId ''0xf39fd6e51aad88f6f4ce6ab8827279cfffb92266'')" by code_simp
  from participant_id_canonical [OF this, of "''0xF39FD6E51AAD88F6F4CE6AB8827279CFFFB92266''"]
  moreover have "map ascii_lower ''0xF39FD6E51AAD88F6F4CE6AB8827279CFFFB92266''
      = map ascii_lower ''0xf39Fd6e51aad88F6F4ce6aB8827279cffFb92266''" by code_simp
  ultimately show ?thesis by simp
qed

section \<open>Protocol versions\<close>

lemma split_on_neq_Nil [simp]: "split_on sep s \<noteq> []"
  by (induction s) (auto split: list.splits)

lemma length_split_on: "length (split_on sep s) = Suc (length (filter (\<lambda>c. c = sep) s))"
  by (induction s) (auto split: list.splits)

text \<open>A valid version is \<open>name/version\<close>: exactly one slash, with something on each side.\<close>

lemma valid_version_one_slash:
  "is_valid_signing_protocol_version v \<Longrightarrow> length (filter (\<lambda>c. c = CHR ''/'') v) = 1"
  by (auto simp: is_valid_signing_protocol_version_def Let_def length_split_on split: if_splits)

lemma protocol_v1_valid: "is_valid_signing_protocol_version SIGNING_PROTOCOL_V1"
  by code_simp

end
