(* ===== verification/Envelope.thy ===== *)
theory Envelope
  imports Prelude
begin

text \<open>
  Network identities (\<open>crates/keymesh-tss/src/identity.rs\<close>) and the authenticated message envelope
  (\<open>envelope.rs\<close>). ECDSA and its wire format come from the crate \<open>k256\<close>; they are the fields of the
  parameter record \<open>k256_ecdsa\<close>, over any types of signing keys, verifying keys and signatures.
\<close>

record ('sk, 'vk, 'sg) k256_ecdsa =
  ecdsa_sign :: "'sk \<Rightarrow> bytes \<Rightarrow> 'sg"
  ecdsa_verify :: "'vk \<Rightarrow> bytes \<Rightarrow> 'sg \<Rightarrow> bool"
  ecdsa_vk :: "'sk \<Rightarrow> 'vk"
  sig_to_vec :: "'sg \<Rightarrow> bytes"
  sig_from_slice :: "bytes \<Rightarrow> 'sg option"

text \<open>The documented behaviour the code relies on: a signature survives \<open>to_vec\<close> and
  \<open>from_slice\<close>, and a signature made with a key verifies under its verifying key.\<close>

definition ecdsa_correct :: "('sk, 'vk, 'sg) k256_ecdsa \<Rightarrow> bool" where
  "ecdsa_correct k \<longleftrightarrow> (\<forall>s. sig_from_slice k (sig_to_vec k s) = Some s)
     \<and> (\<forall>sk m. ecdsa_verify k (ecdsa_vk k sk) m (ecdsa_sign k sk m))"

text \<open>The idealised unforgeability of one verifying key: what verifies under it was signed.\<close>

definition only_signed :: "('sk, 'vk, 'sg) k256_ecdsa \<Rightarrow> 'vk \<Rightarrow> bytes list \<Rightarrow> bool" where
  "only_signed k vk msgs \<longleftrightarrow> (\<forall>m s. ecdsa_verify k vk m s \<longrightarrow> m \<in> set msgs)"

section \<open>Identities\<close>

record ('sk, 'vk) network_keypair =
  kp_signing_key :: 'sk
  kp_verifying_key :: 'vk

text \<open>\<open>generate\<close>, with the random signing key as its argument.\<close>

definition keypair_generate :: "('sk, 'vk, 'sg) k256_ecdsa \<Rightarrow> 'sk \<Rightarrow> ('sk, 'vk) network_keypair" where
  "keypair_generate k sk = \<lparr>kp_signing_key = sk, kp_verifying_key = ecdsa_vk k sk\<rparr>"

definition keypair_sign :: "('sk, 'vk, 'sg) k256_ecdsa \<Rightarrow> ('sk, 'vk) network_keypair \<Rightarrow> bytes \<Rightarrow> 'sg" where
  "keypair_sign k kp msg = ecdsa_sign k (kp_signing_key kp) msg"

record 'vk participant_identity =
  pi_id :: u8
  pi_key :: 'vk
  pi_wallet :: bytes
  pi_chain_id :: u64

definition identity_new :: "u8 \<Rightarrow> 'vk \<Rightarrow> bytes \<Rightarrow> u64 \<Rightarrow> 'vk participant_identity" where
  "identity_new i vk w c = \<lparr>pi_id = i, pi_key = vk, pi_wallet = w, pi_chain_id = c\<rparr>"

definition identity_verify ::
  "('sk, 'vk, 'sg) k256_ecdsa \<Rightarrow> 'vk participant_identity \<Rightarrow> bytes \<Rightarrow> 'sg \<Rightarrow> bool" where
  "identity_verify k i msg sg = ecdsa_verify k (pi_key i) msg sg"

definition check_wallet :: "'vk participant_identity \<Rightarrow> bytes \<Rightarrow> u64 \<Rightarrow> bool" where
  "check_wallet i wallet chain_id \<longleftrightarrow> pi_wallet i = wallet \<and> pi_chain_id i = chain_id"

section \<open>Envelopes\<close>

record tss_envelope =
  te_protocol_version :: string
  te_session_id :: bytes
  te_wallet :: bytes
  te_chain_id :: u64
  te_participant_id :: u8
  te_round :: u8
  te_message_type :: string
  te_digest :: bytes
  te_payload :: bytes
  te_signature :: "bytes option"

definition envelope_wf :: "tss_envelope \<Rightarrow> bool" where
  "envelope_wf e \<longleftrightarrow>
     length (te_session_id e) = 32 \<and> length (te_wallet e) = 20 \<and> length (te_digest e) = 32"

definition envelope_new ::
  "string \<Rightarrow> bytes \<Rightarrow> bytes \<Rightarrow> u64 \<Rightarrow> u8 \<Rightarrow> u8 \<Rightarrow> string \<Rightarrow> bytes \<Rightarrow> bytes \<Rightarrow> tss_envelope" where
  "envelope_new pv sid w c i r mt d p =
     \<lparr>te_protocol_version = pv, te_session_id = sid, te_wallet = w, te_chain_id = c,
      te_participant_id = i, te_round = r, te_message_type = mt, te_digest = d, te_payload = p,
      te_signature = None\<rparr>"

definition to_sign_bytes :: "tss_envelope \<Rightarrow> bytes" where
  "to_sign_bytes e = str_bytes (te_protocol_version e) @ [0] @ te_session_id e @ te_wallet e
     @ u64_be (te_chain_id e) @ [te_participant_id e] @ [te_round e]
     @ str_bytes (te_message_type e) @ [0] @ te_digest e @ te_payload e"

definition envelope_sign ::
  "('sk, 'vk, 'sg) k256_ecdsa \<Rightarrow> ('sk, 'vk) network_keypair \<Rightarrow> tss_envelope \<Rightarrow> tss_envelope" where
  "envelope_sign k kp e =
     e\<lparr>te_signature := Some (sig_to_vec k (keypair_sign k kp (to_sign_bytes e)))\<rparr>"

definition envelope_verify ::
  "('sk, 'vk, 'sg) k256_ecdsa \<Rightarrow> tss_envelope \<Rightarrow> 'vk participant_identity \<Rightarrow> bool" where
  "envelope_verify k e identity =
     (if te_participant_id e \<noteq> pi_id identity then False
      else if \<not> check_wallet identity (te_wallet e) (te_chain_id e) then False
      else case te_signature e of
        None \<Rightarrow> False
      | Some sig_bytes \<Rightarrow>
          (case sig_from_slice k sig_bytes of
             None \<Rightarrow> False
           | Some sg \<Rightarrow> identity_verify k identity (to_sign_bytes e) sg))"

definition validate_against ::
  "tss_envelope \<Rightarrow> bytes \<Rightarrow> bytes \<Rightarrow> u64 \<Rightarrow> bytes \<Rightarrow> string \<Rightarrow> (string, unit) res" where
  "validate_against e expected_session expected_wallet expected_chain expected_digest expected_version =
     (if te_session_id e \<noteq> expected_session
      then Err (''session_id mismatch: expected '' @ hex_encode expected_session
        @ '', got '' @ hex_encode (te_session_id e))
      else if te_wallet e \<noteq> expected_wallet then Err ''wallet mismatch''
      else if te_chain_id e \<noteq> expected_chain then Err ''chain_id mismatch''
      else if te_digest e \<noteq> expected_digest then Err ''digest mismatch''
      else if te_protocol_version e \<noteq> expected_version then Err ''protocol_version mismatch''
      else if te_round e = 0 \<or> 10 < te_round e then Err ''invalid round''
      else Ok ())"

section \<open>The signed bytes\<close>

text \<open>Strings without a NUL character, the only ones the signed bytes delimit reliably.\<close>

definition nul_free :: "tss_envelope \<Rightarrow> bool" where
  "nul_free e \<longleftrightarrow> CHR 0x00 \<notin> set (te_protocol_version e) \<and> CHR 0x00 \<notin> set (te_message_type e)"

lemma zero_in_str_bytes: "0 \<in> set (str_bytes s) \<longleftrightarrow> CHR 0x00 \<in> set s"
proof -
  have z: "(word_of_nat (of_char c) :: u8) = 0 \<longleftrightarrow> c = CHR 0x00" for c
    using inj_char_byte [THEN inj_eq, of c "CHR 0x00"] by simp
  have "0 \<in> set (str_bytes s) \<longleftrightarrow> (\<exists>c \<in> set s. (word_of_nat (of_char c) :: u8) = 0)"
    by (auto simp: str_bytes_def image_iff eq_commute [of 0])
  then show ?thesis by (simp add: z)
qed

lemma to_sign_bytes_inject:
  assumes "envelope_wf e" and "envelope_wf f" and "nul_free e" and "nul_free f"
    and "to_sign_bytes e = to_sign_bytes f"
  shows "e\<lparr>te_signature := None\<rparr> = f\<lparr>te_signature := None\<rparr>"
proof -
  let ?t = "\<lambda>e. te_session_id e @ te_wallet e @ u64_be (te_chain_id e) @ [te_participant_id e]
    @ [te_round e] @ str_bytes (te_message_type e) @ 0 # te_digest e @ te_payload e"
  have z: "0 \<notin> set (str_bytes (te_protocol_version e))" "0 \<notin> set (str_bytes (te_protocol_version f))"
      "0 \<notin> set (str_bytes (te_message_type e))" "0 \<notin> set (str_bytes (te_message_type f))"
    using assms(3,4) by (simp_all add: nul_free_def zero_in_str_bytes)
  have "str_bytes (te_protocol_version e) @ 0 # ?t e = str_bytes (te_protocol_version f) @ 0 # ?t f"
    using assms(5) by (simp add: to_sign_bytes_def)
  from nul_terminated_inject [OF z(1,2) this]
  have v: "te_protocol_version e = te_protocol_version f" and t: "?t e = ?t f" by auto
  have "te_session_id e = te_session_id f \<and> te_wallet e = te_wallet f \<and> te_chain_id e = te_chain_id f
      \<and> te_participant_id e = te_participant_id f \<and> te_round e = te_round f
      \<and> str_bytes (te_message_type e) @ 0 # te_digest e @ te_payload e
        = str_bytes (te_message_type f) @ 0 # te_digest f @ te_payload f"
    using t assms(1,2) by (simp add: envelope_wf_def)
  moreover from this nul_terminated_inject [OF z(3,4)]
  have "te_message_type e = te_message_type f"
      and "te_digest e @ te_payload e = te_digest f @ te_payload f" by auto
  moreover from this assms(1,2) have "te_digest e = te_digest f \<and> te_payload e = te_payload f"
    by (simp add: envelope_wf_def)
  ultimately show ?thesis using v by (cases e; cases f) simp
qed

lemma envelope_verify_iff:
  "envelope_verify k e i \<longleftrightarrow> te_participant_id e = pi_id i \<and> te_wallet e = pi_wallet i
     \<and> te_chain_id e = pi_chain_id i
     \<and> (\<exists>b s. te_signature e = Some b \<and> sig_from_slice k b = Some s
          \<and> ecdsa_verify k (pi_key i) (to_sign_bytes e) s)"
  by (auto simp: envelope_verify_def check_wallet_def identity_verify_def split: option.splits)

lemma to_sign_bytes_ignores_signature [simp]:
  "to_sign_bytes (e\<lparr>te_signature := s\<rparr>) = to_sign_bytes e"
  by (simp add: to_sign_bytes_def)

text \<open>What an honest sender signs verifies under its identity.\<close>

lemma envelope_sign_verifies:
  "ecdsa_correct k \<Longrightarrow>
   envelope_verify k (envelope_sign k (keypair_generate k sk) e)
     (identity_new (te_participant_id e) (ecdsa_vk k sk) (te_wallet e) (te_chain_id e))"
  by (auto simp: envelope_verify_iff envelope_sign_def keypair_sign_def keypair_generate_def
      identity_new_def ecdsa_correct_def)

lemma envelope_verified_was_signed:
  assumes "only_signed k (pi_key i) (map to_sign_bytes sent)"
    and "list_all (\<lambda>e. envelope_wf e \<and> nul_free e) sent" and "envelope_wf e" and "nul_free e"
    and "envelope_verify k e i"
  shows "\<exists>e0 \<in> set sent. e\<lparr>te_signature := None\<rparr> = e0\<lparr>te_signature := None\<rparr>"
proof -
  have "to_sign_bytes e \<in> to_sign_bytes ` set sent"
    using assms(1,5) by (auto simp: envelope_verify_iff only_signed_def)
  then obtain e0 where e0: "e0 \<in> set sent" "to_sign_bytes e = to_sign_bytes e0" by auto
  with assms(2) have "envelope_wf e0" "nul_free e0" by (auto simp: list_all_iff)
  with e0 to_sign_bytes_inject [OF assms(3) _ assms(4)] show ?thesis by blast
qed

text \<open>
  Authenticity. If a participant's key has signed only the envelopes \<open>sent\<close> (all
  with NUL-free strings), then a NUL-free envelope that verifies under its identity is one of
  them in every field that is not the signature: session, wallet, chain, sender, round, type,
  digest and payload cannot be changed in flight.
\<close>

theorem envelope_authentic:
  assumes "only_signed k (pi_key i) (map to_sign_bytes sent)"
    and "list_all (\<lambda>e. envelope_wf e \<and> nul_free e) sent" and "envelope_wf e" and "nul_free e"
    and "envelope_verify k e i"
  shows "\<exists>e0 \<in> set sent. e\<lparr>te_signature := None\<rparr> = e0\<lparr>te_signature := None\<rparr>"
  by (rule envelope_verified_was_signed [OF assms])

definition sample_envelope :: tss_envelope where
  "sample_envelope = envelope_new ''synedrion/0.3-cggmp24'' (replicate 32 1) (replicate 20 2) 1 0 1
     ''InteractiveSigning'' (replicate 32 3) [9, 9]"

text \<open>A toy instance: a signature is the message, valid for the sample envelope's bytes only.\<close>

definition toy_ecdsa :: "(unit, unit, bytes) k256_ecdsa" where
  "toy_ecdsa = \<lparr>ecdsa_sign = (\<lambda>_ m. m),
     ecdsa_verify = (\<lambda>_ m s. m = to_sign_bytes sample_envelope \<and> s = m), ecdsa_vk = (\<lambda>_. ()),
     sig_to_vec = (\<lambda>s. s), sig_from_slice = Some\<rparr>"

lemma sample_envelope_ok [simp]: "envelope_wf sample_envelope" "nul_free sample_envelope"
  by (simp_all add: sample_envelope_def envelope_new_def envelope_wf_def nul_free_def)

lemma sample_envelope_fields [simp]:
  "te_participant_id sample_envelope = 0" "te_wallet sample_envelope = replicate 20 2"
  "te_chain_id sample_envelope = 1" "te_round sample_envelope = 1"
  "te_session_id sample_envelope = replicate 32 1"
  "te_message_type sample_envelope = ''InteractiveSigning''"
  by (simp_all add: sample_envelope_def envelope_new_def)

lemma envelope_signature_irrelevant [simp]:
  "envelope_wf (e\<lparr>te_signature := s\<rparr>) = envelope_wf e" "nul_free (e\<lparr>te_signature := s\<rparr>) = nul_free e"
  by (simp_all add: envelope_wf_def nul_free_def)

lemma sample_envelope_toy_verifies:
  "envelope_verify toy_ecdsa (sample_envelope\<lparr>te_signature := Some (to_sign_bytes sample_envelope)\<rparr>)
     (identity_new 0 () (replicate 20 2) 1)"
  by (simp add: toy_ecdsa_def envelope_verify_iff identity_new_def)

theorem envelope_authentic_witness:
  "\<exists>e0 \<in> set [sample_envelope].
     (sample_envelope\<lparr>te_signature := Some (to_sign_bytes sample_envelope)\<rparr>)\<lparr>te_signature := None\<rparr>
       = e0\<lparr>te_signature := None\<rparr>"
proof (rule envelope_authentic [OF _ _ _ _ sample_envelope_toy_verifies])
  show "only_signed toy_ecdsa (pi_key (identity_new 0 () (replicate 20 2) 1))
      (map to_sign_bytes [sample_envelope])"
    by (simp add: only_signed_def toy_ecdsa_def)
qed simp_all

text \<open>
  Without that restriction the signed bytes are ambiguous: message type and digest are
  separated by one NUL byte, and a message type may contain one. For every envelope whose digest
  begins with a zero byte there is another one, of a different type, digest and payload, with the
  same signed bytes, so the same signature verifies for both.
\<close>

theorem to_sign_bytes_ambiguous:
  assumes "te_digest e = 0 # d" and "te_payload e = b # p"
  shows "let f = e\<lparr>te_message_type := te_message_type e @ [CHR 0x00], te_digest := d @ [b],
             te_payload := p\<rparr>
    in to_sign_bytes f = to_sign_bytes e \<and> te_message_type f \<noteq> te_message_type e
      \<and> te_payload f \<noteq> te_payload e \<and> (envelope_wf e \<longrightarrow> envelope_wf f)
      \<and> (\<forall>k i. envelope_verify k f i = envelope_verify k e i)"
proof -
  let ?f = "e\<lparr>te_message_type := te_message_type e @ [CHR 0x00], te_digest := d @ [b],
             te_payload := p\<rparr>"
  have b: "to_sign_bytes ?f = to_sign_bytes e"
    using assms by (simp add: to_sign_bytes_def str_bytes_def)
  then have "\<forall>k i. envelope_verify k ?f i = envelope_verify k e i"
    unfolding envelope_verify_iff b by simp
  with b assms show ?thesis by (auto simp: envelope_wf_def Let_def)
qed

theorem to_sign_bytes_ambiguous_witness:
  "\<exists>f. to_sign_bytes f = to_sign_bytes (sample_envelope\<lparr>te_digest := 0 # replicate 31 3\<rparr>)
     \<and> te_message_type f \<noteq> te_message_type sample_envelope"
  using to_sign_bytes_ambiguous
    [of "sample_envelope\<lparr>te_digest := 0 # replicate 31 3\<rparr>" "replicate 31 3" 9 "[9]"]
  unfolding Let_def by (auto simp: sample_envelope_def envelope_new_def)

text \<open>Validation against a session context accepts exactly the envelopes of that context.\<close>

lemma validate_against_Ok:
  "validate_against e sid w c d v = Ok () \<longleftrightarrow> te_session_id e = sid \<and> te_wallet e = w
     \<and> te_chain_id e = c \<and> te_digest e = d \<and> te_protocol_version e = v
     \<and> te_round e \<noteq> 0 \<and> te_round e \<le> 10"
  by (auto simp: validate_against_def)

end
