(* ===== verification/Network.thy ===== *)
theory Network
  imports Envelope
begin

text \<open>
  The transports of \<open>crates/keymesh-tss/src/network.rs\<close>: the frame format, the in-memory channel
  pair and the TCP connection, behind the trait \<open>TssTransport\<close>, which is a locale here.

  The JSON codec (\<open>serde_json\<close>), the sockets and the error texts of the operating system are
  parameters: the record \<open>net_env\<close>. A TCP stream is the pair of the bytes the peer will still
  deliver before it closes and the bytes written so far, with the error that writing gives when
  the connection is broken. An \<open>async\<close> operation that waits for the peer returns \<open>None\<close>.
\<close>

definition FRAME_VERSION :: u8 where "FRAME_VERSION = 1"

definition MAX_TSS_MESSAGE_BYTES :: nat where "MAX_TSS_MESSAGE_BYTES = 64 * 1024"

record framed_envelope =
  fr_version :: u8
  fr_envelope :: tss_envelope

record tcp_stream =
  st_in :: bytes
  st_out :: bytes
  st_write_error :: "string option"

record ('addr, 'lsn) net_env =
  json_to_vec :: "framed_envelope \<Rightarrow> (string, bytes) res"
  json_from_slice :: "bytes \<Rightarrow> (string, framed_envelope) res"
  eof_text :: string
  tcp_connect :: "'addr \<Rightarrow> (string, tcp_stream) res"
  tcp_bind :: "'addr \<Rightarrow> (string, 'lsn) res"
  tcp_accept :: "'lsn \<Rightarrow> (string, tcp_stream) res"

section \<open>Frames\<close>

definition frame_too_large :: "nat \<Rightarrow> string" where
  "frame_too_large n = ''frame too large: '' @ show_nat n @ '' > '' @ show_nat MAX_TSS_MESSAGE_BYTES"

definition encode_frame :: "('addr, 'lsn) net_env \<Rightarrow> tss_envelope \<Rightarrow> (string, bytes) res" where
  "encode_frame N e =
     res_bind (json_to_vec N \<lparr>fr_version = FRAME_VERSION, fr_envelope = e\<rparr>) (\<lambda>bs.
       if MAX_TSS_MESSAGE_BYTES < length bs then Err (frame_too_large (length bs)) else Ok bs)"

definition decode_frame :: "('addr, 'lsn) net_env \<Rightarrow> bytes \<Rightarrow> (string, tss_envelope) res" where
  "decode_frame N bs =
     (if MAX_TSS_MESSAGE_BYTES < length bs then Err (frame_too_large (length bs))
      else res_bind (json_from_slice N bs) (\<lambda>framed.
        if fr_version framed \<noteq> FRAME_VERSION then Err ''frame version mismatch''
        else Ok (fr_envelope framed)))"

definition write_all_bytes :: "bytes \<Rightarrow> tcp_stream \<Rightarrow> tcp_stream \<times> (string, unit) res" where
  "write_all_bytes bs s =
     (case st_write_error s of
        Some e \<Rightarrow> (s, Err e)
      | None \<Rightarrow> (s\<lparr>st_out := st_out s @ bs\<rparr>, Ok ()))"

definition write_frame ::
  "('addr, 'lsn) net_env \<Rightarrow> tss_envelope \<Rightarrow> tcp_stream \<Rightarrow> tcp_stream \<times> (string, unit) res" where
  "write_frame N e s =
     (case encode_frame N e of
        Panic \<Rightarrow> (s, Panic)
      | Err m \<Rightarrow> (s, Err m)
      | Ok bs \<Rightarrow>
          if 2 ^ 32 \<le> length bs then (s, Err ''frame too large'')
          else (case write_all_bytes (u32_be (word_of_nat (length bs))) s of
            (s1, Err m) \<Rightarrow> (s1, Err (''write length failed: '' @ m))
          | (s1, Panic) \<Rightarrow> (s1, Panic)
          | (s1, Ok _) \<Rightarrow>
              (case write_all_bytes bs s1 of
                 (s2, Err m) \<Rightarrow> (s2, Err (''write frame failed: '' @ m))
               | (s2, Panic) \<Rightarrow> (s2, Panic)
               | (s2, Ok _) \<Rightarrow> (s2, Ok ()))))"

definition read_exact ::
  "('addr, 'lsn) net_env \<Rightarrow> nat \<Rightarrow> tcp_stream \<Rightarrow> tcp_stream \<times> (string, bytes) res" where
  "read_exact N n s =
     (if length (st_in s) < n then (s\<lparr>st_in := []\<rparr>, Err (eof_text N))
      else (s\<lparr>st_in := drop n (st_in s)\<rparr>, Ok (take n (st_in s))))"

definition read_frame ::
  "('addr, 'lsn) net_env \<Rightarrow> tcp_stream \<Rightarrow> tcp_stream \<times> (string, tss_envelope) res" where
  "read_frame N s =
     (case read_exact N 4 s of
        (s1, Err m) \<Rightarrow> (s1, Err (''read length failed: '' @ m))
      | (s1, Panic) \<Rightarrow> (s1, Panic)
      | (s1, Ok len_bytes) \<Rightarrow>
          let len = unat (u32_from_be len_bytes) in
          if len = 0 \<or> MAX_TSS_MESSAGE_BYTES < len
          then (s1, Err (''invalid frame length: '' @ show_nat len))
          else (case read_exact N len s1 of
            (s2, Err m) \<Rightarrow> (s2, Err (''read frame failed: '' @ m))
          | (s2, Panic) \<Rightarrow> (s2, Panic)
          | (s2, Ok buf) \<Rightarrow> (s2, decode_frame N buf)))"

section \<open>The in-memory transport\<close>

type_synonym session_key = "bytes \<times> bytes \<times> u64"

text \<open>
  One end of a pair of unbounded channels. \<open>mt_tx\<close> is the channel this end sends on and the peer
  receives from, \<open>mt_rx\<close> the one it receives from; \<open>mem_exchange\<close> connects two ends.
\<close>

record mem_transport =
  mt_tx :: "tss_envelope list"
  mt_rx :: "tss_envelope list"
  mt_peer_open :: bool
  mt_authenticated :: bool
  mt_expected_session :: "session_key option"

definition mem_pair :: "mem_transport \<times> mem_transport" where
  "mem_pair =
     (let e = \<lparr>mt_tx = [], mt_rx = [], mt_peer_open = True, mt_authenticated = False,
               mt_expected_session = None\<rparr> in (e, e))"

definition mem_with_session :: "bytes \<Rightarrow> bytes \<Rightarrow> u64 \<Rightarrow> mem_transport \<times> mem_transport" where
  "mem_with_session sid w c =
     (let (a, b) = mem_pair in
       (a\<lparr>mt_expected_session := Some (sid, w, c)\<rparr>, b\<lparr>mt_expected_session := Some (sid, w, c)\<rparr>))"

definition mem_exchange :: "mem_transport \<times> mem_transport \<Rightarrow> mem_transport \<times> mem_transport" where
  "mem_exchange p =
     (let (a, b) = p in
       (a\<lparr>mt_tx := [], mt_rx := mt_rx a @ mt_tx b\<rparr>, b\<lparr>mt_tx := [], mt_rx := mt_rx b @ mt_tx a\<rparr>))"

definition mem_connect :: "mem_transport \<Rightarrow> mem_transport \<times> (string, unit) res" where
  "mem_connect s = (s, Ok ())"

definition mem_authenticate ::
  "mem_transport \<Rightarrow> 'vk participant_identity \<Rightarrow> mem_transport \<times> (string, unit) res" where
  "mem_authenticate s identity = (s\<lparr>mt_authenticated := True\<rparr>, Ok ())"

definition mem_send :: "mem_transport \<Rightarrow> tss_envelope \<Rightarrow> mem_transport \<times> (string, unit) res" where
  "mem_send s e =
     (if \<not> mt_authenticated s then (s, Err ''not authenticated'')
      else if \<not> mt_peer_open s then (s, Err ''send failed: channel closed'')
      else (s\<lparr>mt_tx := mt_tx s @ [e]\<rparr>, Ok ()))"

definition check_binding :: "session_key option \<Rightarrow> tss_envelope \<Rightarrow> (string, unit) res" where
  "check_binding expected e =
     (case expected of
        Some (sid, wallet, chain) \<Rightarrow>
          map_err (\<lambda>m. ''session binding failed: '' @ m)
            (validate_against e sid wallet chain (te_digest e) (te_protocol_version e))
      | None \<Rightarrow> Ok ())"

definition mem_receive :: "mem_transport \<Rightarrow> mem_transport \<times> (string, tss_envelope) res option" where
  "mem_receive s =
     (if \<not> mt_authenticated s then (s, Some (Err ''not authenticated''))
      else case mt_rx s of
        [] \<Rightarrow> (s, if mt_peer_open s then None else Some (Err ''channel closed''))
      | e # es \<Rightarrow>
          (s\<lparr>mt_rx := es\<rparr>, Some (res_bind (check_binding (mt_expected_session s) e) (\<lambda>_. Ok e))))"

definition mem_close :: "mem_transport \<Rightarrow> mem_transport \<times> (string, unit) res" where
  "mem_close s = (s, Ok ())"

section \<open>The TCP transport\<close>

datatype 'addr tcp_mode = TcpClient 'addr | TcpServer 'addr

record ('addr, 'lsn, 'vk) tcp_transport =
  tt_mode :: "'addr tcp_mode"
  tt_stream :: "tcp_stream option"
  tt_listener :: "'lsn option"
  tt_authenticated :: bool
  tt_expected_session :: "session_key option"
  tt_peer_identity :: "'vk participant_identity option"

definition tcp_client ::
  "'addr \<Rightarrow> session_key option \<Rightarrow> 'vk participant_identity option \<Rightarrow> ('addr, 'lsn, 'vk) tcp_transport" where
  "tcp_client addr sess peer =
     \<lparr>tt_mode = TcpClient addr, tt_stream = None, tt_listener = None, tt_authenticated = False,
      tt_expected_session = sess, tt_peer_identity = peer\<rparr>"

definition tcp_server ::
  "'addr \<Rightarrow> session_key option \<Rightarrow> 'vk participant_identity option \<Rightarrow> ('addr, 'lsn, 'vk) tcp_transport" where
  "tcp_server addr sess peer =
     \<lparr>tt_mode = TcpServer addr, tt_stream = None, tt_listener = None, tt_authenticated = False,
      tt_expected_session = sess, tt_peer_identity = peer\<rparr>"

definition tcp_open ::
  "('addr, 'lsn) net_env \<Rightarrow> ('addr, 'lsn, 'vk) tcp_transport
     \<Rightarrow> ('addr, 'lsn, 'vk) tcp_transport \<times> (string, unit) res" where
  "tcp_open N s =
     (case tt_mode s of
        TcpClient addr \<Rightarrow>
          (case tcp_connect N addr of
             Ok st \<Rightarrow> (s\<lparr>tt_stream := Some st\<rparr>, Ok ())
           | Err m \<Rightarrow> (s, Err m)
           | Panic \<Rightarrow> (s, Panic))
      | TcpServer addr \<Rightarrow>
          (case tcp_bind N addr of
             Err m \<Rightarrow> (s, Err m)
           | Panic \<Rightarrow> (s, Panic)
           | Ok l \<Rightarrow>
               let s1 = s\<lparr>tt_listener := Some l\<rparr> in
               (case tcp_accept N l of
                  Ok st \<Rightarrow> (s1\<lparr>tt_stream := Some st\<rparr>, Ok ())
                | Err m \<Rightarrow> (s1, Err m)
                | Panic \<Rightarrow> (s1, Panic))))"

definition tcp_authenticate ::
  "('addr, 'lsn, 'vk) tcp_transport \<Rightarrow> 'vk participant_identity
     \<Rightarrow> ('addr, 'lsn, 'vk) tcp_transport \<times> (string, unit) res" where
  "tcp_authenticate s identity = (s\<lparr>tt_authenticated := True\<rparr>, Ok ())"

definition tcp_send ::
  "('addr, 'lsn) net_env \<Rightarrow> ('addr, 'lsn, 'vk) tcp_transport \<Rightarrow> tss_envelope
     \<Rightarrow> ('addr, 'lsn, 'vk) tcp_transport \<times> (string, unit) res" where
  "tcp_send N s e =
     (if \<not> tt_authenticated s then (s, Err ''not authenticated'')
      else case tt_stream s of
        None \<Rightarrow> (s, Err ''not connected'')
      | Some st \<Rightarrow>
          (case check_binding (tt_expected_session s) e of
             Err m \<Rightarrow> (s, Err m)
           | Panic \<Rightarrow> (s, Panic)
           | Ok _ \<Rightarrow> (let (st', r) = write_frame N e st in (s\<lparr>tt_stream := Some st'\<rparr>, r))))"

definition tcp_receive ::
  "('sk, 'vk, 'sg) k256_ecdsa \<Rightarrow> ('addr, 'lsn) net_env \<Rightarrow> ('addr, 'lsn, 'vk) tcp_transport
     \<Rightarrow> ('addr, 'lsn, 'vk) tcp_transport \<times> (string, tss_envelope) res" where
  "tcp_receive k N s =
     (if \<not> tt_authenticated s then (s, Err ''not authenticated'')
      else case tt_stream s of
        None \<Rightarrow> (s, Err ''not connected'')
      | Some st \<Rightarrow>
          (let (st', r) = read_frame N st; s' = s\<lparr>tt_stream := Some st'\<rparr> in
            (s', res_bind r (\<lambda>e.
               res_bind (ok_or ''missing peer identity'' (tt_peer_identity s)) (\<lambda>peer.
                 if \<not> envelope_verify k e peer then Err ''peer authentication failed''
                 else res_bind (check_binding (tt_expected_session s) e) (\<lambda>_. Ok e))))))"

definition tcp_close ::
  "('addr, 'lsn, 'vk) tcp_transport \<Rightarrow> ('addr, 'lsn, 'vk) tcp_transport \<times> (string, unit) res" where
  "tcp_close s = (s\<lparr>tt_stream := None, tt_listener := None\<rparr>, Ok ())"

end
