(* ===== verification/Network_Safety.thy ===== *)
theory Network_Safety
  imports Network
begin

text \<open>
  What the transports promise: the contract of the trait \<open>TssTransport\<close> as a locale, provided by
  the in-memory and the TCP transport, and the properties of frames and received envelopes.
\<close>

section \<open>The transport contract\<close>

text \<open>What a transport is asked to do, and what the network does to it in between.\<close>

datatype ('i, 'n) transport_op = OpAuthenticate 'i | OpSend tss_envelope | OpReceive | OpNetwork 'n

text \<open>A run of operations: the final state and the envelopes received, in order.\<close>

fun transport_run ::
  "('s \<Rightarrow> 'i \<Rightarrow> 's \<times> (string, unit) res) \<Rightarrow> ('s \<Rightarrow> tss_envelope \<Rightarrow> 's \<times> (string, unit) res)
   \<Rightarrow> ('s \<Rightarrow> 's \<times> (string, tss_envelope) res option) \<Rightarrow> ('n \<Rightarrow> 's \<Rightarrow> 's)
   \<Rightarrow> 's \<Rightarrow> ('i, 'n) transport_op list \<Rightarrow> 's \<times> tss_envelope list" where
  "transport_run auth snd_op rcv net s [] = (s, [])"
| "transport_run auth snd_op rcv net s (OpAuthenticate i # ops) =
     transport_run auth snd_op rcv net (fst (auth s i)) ops"
| "transport_run auth snd_op rcv net s (OpSend e # ops) =
     transport_run auth snd_op rcv net (fst (snd_op s e)) ops"
| "transport_run auth snd_op rcv net s (OpNetwork n # ops) =
     transport_run auth snd_op rcv net (net n s) ops"
| "transport_run auth snd_op rcv net s (OpReceive # ops) =
     (let (s', r) = rcv s; (s'', es) = transport_run auth snd_op rcv net s' ops in
       (s'', (case r of Some (Ok e) \<Rightarrow> e # es | _ \<Rightarrow> es)))"

text \<open>The session context that \<open>check_binding\<close> really compares: digest and version are not in it.\<close>

definition in_session :: "session_key option \<Rightarrow> tss_envelope \<Rightarrow> bool" where
  "in_session key e =
     (case key of
        None \<Rightarrow> True
      | Some (sid, wallet, chain) \<Rightarrow> te_session_id e = sid \<and> te_wallet e = wallet
          \<and> te_chain_id e = chain \<and> te_round e \<noteq> 0 \<and> te_round e \<le> 10)"

lemma check_binding_Ok: "check_binding key e = Ok () \<longleftrightarrow> in_session key e"
  by (auto simp: check_binding_def in_session_def validate_against_Ok split: option.splits)

lemma check_binding_no_panic: "check_binding key e \<noteq> Panic"
  by (auto simp: check_binding_def validate_against_def split: option.splits)

locale tss_transport =
  fixes auth :: "'s \<Rightarrow> 'i \<Rightarrow> 's \<times> (string, unit) res"
    and snd_op :: "'s \<Rightarrow> tss_envelope \<Rightarrow> 's \<times> (string, unit) res"
    and rcv :: "'s \<Rightarrow> 's \<times> (string, tss_envelope) res option"
    and net :: "'n \<Rightarrow> 's \<Rightarrow> 's"
    and authed :: "'s \<Rightarrow> bool"
    and binding :: "'s \<Rightarrow> session_key option"
  assumes auth_frame: "authed (fst (auth s i)) \<and> binding (fst (auth s i)) = binding s"
    and send_frame: "authed (fst (snd_op s e)) = authed s \<and> binding (fst (snd_op s e)) = binding s"
    and recv_frame: "authed (fst (rcv s)) = authed s \<and> binding (fst (rcv s)) = binding s"
    and net_frame: "authed (net n s) = authed s \<and> binding (net n s) = binding s"
    and send_refused: "\<not> authed s \<Longrightarrow> snd_op s e = (s, Err ''not authenticated'')"
    and recv_refused: "\<not> authed s \<Longrightarrow> rcv s = (s, Some (Err ''not authenticated''))"
    and recv_bound: "snd (rcv s) = Some (Ok e) \<Longrightarrow> in_session (binding s) e"
begin

lemma run_binding:
  "binding (fst (transport_run auth snd_op rcv net s ops)) = binding s"
proof (induction ops arbitrary: s)
  case Nil
  then show ?case by simp
next
  case (Cons op ops)
  show ?case
  proof (cases op)
    case OpReceive
    obtain s' r where r: "rcv s = (s', r)" by (cases "rcv s")
    have "binding s' = binding s" using recv_frame [of s] r by simp
    with Cons [of s'] r OpReceive show ?thesis
      by (cases "transport_run auth snd_op rcv net s' ops") simp
  qed (simp_all add: Cons auth_frame send_frame net_frame)
qed

lemma run_bound:
  "list_all (in_session (binding s)) (snd (transport_run auth snd_op rcv net s ops))"
proof (induction ops arbitrary: s)
  case Nil
  then show ?case by simp
next
  case (Cons op ops)
  show ?case
  proof (cases op)
    case (OpAuthenticate i)
    with Cons [of "fst (auth s i)"] show ?thesis by (simp add: auth_frame)
  next
    case (OpSend e)
    with Cons [of "fst (snd_op s e)"] show ?thesis by (simp add: send_frame)
  next
    case (OpNetwork n)
    with Cons [of "net n s"] show ?thesis by (simp add: net_frame)
  next
    case OpReceive
    obtain s' r where r: "rcv s = (s', r)" by (cases "rcv s")
    have "binding s' = binding s" using recv_frame [of s] r by simp
    with Cons [of s'] recv_bound [of s] r OpReceive show ?thesis
      by (auto split: prod.split option.splits res.splits)
  qed
qed

lemma run_silent:
  "\<not> authed s \<Longrightarrow> list_all (\<lambda>op. \<forall>i. op \<noteq> OpAuthenticate i) ops \<Longrightarrow>
   snd (transport_run auth snd_op rcv net s ops) = []"
proof (induction ops arbitrary: s)
  case Nil
  then show ?case by simp
next
  case (Cons op ops)
  then have n: "\<not> authed (net n s)" for n by (simp add: net_frame)
  from Cons show ?case
    by (cases op) (auto simp: send_refused recv_refused n split: prod.split)
qed

end

definition mem_network :: "tss_envelope \<Rightarrow> mem_transport \<Rightarrow> mem_transport" where
  "mem_network e s = s\<lparr>mt_rx := mt_rx s @ [e]\<rparr>"

definition tcp_network :: "bytes \<Rightarrow> ('addr, 'lsn, 'vk) tcp_transport \<Rightarrow> ('addr, 'lsn, 'vk) tcp_transport" where
  "tcp_network bs s = s\<lparr>tt_stream := map_option (\<lambda>st. st\<lparr>st_in := st_in st @ bs\<rparr>) (tt_stream s)\<rparr>"

lemma mem_receive_Ok:
  "snd (mem_receive s) = Some (Ok e) \<longleftrightarrow>
     mt_authenticated s \<and> mt_rx s \<noteq> [] \<and> hd (mt_rx s) = e \<and> in_session (mt_expected_session s) e"
  by (auto simp: mem_receive_def check_binding_Ok split: list.splits)

lemma tcp_receive_Ok:
  "tcp_receive k N s = (s', Ok e) \<longleftrightarrow>
     tt_authenticated s \<and> (\<exists>st st' peer. tt_stream s = Some st \<and> read_frame N st = (st', Ok e)
       \<and> s' = s\<lparr>tt_stream := Some st'\<rparr> \<and> tt_peer_identity s = Some peer \<and> envelope_verify k e peer
       \<and> in_session (tt_expected_session s) e)"
  by (cases "tt_peer_identity s")
    (auto simp: tcp_receive_def check_binding_Ok Let_def split: option.splits prod.splits if_splits)

interpretation mem_net: tss_transport mem_authenticate mem_send mem_receive mem_network
    mt_authenticated mt_expected_session
proof unfold_locales
  fix s :: mem_transport and e and i :: "'a participant_identity" and n
  show "mt_authenticated (fst (mem_authenticate s i)) \<and>
      mt_expected_session (fst (mem_authenticate s i)) = mt_expected_session s"
    by (simp add: mem_authenticate_def)
  show "mt_authenticated (fst (mem_send s e)) = mt_authenticated s \<and>
      mt_expected_session (fst (mem_send s e)) = mt_expected_session s"
    by (simp add: mem_send_def)
  show "mt_authenticated (fst (mem_receive s)) = mt_authenticated s \<and>
      mt_expected_session (fst (mem_receive s)) = mt_expected_session s"
    by (simp add: mem_receive_def split: list.split)
  show "mt_authenticated (mem_network n s) = mt_authenticated s \<and>
      mt_expected_session (mem_network n s) = mt_expected_session s"
    by (simp add: mem_network_def)
  show "\<not> mt_authenticated s \<Longrightarrow> mem_send s e = (s, Err ''not authenticated'')"
    by (simp add: mem_send_def)
  show "\<not> mt_authenticated s \<Longrightarrow> mem_receive s = (s, Some (Err ''not authenticated''))"
    by (simp add: mem_receive_def)
  show "snd (mem_receive s) = Some (Ok e) \<Longrightarrow> in_session (mt_expected_session s) e"
    by (simp add: mem_receive_Ok)
qed

interpretation tcp_net: tss_transport tcp_authenticate "tcp_send N"
    "\<lambda>s. let (s', r) = tcp_receive k N s in (s', Some r)" tcp_network
    tt_authenticated tt_expected_session
  for N :: "('addr, 'lsn) net_env" and k :: "('sk, 'vk, 'sg) k256_ecdsa"
proof unfold_locales
  fix s :: "('addr, 'lsn, 'vk) tcp_transport" and e i n
  show "tt_authenticated (fst (tcp_authenticate s i)) \<and>
      tt_expected_session (fst (tcp_authenticate s i)) = tt_expected_session s"
    by (simp add: tcp_authenticate_def)
  show "tt_authenticated (fst (tcp_send N s e)) = tt_authenticated s \<and>
      tt_expected_session (fst (tcp_send N s e)) = tt_expected_session s"
    by (auto simp: tcp_send_def split: option.split res.split prod.split)
  show "tt_authenticated (fst (let (s', r) = tcp_receive k N s in (s', Some r))) = tt_authenticated s \<and>
      tt_expected_session (fst (let (s', r) = tcp_receive k N s in (s', Some r))) = tt_expected_session s"
    by (auto simp: tcp_receive_def Let_def split: option.split prod.split)
  show "tt_authenticated (tcp_network n s) = tt_authenticated s \<and>
      tt_expected_session (tcp_network n s) = tt_expected_session s"
    by (simp add: tcp_network_def)
  show "\<not> tt_authenticated s \<Longrightarrow> tcp_send N s e = (s, Err ''not authenticated'')"
    by (simp add: tcp_send_def)
  show "\<not> tt_authenticated s \<Longrightarrow> (let (s', r) = tcp_receive k N s in (s', Some r))
      = (s, Some (Err ''not authenticated''))"
    by (simp add: tcp_receive_def)
  show "snd (let (s', r) = tcp_receive k N s in (s', Some r)) = Some (Ok e) \<Longrightarrow>
      in_session (tt_expected_session s) e"
    by (cases "tcp_receive k N s") (auto simp: tcp_receive_Ok)
qed

section \<open>Frames on a byte stream\<close>

text \<open>The documented behaviour of the JSON codec: what it writes is not empty and reads back.\<close>

definition json_correct :: "('addr, 'lsn) net_env \<Rightarrow> bool" where
  "json_correct N \<longleftrightarrow> (\<forall>f bs. json_to_vec N f = Ok bs \<longrightarrow> bs \<noteq> [] \<and> json_from_slice N bs = Ok f)"

lemma decode_encode_frame:
  assumes "json_correct N" and "encode_frame N e = Ok bs"
  shows "decode_frame N bs = Ok e \<and> bs \<noteq> [] \<and> length bs \<le> 65536"
proof -
  let ?f = "\<lparr>fr_version = FRAME_VERSION, fr_envelope = e\<rparr>"
  from assms(2) have "json_to_vec N ?f = Ok bs" and l: "length bs \<le> 65536"
    by (auto simp: encode_frame_def MAX_TSS_MESSAGE_BYTES_def split: if_splits)
  with assms(1) have "json_from_slice N bs = Ok ?f" and "bs \<noteq> []"
    by (auto simp: json_correct_def)
  with l show ?thesis by (simp add: decode_frame_def MAX_TSS_MESSAGE_BYTES_def del: res_bind_Ok_iff)
qed

lemma write_frame_Ok:
  "write_frame N e s = (s', Ok ()) \<longleftrightarrow>
     (\<exists>bs. encode_frame N e = Ok bs \<and> st_write_error s = None
       \<and> s' = s\<lparr>st_out := st_out s @ u32_be (word_of_nat (length bs)) @ bs\<rparr>)"
proof -
  have "length bs < 2 ^ 32" if "encode_frame N e = Ok bs" for bs
    using that by (auto simp: encode_frame_def MAX_TSS_MESSAGE_BYTES_def split: if_splits)
  then show ?thesis
    by (fastforce simp: write_frame_def write_all_bytes_def split: res.splits option.splits)
qed

lemma read_frame_back:
  assumes "json_correct N" and "encode_frame N e = Ok bs"
    and "st_in s = u32_be (word_of_nat (length bs)) @ bs @ rest"
  shows "read_frame N s = (s\<lparr>st_in := rest\<rparr>, Ok e)"
proof -
  from decode_encode_frame [OF assms(1,2)] have d: "decode_frame N bs = Ok e" "bs \<noteq> []"
      and l: "length bs \<le> 65536" by auto
  have u: "unat (word_of_nat (length bs) :: u32) = length bs" using l by (simp add: unat_of_nat)
  have "read_exact N 4 s = (s\<lparr>st_in := bs @ rest\<rparr>, Ok (u32_be (word_of_nat (length bs))))"
    by (simp add: read_exact_def assms(3))
  moreover have "read_exact N (length bs) (s\<lparr>st_in := bs @ rest\<rparr>) = (s\<lparr>st_in := rest\<rparr>, Ok bs)"
    by (simp add: read_exact_def)
  ultimately show ?thesis using d l u
    by (simp add: read_frame_def u32_from_to_be MAX_TSS_MESSAGE_BYTES_def)
qed

text \<open>
  Claim C32. TCP round trip. If one end's \<open>send\<close> succeeds and the bytes it wrote reach the other
  end (after which anything may follow), the other end's \<open>receive\<close> returns exactly that envelope
  and leaves what follows, provided the envelope is authentic for its peer identity and the two
  ends expect the same session.
\<close>

theorem tcp_roundtrip:
  assumes "json_correct N" and "tcp_send N a e = (a', Ok ())" and "tt_stream a = Some sa"
    and "tt_stream a' = Some sa'" and "tt_authenticated b" and "tt_stream b = Some sb"
    and "st_out sa @ st_in sb = st_out sa' @ rest" and "tt_peer_identity b = Some peer"
    and "envelope_verify k e peer" and "tt_expected_session a = tt_expected_session b"
  shows "tcp_receive k N b = (b\<lparr>tt_stream := Some (sb\<lparr>st_in := rest\<rparr>)\<rparr>, Ok e)"
proof -
  have auth: "tt_authenticated a" and chk: "check_binding (tt_expected_session a) e = Ok ()"
      and w: "write_frame N e sa = (sa', Ok ())"
    using assms(2-4)
    by (auto simp: tcp_send_def split: if_splits res.splits prod.splits)
  from w obtain bs where bs: "encode_frame N e = Ok bs"
      "st_out sa' = st_out sa @ u32_be (word_of_nat (length bs)) @ bs"
    by (auto simp: write_frame_Ok)
  have "st_in sb = u32_be (word_of_nat (length bs)) @ bs @ rest"
    using assms(7) bs(2) by simp
  from read_frame_back [OF assms(1) bs(1) this]
  have "read_frame N sb = (sb\<lparr>st_in := rest\<rparr>, Ok e)" .
  with assms(5,6,8-10) chk show ?thesis
    by (simp add: tcp_receive_def)
qed

text \<open>A toy codec and network: one envelope, whose JSON text is a single byte.\<close>

definition toy_env :: "(unit, unit) net_env" where
  "toy_env = \<lparr>json_to_vec = (\<lambda>f. if f = \<lparr>fr_version = 1,
         fr_envelope = sample_envelope\<lparr>te_signature := Some (to_sign_bytes sample_envelope)\<rparr>\<rparr>
       then Ok [0x7B] else Err ''unsupported''),
     json_from_slice = (\<lambda>_. Ok \<lparr>fr_version = 1,
         fr_envelope = sample_envelope\<lparr>te_signature := Some (to_sign_bytes sample_envelope)\<rparr>\<rparr>),
     eof_text = ''early eof'', tcp_connect = (\<lambda>_. Ok \<lparr>st_in = [], st_out = [], st_write_error = None\<rparr>),
     tcp_bind = (\<lambda>_. Ok ()), tcp_accept = (\<lambda>_. Err ''refused'')\<rparr>"

definition signed_sample :: tss_envelope where
  "signed_sample = sample_envelope\<lparr>te_signature := Some (to_sign_bytes sample_envelope)\<rparr>"

definition sample_peer :: "unit participant_identity" where
  "sample_peer = identity_new 0 () (replicate 20 2) 1"

definition sample_session :: session_key where
  "sample_session = (replicate 32 1, replicate 20 2, 1)"

definition sample_tcp :: "bytes \<Rightarrow> bytes \<Rightarrow> (unit, unit, unit) tcp_transport" where
  "sample_tcp inp outp = (tcp_client () (Some sample_session) (Some sample_peer))
     \<lparr>tt_authenticated := True,
      tt_stream := Some \<lparr>st_in = inp, st_out = outp, st_write_error = None\<rparr>\<rparr>"

lemma toy_env_json: "json_correct toy_env"
  by (auto simp: json_correct_def toy_env_def)

lemma signed_sample_verifies: "envelope_verify toy_ecdsa signed_sample sample_peer"
  unfolding signed_sample_def sample_peer_def by (rule sample_envelope_toy_verifies)

lemma signed_sample_in_session: "in_session (Some sample_session) signed_sample"
  by (simp add: in_session_def sample_session_def signed_sample_def)

lemma encode_signed_sample: "encode_frame toy_env signed_sample = Ok [0x7B]"
  by (simp add: encode_frame_def toy_env_def FRAME_VERSION_def signed_sample_def
      MAX_TSS_MESSAGE_BYTES_def del: res_bind_Ok_iff)

lemma u32_be_one: "u32_be (word_of_nat (Suc 0)) = [0, 0, 0, 1]" "u32_be 1 = [0, 0, 0, 1]"
  by code_simp+

lemma sample_tcp_send:
  "tcp_send toy_env (sample_tcp [] []) signed_sample = (sample_tcp [] [0, 0, 0, 1, 0x7B], Ok ())"
proof -
  have "write_frame toy_env signed_sample \<lparr>st_in = [], st_out = [], st_write_error = None\<rparr>
      = (\<lparr>st_in = [], st_out = [0, 0, 0, 1, 0x7B], st_write_error = None\<rparr>, Ok ())"
    by (simp add: write_frame_Ok encode_signed_sample u32_be_one)
  moreover have "check_binding (Some sample_session) signed_sample = Ok ()"
    by (simp only: check_binding_Ok signed_sample_in_session)
  ultimately show ?thesis by (simp add: tcp_send_def sample_tcp_def tcp_client_def)
qed

theorem tcp_roundtrip_witness:
  "tcp_receive toy_ecdsa toy_env (sample_tcp [0, 0, 0, 1, 0x7B, 42] []) = (sample_tcp [42] [], Ok signed_sample)"
proof -
  have "tcp_receive toy_ecdsa toy_env (sample_tcp [0, 0, 0, 1, 0x7B, 42] [])
    = ((sample_tcp [0, 0, 0, 1, 0x7B, 42] [])\<lparr>tt_stream :=
        Some (\<lparr>st_in = [0, 0, 0, 1, 0x7B, 42], st_out = [], st_write_error = None\<rparr>\<lparr>st_in := [42]\<rparr>)\<rparr>,
       Ok signed_sample)"
    by (rule tcp_roundtrip [OF toy_env_json sample_tcp_send _ _ _ _ _ _ signed_sample_verifies,
          where sa = "\<lparr>st_in = [], st_out = [], st_write_error = None\<rparr>"
            and sa' = "\<lparr>st_in = [], st_out = [0, 0, 0, 1, 0x7B], st_write_error = None\<rparr>"])
      (simp_all add: sample_tcp_def tcp_client_def)
  then show ?thesis by (simp add: sample_tcp_def)
qed

section \<open>Received envelopes\<close>

lemma tcp_receive_signed:
  assumes "tcp_receive k N s = (s', Ok e)" and "tt_peer_identity s = Some peer"
    and "only_signed k (pi_key peer) (map to_sign_bytes sent)"
    and "list_all (\<lambda>e. envelope_wf e \<and> nul_free e) sent" and "envelope_wf e" and "nul_free e"
    and "tt_expected_session s = Some (sid, w, c)"
  shows "\<exists>e0 \<in> set sent. e\<lparr>te_signature := None\<rparr> = e0\<lparr>te_signature := None\<rparr>
    \<and> te_participant_id e0 = pi_id peer \<and> te_session_id e0 = sid \<and> te_wallet e0 = w
    \<and> te_chain_id e0 = c \<and> 1 \<le> unat (te_round e0) \<and> unat (te_round e0) \<le> 10"
proof -
  have v: "envelope_verify k e peer" and s: "in_session (Some (sid, w, c)) e"
    using assms(1,2,7) by (auto simp: tcp_receive_Ok)
  from envelope_verified_was_signed [OF assms(3-6) v] obtain e0
    where e0: "e0 \<in> set sent" "e\<lparr>te_signature := None\<rparr> = e0\<lparr>te_signature := None\<rparr>" by blast
  have "te_participant_id e0 = te_participant_id e \<and> te_session_id e0 = te_session_id e
      \<and> te_wallet e0 = te_wallet e \<and> te_chain_id e0 = te_chain_id e \<and> te_round e0 = te_round e"
    using e0(2) by (cases e; cases e0) simp
  moreover have "1 \<le> unat (te_round e)" "unat (te_round e) \<le> 10"
    using s by (auto simp: in_session_def Suc_le_eq unat_gt_0 word_le_nat_alt)
  ultimately show ?thesis using e0 s v by (auto simp: in_session_def envelope_verify_iff)
qed


lemma sample_tcp_receive:
  "tcp_receive toy_ecdsa toy_env (sample_tcp [0, 0, 0, 1, 0x7B] []) = (sample_tcp [] [], Ok signed_sample)"
proof -
  have "read_frame toy_env \<lparr>st_in = [0, 0, 0, 1, 0x7B], st_out = [], st_write_error = None\<rparr>
      = (\<lparr>st_in = [0, 0, 0, 1, 0x7B], st_out = [], st_write_error = None\<rparr>\<lparr>st_in := []\<rparr>, Ok signed_sample)"
    by (rule read_frame_back [OF toy_env_json encode_signed_sample])
      (simp add: u32_be_one)
  then show ?thesis
    using signed_sample_verifies signed_sample_in_session
    by (auto simp: tcp_receive_Ok sample_tcp_def tcp_client_def)
qed


text \<open>
  Over any run of operations on an in-memory transport, with envelopes arriving from
  the network in between, everything received is for the expected session, wallet and chain, and
  nothing is received before \<open>authenticate\<close>.
\<close>

theorem mem_transport_run_bound:
  "list_all (in_session (mt_expected_session s))
      (snd (transport_run mem_authenticate mem_send mem_receive mem_network s ops))
   \<and> (\<not> mt_authenticated s \<and> list_all (\<lambda>op. \<forall>i. op \<noteq> OpAuthenticate i) ops \<longrightarrow>
        snd (transport_run mem_authenticate mem_send mem_receive mem_network s ops) = [])"
  using mem_net.run_bound mem_net.run_silent by blast

definition fresh_mem :: mem_transport where
  "fresh_mem = fst (mem_with_session (replicate 32 1) (replicate 20 2) 1)"

theorem mem_transport_run_bound_witness:
  "snd (transport_run mem_authenticate mem_send mem_receive mem_network fresh_mem
     [OpNetwork signed_sample, OpReceive :: (unit participant_identity, tss_envelope) transport_op]) = []"
  by (rule mem_transport_run_bound [THEN conjunct2, rule_format])
    (simp add: fresh_mem_def mem_with_session_def mem_pair_def Let_def)

text \<open>
  What reception does not check. The digest and the protocol version of an envelope are
  compared with themselves, and the in-memory transport verifies no signature: two envelopes with
  the same session, wallet, chain and round are received alike, whatever their digests,
  versions, senders, payloads and signatures.
\<close>

theorem mem_receive_unauthenticated:
  assumes "te_session_id e = te_session_id f" and "te_wallet e = te_wallet f"
    and "te_chain_id e = te_chain_id f" and "te_round e = te_round f"
  shows "snd (mem_receive (s\<lparr>mt_rx := e # es\<rparr>)) = Some (Ok e)
    \<longleftrightarrow> snd (mem_receive (s\<lparr>mt_rx := f # es\<rparr>)) = Some (Ok f)"
  using assms by (cases "mt_expected_session s") (auto simp: mem_receive_Ok in_session_def)

theorem mem_receive_unauthenticated_witness:
  "snd (mem_receive (fresh_mem\<lparr>mt_authenticated := True, mt_rx := [sample_envelope
       \<lparr>te_digest := replicate 32 0xEE, te_protocol_version := ''evil/v0'', te_payload := [6, 6, 6],
        te_signature := None\<rparr>]\<rparr>))
   = Some (Ok (sample_envelope
       \<lparr>te_digest := replicate 32 0xEE, te_protocol_version := ''evil/v0'', te_payload := [6, 6, 6],
        te_signature := None\<rparr>))"
proof -
  let ?s = "fresh_mem\<lparr>mt_authenticated := True\<rparr>"
  have "snd (mem_receive (?s\<lparr>mt_rx := [signed_sample]\<rparr>)) = Some (Ok signed_sample)"
    using signed_sample_in_session
    by (simp add: mem_receive_Ok fresh_mem_def mem_with_session_def mem_pair_def Let_def sample_session_def)
  then have "snd (mem_receive (?s\<lparr>mt_rx := [f]\<rparr>)) = Some (Ok f)"
    if "te_session_id f = te_session_id signed_sample" "te_wallet f = te_wallet signed_sample"
      "te_chain_id f = te_chain_id signed_sample" "te_round f = te_round signed_sample" for f
    using mem_receive_unauthenticated [OF that, where s = ?s and es = "[]"] by blast
  then show ?thesis by (rule trans [rotated]) (simp_all add: signed_sample_def)
qed

end
