(* ===== verification/Network_Pair.thy ===== *)
theory Network_Pair
  imports Network_Safety
begin

text \<open>
  The two ends of an in-memory channel together (\<open>InMemoryAuthenticatedTransport::pair\<close> and
  \<open>with_session\<close> of \<open>crates/keymesh-tss/src/network.rs\<close>): a labelled step relation that interleaves the
  calls of both ends in any order, with a receive that waits having no step, and the drop of an end.
  Shown: delivery is first in first out and exactly once, whatever the interleaving, and a
  pending envelope can always be taken.
\<close>

section \<open>The pair as a transition system\<close>

datatype side = EndA | EndB

primrec other :: "side \<Rightarrow> side" where
  "other EndA = EndB"
| "other EndB = EndA"

primrec end_of :: "side \<Rightarrow> mem_transport \<times> mem_transport \<Rightarrow> mem_transport" where
  "end_of EndA p = fst p"
| "end_of EndB p = snd p"

primrec put_end :: "side \<Rightarrow> mem_transport \<Rightarrow> mem_transport \<times> mem_transport \<Rightarrow> mem_transport \<times> mem_transport" where
  "put_end EndA x p = (x, snd p)"
| "put_end EndB x p = (fst p, x)"

text \<open>An end is alive until it is dropped, which its peer sees as a closed channel.\<close>

definition alive :: "side \<Rightarrow> mem_transport \<times> mem_transport \<Rightarrow> bool" where
  "alive x p \<longleftrightarrow> mt_peer_open (end_of (other x) p)"

definition drop_end :: "side \<Rightarrow> mem_transport \<times> mem_transport \<Rightarrow> mem_transport \<times> mem_transport" where
  "drop_end x p = put_end (other x) ((end_of (other x) p)\<lparr>mt_peer_open := False\<rparr>) p"

text \<open>Authentication ignores the identity it is given; its key is taken by its encoding here.\<close>

datatype pair_label =
    PAuthenticate side "bytes participant_identity"
  | PSend side tss_envelope "(string, unit) res"
  | PReceive side "(string, tss_envelope) res"
  | PDrop side

inductive pair_step ::
  "mem_transport \<times> mem_transport \<Rightarrow> pair_label \<Rightarrow> mem_transport \<times> mem_transport \<Rightarrow> bool" where
  authenticate: "alive x p \<Longrightarrow>
    pair_step p (PAuthenticate x i) (put_end x (fst (mem_authenticate (end_of x p) i)) p)"
| send: "alive x p \<Longrightarrow> mem_send (end_of x p) e = (t, r) \<Longrightarrow>
    pair_step p (PSend x e r) (mem_exchange (put_end x t p))"
| receive: "alive x p \<Longrightarrow> mem_receive (end_of x p) = (t, Some r) \<Longrightarrow>
    pair_step p (PReceive x r) (put_end x t p)"
| drop_one: "alive x p \<Longrightarrow> pair_step p (PDrop x) (drop_end x p)"

code_pred (modes: i \<Rightarrow> i \<Rightarrow> o \<Rightarrow> bool) pair_step .

inductive_cases pair_step_authenticate: "pair_step p (PAuthenticate x i) q"
inductive_cases pair_step_send: "pair_step p (PSend x e r) q"
inductive_cases pair_step_receive: "pair_step p (PReceive x r) q"
inductive_cases pair_step_drop: "pair_step p (PDrop x) q"

inductive pair_trace ::
  "mem_transport \<times> mem_transport \<Rightarrow> pair_label list \<Rightarrow> mem_transport \<times> mem_transport \<Rightarrow> bool" for p0 where
  start: "pair_trace p0 [] p0"
| extend: "pair_trace p0 ls p \<Longrightarrow> pair_step p l q \<Longrightarrow> pair_trace p0 (ls @ [l]) q"

section \<open>What a trace sent and delivered\<close>

fun sent_by :: "side \<Rightarrow> pair_label list \<Rightarrow> tss_envelope list" where
  "sent_by x [] = []"
| "sent_by x (PSend y e r # ls) = (if y = x \<and> r = Ok () then e # sent_by x ls else sent_by x ls)"
| "sent_by x (l # ls) = sent_by x ls"

text \<open>The results of the receives that took an envelope off the channel, accepted or not.\<close>

fun deliveries :: "side \<Rightarrow> pair_label list \<Rightarrow> (string, tss_envelope) res list" where
  "deliveries x [] = []"
| "deliveries x (PReceive y r # ls) =
     (if y = x \<and> r \<notin> {Err ''not authenticated'', Err ''channel closed''}
      then r # deliveries x ls else deliveries x ls)"
| "deliveries x (l # ls) = deliveries x ls"

lemma sent_by_append [simp]: "sent_by x (ls @ ls') = sent_by x ls @ sent_by x ls'"
  by (induction x ls rule: sent_by.induct) auto

lemma deliveries_append [simp]: "deliveries x (ls @ ls') = deliveries x ls @ deliveries x ls'"
  by (induction x ls rule: deliveries.induct) auto

definition checked :: "session_key option \<Rightarrow> tss_envelope \<Rightarrow> (string, tss_envelope) res" where
  "checked key e = res_bind (check_binding key e) (\<lambda>_. Ok e)"

lemma checked_Ok: "checked key e = Ok e' \<longleftrightarrow> e' = e \<and> in_session key e"
  by (auto simp: checked_def check_binding_Ok)

lemma checked_delivered: "checked key e \<notin> {Err ''not authenticated'', Err ''channel closed''}"
proof (cases key)
  case None
  then show ?thesis by (simp add: checked_def check_binding_def)
next
  case (Some k)
  obtain sid w c where "key = Some (sid, w, c)" using Some by (cases k) auto
  then show ?thesis
    by (cases "validate_against e sid w c (te_digest e) (te_protocol_version e)")
      (auto simp: checked_def check_binding_def)
qed

lemma accepted_checked:
  "List.map_filter ok_of (map (checked key) es) = filter (in_session key) es"
proof (induction es)
  case Nil
  then show ?case by (simp add: List.map_filter_def)
next
  case (Cons e es)
  have "ok_of (checked key e) = (if in_session key e then Some e else None)"
    using checked_Ok [of key e] by (cases "checked key e") auto
  with Cons show ?case by (simp add: map_filter_simps)
qed

lemma side_simps [simp]:
  "other (other x) = x" "other x \<noteq> x" "x \<noteq> other x"
  "end_of x (put_end x t p) = t" "end_of (other x) (put_end x t p) = end_of (other x) p"
  "end_of x (put_end (other x) t p) = end_of x p"
  by (cases x; simp)+

lemma side_cases: "y = x \<or> y = other x"
  by (cases x; cases y) auto

lemma end_of_exchange:
  "end_of x (mem_exchange p) = (end_of x p)\<lparr>mt_tx := [], mt_rx := mt_rx (end_of x p) @ mt_tx (end_of (other x) p)\<rparr>"
  by (cases x; cases p) (auto simp: mem_exchange_def)

section \<open>First in, first out, exactly once\<close>

text \<open>What holds of an end after a trace: the envelopes sent to it are those it took and those it holds.\<close>

definition channel_inv ::
  "session_key option \<Rightarrow> pair_label list \<Rightarrow> mem_transport \<times> mem_transport \<Rightarrow> side \<Rightarrow> bool" where
  "channel_inv key ls p x \<longleftrightarrow>
     mt_tx (end_of x p) = [] \<and> mt_expected_session (end_of x p) = key
     \<and> (\<exists>taken. sent_by (other x) ls = taken @ mt_rx (end_of x p) \<and> deliveries x ls = map (checked key) taken)"

lemma channel_inv_send:
  assumes inv: "\<And>x. channel_inv key ls p x" and s: "mem_send (end_of y p) e = (t, r)"
  shows "channel_inv key (ls @ [PSend y e r]) (mem_exchange (put_end y t p)) x"
proof -
  have t: "mt_tx t = (if r = Ok () then [e] else [])" "mt_rx t = mt_rx (end_of y p)"
      "mt_expected_session t = key"
    using s inv [of y] by (auto simp: mem_send_def channel_inv_def split: if_splits)
  from side_cases [of x y] show ?thesis
  proof
    assume "x = y"
    with t inv [of y] inv [of "other y"] show ?thesis by (simp add: channel_inv_def end_of_exchange)
  next
    assume x: "x = other y"
    from inv [of "other y"] obtain taken where "sent_by y ls = taken @ mt_rx (end_of (other y) p)"
        "deliveries (other y) ls = map (checked key) taken" "mt_expected_session (end_of (other y) p) = key"
      by (auto simp: channel_inv_def)
    with x t show ?thesis by (auto simp: channel_inv_def end_of_exchange)
  qed
qed

lemma channel_inv_receive:
  assumes inv: "\<And>x. channel_inv key ls p x" and s: "mem_receive (end_of y p) = (t, Some r)"
  shows "channel_inv key (ls @ [PReceive y r]) (put_end y t p) x"
proof -
  from side_cases [of x y] show ?thesis
  proof
    assume x: "x = y"
    from inv [of y] obtain taken where i: "mt_tx (end_of y p) = []" "mt_expected_session (end_of y p) = key"
        "sent_by (other y) ls = taken @ mt_rx (end_of y p)" "deliveries y ls = map (checked key) taken"
      by (auto simp: channel_inv_def)
    show ?thesis
    proof (cases "mt_authenticated (end_of y p) \<and> mt_rx (end_of y p) \<noteq> []")
      case True
      then obtain e es where rx: "mt_rx (end_of y p) = e # es" by (cases "mt_rx (end_of y p)") auto
      with s True i have "r = checked key e" "t = (end_of y p)\<lparr>mt_rx := es\<rparr>"
        by (auto simp: mem_receive_def checked_def)
      with i rx x checked_delivered [of key e] show ?thesis
        by (auto simp: channel_inv_def intro!: exI [of _ "taken @ [e]"])
    next
      case False
      with s have "t = end_of y p \<and> r \<in> {Err ''not authenticated'', Err ''channel closed''}"
        by (auto simp: mem_receive_def split: if_splits list.splits)
      with i x show ?thesis by (auto simp: channel_inv_def)
    qed
  next
    assume "x = other y"
    with inv [of "other y"] show ?thesis by (simp add: channel_inv_def)
  qed
qed

lemma channel_inv_quiet:
  assumes "channel_inv key ls p x" and "sent_by (other x) [l] = []" "deliveries x [l] = []"
    and "mt_tx (end_of x q) = mt_tx (end_of x p)" "mt_rx (end_of x q) = mt_rx (end_of x p)"
      "mt_expected_session (end_of x q) = mt_expected_session (end_of x p)"
  shows "channel_inv key (ls @ [l]) q x"
  using assms by (simp add: channel_inv_def)

lemma channel_inv_step:
  assumes inv: "\<And>x. channel_inv key ls p x" and s: "pair_step p l q"
  shows "channel_inv key (ls @ [l]) q x"
  using s
proof cases
  case (authenticate y i)
  then show ?thesis using side_cases [of x y]
    by (intro channel_inv_quiet [OF inv]) (auto simp: mem_authenticate_def)
next
  case (send y e t r)
  then show ?thesis using channel_inv_send [OF inv] by blast
next
  case (receive y t r)
  then show ?thesis using channel_inv_receive [OF inv] by blast
next
  case (drop_one y)
  then show ?thesis using side_cases [of x y]
    by (intro channel_inv_quiet [OF inv]) (auto simp: drop_end_def)
qed

definition fresh_pair :: "session_key option \<Rightarrow> mem_transport \<times> mem_transport" where
  "fresh_pair key = (case key of None \<Rightarrow> mem_pair | Some (sid, w, c) \<Rightarrow> mem_with_session sid w c)"

lemma fresh_pair_end: "end_of x (fresh_pair key) = \<lparr>mt_tx = [], mt_rx = [], mt_peer_open = True,
    mt_authenticated = False, mt_expected_session = key\<rparr>"
  by (cases x) (auto simp: fresh_pair_def mem_pair_def mem_with_session_def Let_def split: option.split)

lemma channel_inv_trace: "pair_trace (fresh_pair key) ls p \<Longrightarrow> channel_inv key ls p x"
proof (induction arbitrary: x rule: pair_trace.induct)
  case start
  then show ?case by (simp add: channel_inv_def fresh_pair_end)
next
  case (extend ls p l q)
  then show ?case by (intro channel_inv_step)
qed


text \<open>Two authenticated ends without a session, with envelopes pending for the second one.\<close>

definition with_pending :: "tss_envelope list \<Rightarrow> mem_transport \<times> mem_transport" where
  "with_pending es =
     (\<lparr>mt_tx = [], mt_rx = [], mt_peer_open = True, mt_authenticated = True, mt_expected_session = None\<rparr>,
      \<lparr>mt_tx = [], mt_rx = es, mt_peer_open = True, mt_authenticated = True, mt_expected_session = None\<rparr>)"

lemma pending_send: "pair_step (with_pending es) (PSend EndA e (Ok ())) (with_pending (es @ [e]))"
  using pair_step.send [of EndA "with_pending es" e "(fst (with_pending es))\<lparr>mt_tx := [e]\<rparr>" "Ok ()"]
  by (simp add: with_pending_def alive_def mem_send_def mem_exchange_def)

lemma pending_receive: "pair_step (with_pending (e # es)) (PReceive EndB (Ok e)) (with_pending es)"
  using pair_step.receive [of EndB "with_pending (e # es)" "snd (with_pending es)" "Ok e"]
  by (simp add: with_pending_def alive_def mem_receive_def check_binding_def)

text \<open>Two envelopes are sent, the first one is received, and one is pending.\<close>

definition two_sent :: "pair_label list" where
  "two_sent = [PAuthenticate EndA (identity_new 0 [7] [] 1), PAuthenticate EndB (identity_new 1 [8] [] 1),
     PSend EndA sample_envelope (Ok ()), PSend EndA signed_sample (Ok ()),
     PReceive EndB (Ok sample_envelope)]"

definition after_two :: "mem_transport \<times> mem_transport" where
  "after_two = with_pending [signed_sample]"

lemma trace_snoc: "pair_trace p0 (butlast ls) p \<Longrightarrow> pair_step p (last ls) q \<Longrightarrow> ls \<noteq> [] \<Longrightarrow> pair_trace p0 ls q"
  using pair_trace.extend [of p0 "butlast ls" p "last ls" q] by simp

lemma two_sent_trace: "pair_trace (fresh_pair None) two_sent after_two"
proof -
  have p: "pair_trace (fresh_pair None) [PAuthenticate EndA (identity_new 0 [7] [] 1),
      PAuthenticate EndB (identity_new 1 [8] [] 1)] (with_pending [])"
    by (rule trace_snoc, simp, rule trace_snoc, simp, rule pair_trace.start)
      (auto simp: pair_step.simps alive_def fresh_pair_def mem_pair_def mem_authenticate_def
        with_pending_def Let_def)
  have "pair_trace (fresh_pair None) (take 4 two_sent) (with_pending [sample_envelope, signed_sample])"
    using pair_trace.extend [OF pair_trace.extend [OF p pending_send [of "[]" sample_envelope]]
        pending_send [of _ signed_sample]]
    by (simp add: two_sent_def)
  from pair_trace.extend [OF this pending_receive [of sample_envelope "[signed_sample]", simplified]]
  show ?thesis by (simp add: two_sent_def after_two_def del: split_paired_Ex)
qed


text \<open>
  Receiving makes progress. In every state that two ends can reach, a live and
  authenticated end with a pending envelope can take exactly the oldest one, and cannot do
  anything else by receiving; it waits precisely when nothing is pending and its peer is alive, and then a
  send of the peer, once authenticated, makes it able to go on.
\<close>

theorem channel_progress:
  assumes "pair_trace (fresh_pair key) ls p" and "alive x p" and "mt_authenticated (end_of x p)"
  shows "(case mt_rx (end_of x p) of
      e # es \<Rightarrow> (\<forall>r. (\<exists>q. pair_step p (PReceive x r) q) \<longleftrightarrow> r = checked key e)
    | [] \<Rightarrow> ((\<exists>r q. pair_step p (PReceive x r) q) \<longleftrightarrow> \<not> alive (other x) p)
        \<and> (alive (other x) p \<and> mt_authenticated (end_of (other x) p) \<longrightarrow>
            (\<exists>q. pair_step p (PSend (other x) e' (Ok ())) q
              \<and> (\<exists>q'. pair_step q (PReceive x (checked key e')) q'))))"
proof (cases "mt_rx (end_of x p)")
  case (Cons e es)
  have "mt_expected_session (end_of x p) = key"
    using channel_inv_trace [OF assms(1), of x] by (simp add: channel_inv_def)
  then have m: "mem_receive (end_of x p) = ((end_of x p)\<lparr>mt_rx := es\<rparr>, Some (checked key e))"
    using assms(3) Cons by (simp add: mem_receive_def checked_def)
  have "\<exists>q. pair_step p (PReceive x (checked key e)) q" by (rule exI, rule pair_step.receive [OF assms(2) m])
  moreover have "r = checked key e" if "pair_step p (PReceive x r) q" for r q
    using that m by cases simp
  ultimately show ?thesis unfolding Cons list.case by blast
next
  case Nil
  have i: "mt_tx (end_of y p) = []" "mt_expected_session (end_of y p) = key" for y
    using channel_inv_trace [OF assms(1), of y] by (auto simp: channel_inv_def)
  have blocked: "(\<exists>r q. pair_step p (PReceive x r) q) \<longleftrightarrow> \<not> alive (other x) p"
  proof
    assume "\<exists>r q. pair_step p (PReceive x r) q"
    then show "\<not> alive (other x) p" using assms(3) Nil by (auto simp: mem_receive_def alive_def elim: pair_step_receive)
  next
    assume "\<not> alive (other x) p"
    then have "mem_receive (end_of x p) = (end_of x p, Some (Err ''channel closed''))"
      using assms(3) Nil by (simp add: mem_receive_def alive_def)
    from pair_step.receive [OF assms(2) this] show "\<exists>r q. pair_step p (PReceive x r) q" by blast
  qed
  let ?t = "(end_of (other x) p)\<lparr>mt_tx := [e']\<rparr>"
  let ?q = "mem_exchange (put_end (other x) ?t p)"
  have "\<exists>q. pair_step p (PSend (other x) e' (Ok ())) q
      \<and> (\<exists>q'. pair_step q (PReceive x (checked key e')) q')"
    if a: "alive (other x) p" "mt_authenticated (end_of (other x) p)"
  proof (intro exI conjI)
    have "mem_send (end_of (other x) p) e' = (?t, Ok ())"
      using a(2) assms(2) i by (simp add: mem_send_def alive_def)
    then show "pair_step p (PSend (other x) e' (Ok ())) ?q" by (rule pair_step.send [OF a(1)])
    have "mem_receive (end_of x ?q) = ((end_of x ?q)\<lparr>mt_rx := []\<rparr>, Some (checked key e'))"
      using assms(3) Nil i by (simp add: mem_receive_def end_of_exchange checked_def)
    moreover have "alive x ?q" using assms(2) by (simp add: alive_def end_of_exchange)
    ultimately show "pair_step ?q (PReceive x (checked key e')) (put_end x ((end_of x ?q)\<lparr>mt_rx := []\<rparr>) ?q)"
      by (intro pair_step.receive)
  qed
  with Nil blocked show ?thesis by simp
qed

theorem channel_progress_witness:
  "\<exists>q. pair_step after_two (PReceive EndB (Ok signed_sample)) q"
proof -
  have "alive EndB after_two" "mt_authenticated (end_of EndB after_two)"
    by (simp_all add: alive_def after_two_def with_pending_def)
  from channel_progress [OF two_sent_trace this]
  have "\<forall>r. (\<exists>q. pair_step after_two (PReceive EndB r) q) \<longleftrightarrow> r = checked None signed_sample"
    by (simp add: after_two_def with_pending_def del: split_paired_Ex)
  then show ?thesis by (simp add: checked_def check_binding_def del: split_paired_Ex)
qed

end
