(* ===== verification/Storage.thy ===== *)
theory Storage
  imports Prelude
begin

text \<open>
  Encrypted share storage (\<open>crates/keymesh-tss/src/storage.rs\<close>): one file per participant, holding
  a random nonce and the ciphertext of the share. The cipher and the hash are parameters, and so
  are the random nonces. The disk is a map from paths to files, with the errors that opening,
  removing and changing the mode of a path give. A failing write is one that fails to open.
\<close>

datatype storage_error = StorageIo string | StorageCrypto string | StoragePermission string

record aead =
  aead_encrypt :: "bytes \<Rightarrow> bytes \<Rightarrow> bytes \<Rightarrow> (string, bytes) res"
  aead_decrypt :: "bytes \<Rightarrow> bytes \<Rightarrow> bytes \<Rightarrow> (string, bytes) res"
  sha256 :: "bytes \<Rightarrow> bytes"

text \<open>The documented behaviour of the cipher: what is encrypted decrypts to itself.\<close>

definition aead_correct :: "aead \<Rightarrow> bool" where
  "aead_correct A \<longleftrightarrow> (\<forall>k n m c. aead_encrypt A k n m = Ok c \<longrightarrow> aead_decrypt A k n c = Ok m)"

record disk_file =
  df_content :: bytes
  df_mode :: nat

record disk =
  dk_files :: "string \<Rightarrow> disk_file option"
  dk_write_error :: "string \<Rightarrow> string option"
  dk_remove_error :: "string \<Rightarrow> string option"
  dk_missing_text :: string
  dk_default_mode :: nat
  dk_chmod_works :: bool

definition fs_write :: "disk \<Rightarrow> string \<Rightarrow> bytes \<Rightarrow> disk \<times> (string, unit) res" where
  "fs_write D p content =
     (case dk_write_error D p of
        Some e \<Rightarrow> (D, Err e)
      | None \<Rightarrow>
          (D\<lparr>dk_files := (dk_files D)(p \<mapsto>
             \<lparr>df_content = content,
              df_mode = (case dk_files D p of None \<Rightarrow> dk_default_mode D | Some f \<Rightarrow> df_mode f)\<rparr>)\<rparr>,
           Ok ()))"

definition fs_set_mode :: "disk \<Rightarrow> string \<Rightarrow> nat \<Rightarrow> disk" where
  "fs_set_mode D p mode =
     (case dk_files D p of
        None \<Rightarrow> D
      | Some f \<Rightarrow> if dk_chmod_works D then D\<lparr>dk_files := (dk_files D)(p \<mapsto> f\<lparr>df_mode := mode\<rparr>)\<rparr> else D)"

definition fs_read :: "disk \<Rightarrow> string \<Rightarrow> (string, bytes) res" where
  "fs_read D p = (case dk_files D p of None \<Rightarrow> Err (dk_missing_text D) | Some f \<Rightarrow> Ok (df_content f))"

definition fs_remove :: "disk \<Rightarrow> string \<Rightarrow> disk \<times> (string, unit) res" where
  "fs_remove D p =
     (case dk_remove_error D p of
        Some e \<Rightarrow> (D, Err e)
      | None \<Rightarrow>
          (case dk_files D p of
             None \<Rightarrow> (D, Err (dk_missing_text D))
           | Some f \<Rightarrow> (D\<lparr>dk_files := (dk_files D)(p := None)\<rparr>, Ok ())))"

definition path_join :: "string \<Rightarrow> string \<Rightarrow> string" where
  "path_join dir name =
     (if dir = [] \<or> last dir = CHR ''/'' then dir @ name else dir @ ''/'' @ name)"

record encrypted_share_store =
  es_path :: string
  es_key :: bytes

definition share_store_new :: "aead \<Rightarrow> string \<Rightarrow> string \<Rightarrow> encrypted_share_store" where
  "share_store_new A path passphrase =
     \<lparr>es_path = path, es_key = take 32 (sha256 A (str_bytes passphrase))\<rparr>"

definition path_for :: "encrypted_share_store \<Rightarrow> u8 \<Rightarrow> string" where
  "path_for S i = path_join (es_path S) (''share-'' @ show_nat (unat i) @ ''.enc'')"

definition share_store ::
  "aead \<Rightarrow> encrypted_share_store \<Rightarrow> disk \<Rightarrow> u8 \<Rightarrow> bytes \<Rightarrow> bytes \<Rightarrow> disk \<times> (storage_error, unit) res" where
  "share_store A S D i nonce data =
     (case aead_encrypt A (es_key S) nonce data of
        Err e \<Rightarrow> (D, Err (StorageCrypto e))
      | Panic \<Rightarrow> (D, Panic)
      | Ok ciphertext \<Rightarrow>
          (case fs_write D (path_for S i) (nonce @ ciphertext) of
             (D', Err e) \<Rightarrow> (D', Err (StorageIo e))
           | (D', Panic) \<Rightarrow> (D', Panic)
           | (D', Ok _) \<Rightarrow> (fs_set_mode D' (path_for S i) 384, Ok ())))"

definition share_load ::
  "aead \<Rightarrow> encrypted_share_store \<Rightarrow> disk \<Rightarrow> u8 \<Rightarrow> (storage_error, bytes) res" where
  "share_load A S D i =
     res_bind (map_err StorageIo (fs_read D (path_for S i))) (\<lambda>blob.
       if length blob < 12 then Err (StorageCrypto ''blob too short'')
       else map_err StorageCrypto (aead_decrypt A (es_key S) (take 12 blob) (drop 12 blob)))"

definition share_delete ::
  "encrypted_share_store \<Rightarrow> disk \<Rightarrow> u8 \<Rightarrow> disk \<times> (storage_error, unit) res" where
  "share_delete S D i =
     (let p = path_for S i in
       case dk_files D p of
         None \<Rightarrow> (D, Ok ())
       | Some f \<Rightarrow>
           let D' = fst (fs_write D p (replicate (length (df_content f)) 0)) in
           (case fs_remove D' p of
              (D'', Err e) \<Rightarrow> (D'', Err (StorageIo e))
            | (D'', Panic) \<Rightarrow> (D'', Panic)
            | (D'', Ok _) \<Rightarrow> (D'', Ok ())))"

section \<open>The store as a map\<close>

datatype ('r, 'd) store_op = StoreOp u8 'r 'd | DeleteOp u8

primrec store_op_ok :: "('r \<Rightarrow> bool) \<Rightarrow> ('r, 'd) store_op \<Rightarrow> bool" where
  "store_op_ok good (StoreOp i r d) = good r"
| "store_op_ok good (DeleteOp i) = True"

primrec spec_store_op :: "(u8 \<Rightarrow> 'd option) \<Rightarrow> ('r, 'd) store_op \<Rightarrow> (u8 \<Rightarrow> 'd option)" where
  "spec_store_op M (StoreOp i r d) = M(i \<mapsto> d)"
| "spec_store_op M (DeleteOp i) = M(i := None)"

text \<open>Runs the operations in order; a failing one ends the run.\<close>

fun store_run ::
  "('s \<Rightarrow> u8 \<Rightarrow> 'r \<Rightarrow> 'd \<Rightarrow> 's \<times> ('e, unit) res) \<Rightarrow> ('s \<Rightarrow> u8 \<Rightarrow> 's \<times> ('e, unit) res)
   \<Rightarrow> 's \<Rightarrow> ('r, 'd) store_op list \<Rightarrow> ('e, 's) res" where
  "store_run st del s [] = Ok s"
| "store_run st del s (StoreOp i r d # ops) =
     (let (s', x) = st s i r d in res_bind x (\<lambda>_. store_run st del s' ops))"
| "store_run st del s (DeleteOp i # ops) =
     (let (s', x) = del s i in res_bind x (\<lambda>_. store_run st del s' ops))"

text \<open>Tries every operation in order and goes on from the state that each call leaves, failed or not.\<close>

primrec store_op_seat :: "('r, 'd) store_op \<Rightarrow> u8" where
  "store_op_seat (StoreOp i r d) = i"
| "store_op_seat (DeleteOp i) = i"

primrec store_attempt ::
  "('s \<Rightarrow> u8 \<Rightarrow> 'r \<Rightarrow> 'd \<Rightarrow> 's \<times> ('e, unit) res) \<Rightarrow> ('s \<Rightarrow> u8 \<Rightarrow> 's \<times> ('e, unit) res)
   \<Rightarrow> 's \<Rightarrow> ('r, 'd) store_op \<Rightarrow> 's" where
  "store_attempt st del s (StoreOp i r d) = fst (st s i r d)"
| "store_attempt st del s (DeleteOp i) = fst (del s i)"

definition store_attempts ::
  "('s \<Rightarrow> u8 \<Rightarrow> 'r \<Rightarrow> 'd \<Rightarrow> 's \<times> ('e, unit) res) \<Rightarrow> ('s \<Rightarrow> u8 \<Rightarrow> 's \<times> ('e, unit) res)
   \<Rightarrow> 's \<Rightarrow> ('r, 'd) store_op list \<Rightarrow> 's" where
  "store_attempts st del = foldl (store_attempt st del)"

locale share_map =
  fixes st :: "'s \<Rightarrow> u8 \<Rightarrow> 'r \<Rightarrow> 'd \<Rightarrow> 's \<times> ('e, unit) res"
    and del :: "'s \<Rightarrow> u8 \<Rightarrow> 's \<times> ('e, unit) res"
    and ld :: "'s \<Rightarrow> u8 \<Rightarrow> ('e, 'd) res"
    and good :: "'r \<Rightarrow> bool"
    and sound :: bool
  assumes stored: "sound \<Longrightarrow> good r \<Longrightarrow> st s i r d = (s', Ok ()) \<Longrightarrow> ld s' i = Ok d"
    and stored_other: "i \<noteq> j \<Longrightarrow> ld (fst (st s i r d)) j = ld s j"
    and deleted: "del s i = (s', Ok ()) \<Longrightarrow> \<not> is_ok (ld s' i)"
    and deleted_other: "i \<noteq> j \<Longrightarrow> ld (fst (del s i)) j = ld s j"
begin

lemma run_refines:
  assumes "sound" and "list_all (store_op_ok good) ops" and "store_run st del s ops = Ok s'"
    and "\<And>i. ok_of (ld s i) = M i"
  shows "ok_of (ld s' i) = foldl spec_store_op M ops i"
  using assms(2-)
proof (induction ops arbitrary: s M)
  case Nil
  then show ?case by simp
next
  case (Cons op ops)
  show ?case
  proof (cases op)
    case (StoreOp j r d)
    obtain s1 x where x: "st s j r d = (s1, x)" by (cases "st s j r d")
    with Cons.prems StoreOp have ok: "x = Ok ()" "store_run st del s1 ops = Ok s'" "good r" by auto
    have "ok_of (ld s1 k) = (M(j \<mapsto> d)) k" for k
      using stored [OF assms(1) ok(3), of s j d s1] stored_other [of j k s r d] x ok(1) Cons.prems(3)
      by (cases "k = j") auto
    from Cons.IH [OF _ ok(2) this] Cons.prems(1) StoreOp show ?thesis by (simp add: fun_upd_def)
  next
    case (DeleteOp j)
    obtain s1 x where x: "del s j = (s1, x)" by (cases "del s j")
    with Cons.prems DeleteOp have ok: "x = Ok ()" "store_run st del s1 ops = Ok s'" by auto
    have "ok_of (ld s1 k) = (M(j := None)) k" for k
      using deleted [of s j s1] deleted_other [of j k s] x ok(1) Cons.prems(3)
      by (cases "k = j"; cases "ld s1 j") auto
    from Cons.IH [OF _ ok(2) this] Cons.prems(1) DeleteOp show ?thesis by (simp add: fun_upd_def)
  qed
qed

text \<open>Attempts, failed ones included: the state goes on from whatever a failing call leaves.\<close>

lemma attempts_frame:
  assumes "\<forall>op \<in> set ops. store_op_seat op \<noteq> j"
  shows "ld (store_attempts st del s ops) j = ld s j"
  using assms
proof (induction ops arbitrary: s)
  case Nil
  then show ?case by (simp add: store_attempts_def)
next
  case (Cons op ops)
  then show ?case
    by (cases op) (auto simp: store_attempts_def stored_other deleted_other)
qed

end

lemma path_for_inject [simp]: "path_for S i = path_for S j \<longleftrightarrow> i = j"
  by (auto simp: path_for_def path_join_def word_unat_eq_iff)

lemma fs_write_other: "p \<noteq> q \<Longrightarrow> dk_files (fst (fs_write D p c)) q = dk_files D q"
  by (simp add: fs_write_def split: option.split)

lemma fs_write_missing_text [simp]: "dk_missing_text (fst (fs_write D p c)) = dk_missing_text D"
  by (simp add: fs_write_def split: option.split)

lemma fs_set_mode_content:
  "map_option df_content (dk_files (fs_set_mode D p m) q) = map_option df_content (dk_files D q)"
  by (auto simp: fs_set_mode_def split: option.split)

lemma fs_set_mode_missing_text [simp]: "dk_missing_text (fs_set_mode D p m) = dk_missing_text D"
  by (auto simp: fs_set_mode_def split: option.split)

lemma fs_read_alt: "fs_read D p =
    (case map_option df_content (dk_files D p) of None \<Rightarrow> Err (dk_missing_text D) | Some c \<Rightarrow> Ok c)"
  by (simp add: fs_read_def split: option.split)

lemma share_store_disk:
  "share_store A S D i nonce data = (D', Ok ()) \<longleftrightarrow>
     (\<exists>c. aead_encrypt A (es_key S) nonce data = Ok c \<and> dk_write_error D (path_for S i) = None
       \<and> D' = fs_set_mode (fst (fs_write D (path_for S i) (nonce @ c))) (path_for S i) 384)"
  by (auto simp: share_store_def fs_write_def split: res.splits option.splits)

lemma share_store_read_other:
  assumes "i \<noteq> j"
  shows "fs_read (fst (share_store A S D i nonce data)) (path_for S j) = fs_read D (path_for S j)"
proof -
  have "map_option df_content (dk_files (fst (share_store A S D i nonce data)) (path_for S j))
      = map_option df_content (dk_files D (path_for S j))
    \<and> dk_missing_text (fst (share_store A S D i nonce data)) = dk_missing_text D"
    using assms by (auto simp: share_store_def fs_write_def fs_set_mode_content
        split: res.split option.split)
  then show ?thesis by (simp only: fs_read_alt)
qed

lemma share_delete_read_other:
  assumes "i \<noteq> j"
  shows "fs_read (fst (share_delete S D i)) (path_for S j) = fs_read D (path_for S j)"
  using assms by (auto simp: share_delete_def fs_remove_def fs_write_def fs_read_def Let_def
      split: option.split)

interpretation shares: share_map "\<lambda>D i nonce data. share_store A S D i nonce data" "share_delete S"
    "share_load A S" "\<lambda>nonce. length nonce = 12" "aead_correct A" for A S
proof unfold_locales
  fix D D' :: disk and i j nonce data
  show "share_load A S D' i = Ok data"
    if "aead_correct A" "length nonce = 12" "share_store A S D i nonce data = (D', Ok ())"
  proof -
    from that(3) obtain c where c: "aead_encrypt A (es_key S) nonce data = Ok c"
        "dk_write_error D (path_for S i) = None"
        "D' = fs_set_mode (fst (fs_write D (path_for S i) (nonce @ c))) (path_for S i) 384"
      by (auto simp: share_store_disk)
    have "fs_read D' (path_for S i) = Ok (nonce @ c)"
      unfolding c(3) fs_read_alt fs_set_mode_content using c(2) by (simp add: fs_write_def)
    with that(1,2) c(1) show ?thesis by (auto simp: share_load_def aead_correct_def)
  qed
  show "i \<noteq> j \<Longrightarrow> share_load A S (fst (share_store A S D i nonce data)) j = share_load A S D j"
    unfolding share_load_def by (subst share_store_read_other) simp_all
  show "i \<noteq> j \<Longrightarrow> share_load A S (fst (share_delete S D i)) j = share_load A S D j"
    unfolding share_load_def by (subst share_delete_read_other) simp_all
  show "\<not> is_ok (share_load A S D' i)" if "share_delete S D i = (D', Ok ())"
  proof -
    have "dk_files D' (path_for S i) = None"
      using that by (auto simp: share_delete_def fs_remove_def Let_def split: option.splits)
    then show ?thesis by (simp add: share_load_def fs_read_def)
  qed
qed

text \<open>
  Claim C17. The store is a map from participants to shares. After any sequence of \<open>store\<close> and
  \<open>delete\<close> calls that all succeed, \<open>load\<close> returns for every participant the share last stored and
  not deleted since, and fails for the others; participants never see each other's shares.
  Assumes that the cipher decrypts what it encrypted.
\<close>

theorem share_store_refines_map:
  assumes "aead_correct A" and "list_all (store_op_ok (\<lambda>nonce. length nonce = 12)) ops"
    and "store_run (\<lambda>D i nonce data. share_store A S D i nonce data) (share_delete S) D ops = Ok D'"
  shows "ok_of (share_load A S D' i) = foldl spec_store_op (\<lambda>i. ok_of (share_load A S D i)) ops i"
  by (rule shares.run_refines [OF assms]) (rule refl)

definition toy_aead :: aead where
  "toy_aead = \<lparr>aead_encrypt = (\<lambda>k n m. Ok (map (\<lambda>b. b + 1) m)),
     aead_decrypt = (\<lambda>k n c. Ok (map (\<lambda>b. b - 1) c)), sha256 = (\<lambda>m. replicate 32 0)\<rparr>"

definition empty_disk :: disk where
  "empty_disk = \<lparr>dk_files = (\<lambda>_. None), dk_write_error = (\<lambda>_. None), dk_remove_error = (\<lambda>_. None),
     dk_missing_text = ''No such file or directory (os error 2)'', dk_default_mode = 420,
     dk_chmod_works = True\<rparr>"

definition sample_ops :: "(bytes, bytes) store_op list" where
  "sample_ops = [StoreOp 0 (replicate 12 7) [1, 2], StoreOp 1 (replicate 12 8) [3], DeleteOp 0]"

theorem share_store_refines_map_witness:
  "\<exists>D. store_run (\<lambda>D i nonce data. share_store toy_aead (share_store_new toy_aead ''/shares'' ''pw'') D i nonce data)
       (share_delete (share_store_new toy_aead ''/shares'' ''pw'')) empty_disk sample_ops = Ok D
   \<and> ok_of (share_load toy_aead (share_store_new toy_aead ''/shares'' ''pw'') D 1) = Some [3]
   \<and> ok_of (share_load toy_aead (share_store_new toy_aead ''/shares'' ''pw'') D 0) = None"
proof -
  let ?S = "share_store_new toy_aead ''/shares'' ''pw''"
  let ?run = "store_run (\<lambda>D i nonce data. share_store toy_aead ?S D i nonce data) (share_delete ?S)"
  have A: "aead_correct toy_aead" by (auto simp: aead_correct_def toy_aead_def comp_def)
  have l: "list_all (store_op_ok (\<lambda>nonce. length nonce = 12)) sample_ops" by (simp add: sample_ops_def)
  have "is_ok (?run empty_disk sample_ops)"
    by (simp add: sample_ops_def share_store_def share_delete_def fs_write_def fs_set_mode_def
        fs_remove_def toy_aead_def empty_disk_def Let_def del: res_bind_Ok_iff)
  then obtain D where D: "?run empty_disk sample_ops = Ok D" by (auto simp: is_ok_iff)
  have "ok_of (share_load toy_aead ?S empty_disk i) = None" for i
    by (simp add: share_load_def fs_read_def empty_disk_def)
  with share_store_refines_map [OF A l D] D show ?thesis
    by (auto simp: sample_ops_def)
qed



text \<open>A stored share's file ends up readable by its owner only, when changing modes works.\<close>

lemma share_store_mode:
  "share_store A S D i nonce data = (D', Ok ()) \<Longrightarrow> dk_chmod_works D \<Longrightarrow>
   map_option df_mode (dk_files D' (path_for S i)) = Some 384"
  by (auto simp: share_store_disk fs_write_def fs_set_mode_def)

text \<open>A blob without a full nonce is an error, not a panic of \<open>split_at\<close>.\<close>

lemma share_load_short_blob:
  "fs_read D (path_for S i) = Ok blob \<Longrightarrow> length blob < 12 \<Longrightarrow>
   share_load A S D i = Err (StorageCrypto ''blob too short'')"
  by (simp add: share_load_def)

end
