(* ===== verification/Cli.thy ===== *)
theory Cli
  imports Storage
begin

text \<open>
  The two programs of \<open>crates/keymesh-tss/src/bin\<close>: \<open>coordinator.rs\<close> and \<open>participant.rs\<close>, each a
  function from its parsed arguments (and the disk) to the lines it prints and how it ends. The
  argument parser (\<open>clap\<close>) is third-party code: the arguments come parsed, its declared default
  values are written out. Shown: what a participant prints does not depend on its share.
\<close>

section \<open>Debug output\<close>

text \<open>
  The dash of the messages, as the UTF-8 bytes of U+2014, and \<open>{:?}\<close> of a string or path: quotes,
  backslashes and control characters are escaped, and bytes above ASCII are printed as they are
  (Rust also escapes the code points above ASCII that are not printable).
\<close>

definition em_dash :: string where "em_dash = [CHR 0xE2, CHR 0x80, CHR 0x94]"

definition escape_char :: "char \<Rightarrow> string" where
  "escape_char c =
     (if c = CHR 0x22 then [CHR 0x5C, CHR 0x22]
      else if c = CHR 0x5C then [CHR 0x5C, CHR 0x5C]
      else if c = CHR 0x0A then [CHR 0x5C, CHR ''n'']
      else if c = CHR 0x0D then [CHR 0x5C, CHR ''r'']
      else if c = CHR 0x09 then [CHR 0x5C, CHR ''t'']
      else if c = CHR 0x00 then [CHR 0x5C, CHR ''0'']
      else if of_char c < (32 :: nat) \<or> of_char c = (127 :: nat)
      then CHR 0x5C # ''u{'' @ dropWhile (\<lambda>d. d = CHR ''0'') (hex_encode [word_of_nat (of_char c)]) @ ''}''
      else [c])"

definition debug_str :: "string \<Rightarrow> string" where
  "debug_str s = CHR 0x22 # concat (map escape_char s) @ [CHR 0x22]"

primrec debug_storage_error :: "storage_error \<Rightarrow> string" where
  "debug_storage_error (StorageIo m) = ''Io('' @ debug_str m @ '')''"
| "debug_storage_error (StorageCrypto m) = ''Crypto('' @ debug_str m @ '')''"
| "debug_storage_error (StoragePermission m) = ''Permission('' @ debug_str m @ '')''"

section \<open>The coordinator\<close>

record coordinator_args =
  ca_participants :: nat
  ca_threshold :: nat

definition coordinator_defaults :: coordinator_args where
  "coordinator_defaults = \<lparr>ca_participants = 3, ca_threshold = 2\<rparr>"

definition coordinator_main :: "coordinator_args \<Rightarrow> string list \<times> (string, unit) res" where
  "coordinator_main args =
     ([''[coordinator] threshold '' @ show_nat (ca_threshold args) @ ''/'' @ show_nat (ca_participants args)
         @ '' '' @ em_dash @ '' authenticated transport, session handshake before TSS'',
       ''[coordinator] responsibilities: participant discovery, session creation (SessionBinding), message relay, timeout, signature aggregation'',
       ''[coordinator] MUST NOT: know private key, sign alone, change digest/nonce, bypass threshold/policy''],
      Ok ())"

section \<open>The participant\<close>

record participant_args =
  pa_id :: u8
  pa_store :: string
  pa_passphrase :: string

text \<open>The arguments with their declared defaults; the id has none.\<close>

definition participant_defaults :: "u8 \<Rightarrow> participant_args" where
  "participant_defaults i = \<lparr>pa_id = i, pa_store = ''./shares'', pa_passphrase = ''test-passphrase''\<rparr>"

definition participant_prefix :: "participant_args \<Rightarrow> string" where
  "participant_prefix args = ''[participant '' @ show_nat (unat (pa_id args)) @ ''] ''"

definition participant_main :: "aead \<Rightarrow> disk \<Rightarrow> participant_args \<Rightarrow> string list \<times> (string, unit) res" where
  "participant_main A D args =
     (let first = participant_prefix args @ ''loading share from '' @ debug_str (pa_store args)
            @ '' (encrypted at rest)'';
          ready = participant_prefix args @ ''ready '' @ em_dash
            @ '' waiting for coordinator handshake (session binding validated before TSS)'';
          store = share_store_new A (pa_store args) (pa_passphrase args)
      in (case share_load A store D (pa_id args) of
            Ok bs \<Rightarrow> ([first, participant_prefix args @ ''loaded '' @ show_nat (length bs)
                @ '' bytes (share not displayed)'', ready], Ok ())
          | Err e \<Rightarrow> ([first, participant_prefix args @ ''no share yet: '' @ debug_storage_error e, ready], Ok ())
          | Panic \<Rightarrow> ([first], Panic)))"

lemma participant_main_loaded:
  assumes "share_load A (share_store_new A (pa_store args) (pa_passphrase args)) D (pa_id args) = Ok bs"
  shows "participant_main A D args =
    ([participant_prefix args @ ''loading share from '' @ debug_str (pa_store args) @ '' (encrypted at rest)'',
      participant_prefix args @ ''loaded '' @ show_nat (length bs) @ '' bytes (share not displayed)'',
      participant_prefix args @ ''ready '' @ em_dash
        @ '' waiting for coordinator handshake (session binding validated before TSS)''], Ok ())"
  by (simp add: participant_main_def assms Let_def)

text \<open>
  A participant shows nothing of its share. After any share was stored for it,
  with any passphrase and nonce, on any disk, what the program prints depends on the share only
  through its length: two shares of one length, stored under different passphrases on different
  disks, give the same lines, and the program ends normally.
\<close>

theorem participant_hides_share:
  assumes "aead_correct A" and "length nonce = 12" "length nonce' = 12" and "length share' = length share"
    and "share_store A (share_store_new A path pw) D i nonce share = (D1, Ok ())"
    and "share_store A (share_store_new A path pw') D' i nonce' share' = (D2, Ok ())"
  shows "participant_main A D1 \<lparr>pa_id = i, pa_store = path, pa_passphrase = pw\<rparr>
      = participant_main A D2 \<lparr>pa_id = i, pa_store = path, pa_passphrase = pw'\<rparr>
    \<and> snd (participant_main A D1 \<lparr>pa_id = i, pa_store = path, pa_passphrase = pw\<rparr>) = Ok ()"
proof -
  have "share_load A (share_store_new A path pw) D1 i = Ok share"
    by (rule shares.stored [OF assms(1,2,5)])
  moreover have "share_load A (share_store_new A path pw') D2 i = Ok share'"
    by (rule shares.stored [OF assms(1,3,6)])
  ultimately show ?thesis
    using assms(4) participant_main_loaded [of A "\<lparr>pa_id = i, pa_store = path, pa_passphrase = pw\<rparr>" D1 share]
      participant_main_loaded [of A "\<lparr>pa_id = i, pa_store = path, pa_passphrase = pw'\<rparr>" D2 share']
    by (simp add: participant_prefix_def)
qed

theorem participant_hides_share_witness:
  "\<exists>D1 D2. share_store toy_aead (share_store_new toy_aead ''/s'' ''a'') empty_disk 1 (replicate 12 7) [1, 2] = (D1, Ok ())
    \<and> share_store toy_aead (share_store_new toy_aead ''/s'' ''b'') empty_disk 1 (replicate 12 9) [3, 4] = (D2, Ok ())
    \<and> participant_main toy_aead D1 \<lparr>pa_id = 1, pa_store = ''/s'', pa_passphrase = ''a''\<rparr>
      = participant_main toy_aead D2 \<lparr>pa_id = 1, pa_store = ''/s'', pa_passphrase = ''b''\<rparr>"
proof -
  have A: "aead_correct toy_aead" by (auto simp: aead_correct_def toy_aead_def comp_def)
  have ok: "\<exists>D. share_store toy_aead (share_store_new toy_aead ''/s'' pw) empty_disk 1 n share = (D, Ok ())"
    for pw n share by (simp add: share_store_def toy_aead_def fs_write_def empty_disk_def)
  obtain D1 where D1: "share_store toy_aead (share_store_new toy_aead ''/s'' ''a'') empty_disk 1
      (replicate 12 7) [1, 2] = (D1, Ok ())" using ok by blast
  obtain D2 where D2: "share_store toy_aead (share_store_new toy_aead ''/s'' ''b'') empty_disk 1
      (replicate 12 9) [3, 4] = (D2, Ok ())" using ok by blast
  from participant_hides_share [OF A _ _ _ D1 D2] D1 D2 show ?thesis by auto
qed

text \<open>A missing share is reported, not fatal.\<close>

lemma participant_without_share:
  assumes "dk_files D (path_for (share_store_new A path pw) i) = None"
  shows "snd (participant_main A D \<lparr>pa_id = i, pa_store = path, pa_passphrase = pw\<rparr>) = Ok ()"
  using assms by (simp add: participant_main_def share_load_def fs_read_def Let_def)

end
