(* ===== verification/Tss_Session.thy ===== *)
theory Tss_Session
  imports Contracts
begin

text \<open>
  Sessions of \<open>crates/keymesh-tss\<close>: the error type (\<open>errors.rs\<close>), the session binding, the
  session id derived from it and the one-shot session (\<open>session.rs\<close>), and the handshake in which a
  participant accepts the coordinator's binding (\<open>handshake.rs\<close>). Keccak-256 is a parameter.
\<close>

section \<open>Errors\<close>

datatype tss_error =
    InvalidThreshold string
  | DkgFailed string
  | SigningFailed string
  | SessionMismatch string
  | InsufficientShares (have_shares: nat) (need_shares: nat)
  | DuplicateParticipant
  | UnknownParticipant
  | AbortedTss string
  | Lifecycle string
  | LifecycleLocked string
  | StaleVersion (expected_version: u64) (got_version: u64)
  | RetiredTss string
  | GovernanceError string
  | RefreshFailed string
  | RotationFailed string
  | InvalidParticipantSet string

primrec display_tss_error :: "tss_error \<Rightarrow> string" where
  "display_tss_error (InvalidThreshold m) = ''invalid threshold: '' @ m"
| "display_tss_error (DkgFailed m) = ''DKG failed: '' @ m"
| "display_tss_error (SigningFailed m) = ''signing failed: '' @ m"
| "display_tss_error (SessionMismatch m) = ''session binding mismatch: '' @ m"
| "display_tss_error (InsufficientShares h n) =
     ''insufficient shares: have '' @ show_nat h @ '', need '' @ show_nat n"
| "display_tss_error DuplicateParticipant = ''duplicate participant''"
| "display_tss_error UnknownParticipant = ''unknown participant''"
| "display_tss_error (AbortedTss m) = ''aborted: '' @ m"
| "display_tss_error (Lifecycle m) = ''lifecycle error: '' @ m"
| "display_tss_error (LifecycleLocked m) = ''lifecycle locked: '' @ m"
| "display_tss_error (StaleVersion e g) =
     ''stale participant set version: expected '' @ show_nat (unat e) @ '', got '' @ show_nat (unat g)"
| "display_tss_error (RetiredTss m) = ''retired: '' @ m"
| "display_tss_error (GovernanceError m) = ''governance error: '' @ m"
| "display_tss_error (RefreshFailed m) = ''refresh failed: '' @ m"
| "display_tss_error (RotationFailed m) = ''rotation failed: '' @ m"
| "display_tss_error (InvalidParticipantSet m) = ''invalid participant set: '' @ m"

section \<open>Session bindings and ids\<close>

record session_binding =
  sb_wallet :: bytes
  sb_chain_id :: u64
  sb_nonce :: u64
  sb_digest :: bytes
  sb_policy_version :: u64
  sb_protocol_version :: string
  sb_random :: bytes

text \<open>\<open>wallet\<close>, \<open>digest\<close> and \<open>random\<close> are arrays of 20, 32 and 32 bytes.\<close>

definition binding_wf :: "session_binding \<Rightarrow> bool" where
  "binding_wf b \<longleftrightarrow> length (sb_wallet b) = 20 \<and> length (sb_digest b) = 32 \<and> length (sb_random b) = 32"

datatype tss_session_id = TssSessionId (session_id_bytes: bytes)

definition session_id_to_hex :: "tss_session_id \<Rightarrow> string" where
  "session_id_to_hex s = ''0x'' @ hex_encode (session_id_bytes s)"

definition write_u256_be :: "bytes \<Rightarrow> u64 \<Rightarrow> bytes" where
  "write_u256_be out v = out @ replicate 24 0 @ u64_be v"

definition session_preimage :: "session_binding \<Rightarrow> bytes" where
  "session_preimage b =
     (let preimage = sb_wallet b;
          preimage = write_u256_be preimage (sb_chain_id b);
          preimage = write_u256_be preimage (sb_nonce b);
          preimage = preimage @ sb_digest b;
          preimage = write_u256_be preimage (sb_policy_version b);
          preimage = preimage @ str_bytes (sb_protocol_version b)
      in preimage @ sb_random b)"

definition derive_session_id :: "(bytes \<Rightarrow> bytes) \<Rightarrow> session_binding \<Rightarrow> tss_session_id" where
  "derive_session_id keccak b = TssSessionId (keccak (session_preimage b))"

datatype tss_session_status = TssStarted | TssCompleted | TssAborted | TssFailed

record tss_signing_session =
  ts_session_id :: tss_session_id
  ts_binding :: session_binding
  ts_participants :: "u8 list"
  ts_threshold :: nat
  ts_status :: tss_session_status

definition tss_session_new ::
  "(bytes \<Rightarrow> bytes) \<Rightarrow> session_binding \<Rightarrow> u8 list \<Rightarrow> nat \<Rightarrow> tss_signing_session" where
  "tss_session_new keccak b ps t =
     \<lparr>ts_session_id = derive_session_id keccak b, ts_binding = b, ts_participants = ps,
      ts_threshold = t, ts_status = TssStarted\<rparr>"

definition tss_transition ::
  "tss_signing_session \<Rightarrow> tss_session_status \<Rightarrow> tss_signing_session \<times> (string, unit) res" where
  "tss_transition s target =
     (if ts_status s \<noteq> TssStarted then (s, Err ''cannot transition from terminal'')
      else if target = TssStarted then (s, Err ''cannot transition back to Started'')
      else (s\<lparr>ts_status := target\<rparr>, Ok ()))"

interpretation tss_session: one_shot
    "\<lambda>s t. if is_ok (snd (tss_transition s t)) then Some (fst (tss_transition s t)) else None"
    ts_status TssStarted "\<lambda>s. s\<lparr>ts_status := TssStarted\<rparr>"
  by unfold_locales (auto simp: tss_transition_def)

section \<open>Handshake\<close>

datatype handshake_error =
    WalletMismatch | ChainMismatch | DigestMismatch | NonceMismatch | PolicyVersionMismatch
  | ProtocolVersionMismatch | ParticipantSetMismatch | ThresholdMismatch

definition handshake_validate ::
  "(bytes \<Rightarrow> bytes) \<Rightarrow> session_binding \<Rightarrow> session_binding \<Rightarrow> u8 list \<Rightarrow> nat
     \<Rightarrow> (handshake_error, tss_session_id) res" where
  "handshake_validate keccak coord part expected_participants threshold =
     (if sb_wallet coord \<noteq> sb_wallet part then Err WalletMismatch
      else if sb_chain_id coord \<noteq> sb_chain_id part then Err ChainMismatch
      else if sb_digest coord \<noteq> sb_digest part then Err DigestMismatch
      else if sb_nonce coord \<noteq> sb_nonce part then Err NonceMismatch
      else if sb_policy_version coord \<noteq> sb_policy_version part then Err PolicyVersionMismatch
      else if sb_protocol_version coord \<noteq> sb_protocol_version part then Err ProtocolVersionMismatch
      else let sid_coord = derive_session_id keccak coord;
               sid_part = derive_session_id keccak part
        in if sid_coord \<noteq> sid_part then Err DigestMismatch else Ok sid_coord)"

section \<open>What a session id binds\<close>

lemma session_preimage_eq:
  "session_preimage b = sb_wallet b @ (replicate 24 0 @ u64_be (sb_chain_id b))
     @ (replicate 24 0 @ u64_be (sb_nonce b)) @ sb_digest b
     @ (replicate 24 0 @ u64_be (sb_policy_version b)) @ str_bytes (sb_protocol_version b) @ sb_random b"
  by (simp add: session_preimage_def write_u256_be_def Let_def)

lemma session_preimage_inject:
  assumes "binding_wf a" and "binding_wf b" and "session_preimage a = session_preimage b"
  shows "a = b"
proof -
  from assms have f: "sb_wallet a = sb_wallet b" "sb_chain_id a = sb_chain_id b"
      "sb_nonce a = sb_nonce b" "sb_digest a = sb_digest b" "sb_policy_version a = sb_policy_version b"
      and tail: "str_bytes (sb_protocol_version a) @ sb_random a
        = str_bytes (sb_protocol_version b) @ sb_random b"
    by (auto simp: session_preimage_eq binding_wf_def)
  have "length (sb_random a) = length (sb_random b)" using assms(1,2) by (simp add: binding_wf_def)
  with tail have "sb_protocol_version a = sb_protocol_version b" "sb_random a = sb_random b" by auto
  with f show ?thesis by (cases a; cases b) simp
qed

text \<open>
  A session id binds the whole session. Two bindings with the same session id agree in
  wallet, chain, nonce, digest, policy version, protocol version and randomness, or their
  preimages are a collision of the hash: the unprefixed version string causes no ambiguity.
\<close>

theorem session_id_binds:
  assumes "binding_wf a" and "binding_wf b"
    and "derive_session_id keccak a = derive_session_id keccak b"
  shows "a = b \<or> (session_preimage a \<noteq> session_preimage b
    \<and> keccak (session_preimage a) = keccak (session_preimage b))"
  using session_preimage_inject [OF assms(1,2)] assms(3) by (auto simp: derive_session_id_def)

definition sample_binding :: session_binding where
  "sample_binding = \<lparr>sb_wallet = replicate 20 0x11, sb_chain_id = 1, sb_nonce = 7,
     sb_digest = replicate 32 0xAB, sb_policy_version = 2,
     sb_protocol_version = ''synedrion/0.3-cggmp24'', sb_random = replicate 32 0x5C\<rparr>"

lemma sample_binding_wf [simp]: "binding_wf sample_binding"
  by (simp add: sample_binding_def binding_wf_def)

theorem session_id_binds_witness:
  "sample_binding = sample_binding\<lparr>sb_nonce := 8\<rparr> \<or>
   (session_preimage sample_binding \<noteq> session_preimage (sample_binding\<lparr>sb_nonce := 8\<rparr>)
     \<and> take 20 (session_preimage sample_binding) = take 20 (session_preimage (sample_binding\<lparr>sb_nonce := 8\<rparr>)))"
  by (rule session_id_binds [where keccak = "take 20"])
    (simp_all add: binding_wf_def sample_binding_def derive_session_id_def session_preimage_eq)

text \<open>
  The handshake. It accepts exactly when the participant's binding agrees with the
  coordinator's in the six compared fields and gives the same session id, and then returns that
  id. Without a hash collision that means equal bindings. The participant list and the
  threshold are never looked at, so their two errors are never returned.
\<close>

theorem handshake_spec:
  assumes "binding_wf c" and "binding_wf p"
  shows "(handshake_validate keccak c p ps t = Ok sid
      \<longleftrightarrow> c\<lparr>sb_random := sb_random p\<rparr> = p
        \<and> sid = derive_session_id keccak c \<and> sid = derive_session_id keccak p)
    \<and> ((keccak (session_preimage c) = keccak (session_preimage p)
          \<longrightarrow> session_preimage c = session_preimage p)
        \<longrightarrow> (is_ok (handshake_validate keccak c p ps t) \<longleftrightarrow> c = p))
    \<and> handshake_validate keccak c p ps t
        \<notin> {Err ParticipantSetMismatch, Err ThresholdMismatch, Panic}"
proof (intro conjI)
  show "handshake_validate keccak c p ps t = Ok sid
      \<longleftrightarrow> c\<lparr>sb_random := sb_random p\<rparr> = p
        \<and> sid = derive_session_id keccak c \<and> sid = derive_session_id keccak p"
    by (cases c; cases p) (auto simp: handshake_validate_def Let_def)
  show "(keccak (session_preimage c) = keccak (session_preimage p)
          \<longrightarrow> session_preimage c = session_preimage p)
        \<longrightarrow> (is_ok (handshake_validate keccak c p ps t) \<longleftrightarrow> c = p)"
    using session_preimage_inject [OF assms]
    by (auto simp: handshake_validate_def derive_session_id_def Let_def)
  show "handshake_validate keccak c p ps t
        \<notin> {Err ParticipantSetMismatch, Err ThresholdMismatch, Panic}"
    by (auto simp: handshake_validate_def Let_def)
qed

theorem handshake_spec_witness:
  "handshake_validate (take 150) sample_binding (sample_binding\<lparr>sb_random := replicate 32 9\<rparr>) [0, 1] 2
     = Ok (derive_session_id (take 150) sample_binding)"
proof -
  let ?p = "sample_binding\<lparr>sb_random := replicate 32 9\<rparr>"
  have "binding_wf ?p" by (simp add: sample_binding_def binding_wf_def)
  moreover have "derive_session_id (take 150) sample_binding = derive_session_id (take 150) ?p"
    by (simp add: derive_session_id_def session_preimage_eq sample_binding_def)
  ultimately show ?thesis
    using handshake_spec [OF sample_binding_wf, of ?p "take 150" "[0, 1]" 2] by simp
qed

text \<open>Differing randomness is reported as a digest mismatch, whatever the digests.\<close>

lemma handshake_random_reported_as_digest:
  "c\<lparr>sb_random := r\<rparr> = p \<Longrightarrow> derive_session_id keccak c \<noteq> derive_session_id keccak p \<Longrightarrow>
   handshake_validate keccak c p ps t = Err DigestMismatch"
  by (auto simp: handshake_validate_def Let_def)

end
