(* ===== verification/Governance.thy ===== *)
theory Governance
  imports Contracts Tss_Session
begin

text \<open>
  The governed participant rotation of \<open>crates/keymesh-tss/src/governance.rs\<close>: a rotation request
  collects guardian approvals, waits out a timelock, and is then marked as resharing and
  completed or failed.
\<close>

definition ROTATION_MIN_TIMELOCK :: u64 where "ROTATION_MIN_TIMELOCK = 3600"

datatype rotation_status =
  RotNone | RotPending | RotQuorumReached | RotExecutable | RotResharing | RotCompleted
  | RotCancelled | RotFailed

primrec debug_rotation_status :: "rotation_status \<Rightarrow> string" where
  "debug_rotation_status RotNone = ''None''"
| "debug_rotation_status RotPending = ''Pending''"
| "debug_rotation_status RotQuorumReached = ''QuorumReached''"
| "debug_rotation_status RotExecutable = ''Executable''"
| "debug_rotation_status RotResharing = ''Resharing''"
| "debug_rotation_status RotCompleted = ''Completed''"
| "debug_rotation_status RotCancelled = ''Cancelled''"
| "debug_rotation_status RotFailed = ''Failed''"

definition rotation_is_terminal :: "rotation_status \<Rightarrow> bool" where
  "rotation_is_terminal s \<longleftrightarrow> s \<in> {RotCompleted, RotCancelled, RotFailed}"

definition rotation_is_live :: "rotation_status \<Rightarrow> bool" where
  "rotation_is_live s \<longleftrightarrow> s \<in> {RotPending, RotQuorumReached, RotExecutable, RotResharing}"

record rotation_request =
  ro_id :: u64
  ro_wallet :: bytes
  ro_old_version :: u64
  ro_new_set :: "string list"
  ro_threshold :: nat
  ro_requested_by :: string
  ro_governance_reference :: string
  ro_created_at :: u64
  ro_executable_at :: "u64 option"
  ro_quorum_required :: u32
  ro_timelock_seconds :: u64
  ro_approvals :: "string list"
  ro_status :: rotation_status
  ro_group_public_key :: bytes

definition rotation_initiate ::
  "u64 \<Rightarrow> bytes \<Rightarrow> u64 \<Rightarrow> string list \<Rightarrow> nat \<Rightarrow> string \<Rightarrow> string \<Rightarrow> bytes \<Rightarrow> nat \<Rightarrow> u32 \<Rightarrow> u64 \<Rightarrow> u64
     \<Rightarrow> (tss_error, rotation_request) res" where
  "rotation_initiate i wallet old_version new_set threshold requested_by governance_reference
     group_public_key active_guardian_count quorum_required timelock_seconds now_seconds =
     (if new_set = [] then Err (InvalidParticipantSet ''new participant set must not be empty'')
      else if threshold = 0 \<or> length new_set < threshold
      then Err (InvalidThreshold (''threshold '' @ show_nat threshold @ '' invalid for n=''
        @ show_nat (length new_set)))
      else if length (remdups new_set) \<noteq> length new_set
      then Err (InvalidParticipantSet ''duplicate participant in new set'')
      else if quorum_required = 0 then Err (GovernanceError ''quorum must be >0'')
      else if active_guardian_count < unat quorum_required
      then Err (GovernanceError (''quorum '' @ show_nat (unat quorum_required)
        @ '' unsatisfiable with '' @ show_nat active_guardian_count @ '' guardians''))
      else if timelock_seconds < ROTATION_MIN_TIMELOCK
      then Err (GovernanceError (''timelock '' @ show_nat (unat timelock_seconds)
        @ ''s below minimum '' @ show_nat (unat ROTATION_MIN_TIMELOCK) @ ''s''))
      else if requested_by = [] then Err (GovernanceError ''requested_by must not be empty'')
      else Ok \<lparr>ro_id = i, ro_wallet = wallet, ro_old_version = old_version, ro_new_set = new_set,
               ro_threshold = threshold, ro_requested_by = requested_by,
               ro_governance_reference = governance_reference, ro_created_at = now_seconds,
               ro_executable_at = None, ro_quorum_required = quorum_required,
               ro_timelock_seconds = timelock_seconds, ro_approvals = [], ro_status = RotPending,
               ro_group_public_key = group_public_key\<rparr>)"

definition rotation_effective_status :: "rotation_request \<Rightarrow> u64 \<Rightarrow> rotation_status" where
  "rotation_effective_status r now_seconds =
     (if ro_status r = RotQuorumReached
      then (case ro_executable_at r of
              Some exec \<Rightarrow> (if exec \<le> now_seconds then RotExecutable else ro_status r)
            | None \<Rightarrow> ro_status r)
      else ro_status r)"

definition rotation_approve ::
  "build \<Rightarrow> rotation_request \<Rightarrow> string \<Rightarrow> u64 \<Rightarrow> rotation_request \<times> (tss_error, unit) res" where
  "rotation_approve b r guardian now_seconds =
     (if ro_status r \<noteq> RotPending
      then (r, Err (GovernanceError (''can only approve Pending, got ''
        @ debug_rotation_status (ro_status r))))
      else if guardian \<in> set (ro_approvals r)
      then (r, Err (GovernanceError (''duplicate approval '' @ guardian)))
      else
        (let r1 = r\<lparr>ro_approvals := ro_approvals r @ [guardian]\<rparr>
         in if unat (ro_quorum_required r1) \<le> length (ro_approvals r1)
            then (let r2 = r1\<lparr>ro_status := RotQuorumReached\<rparr>
                  in (case add_u64 b now_seconds (ro_timelock_seconds r2) of
                        Ok t \<Rightarrow> (r2\<lparr>ro_executable_at := Some t\<rparr>, Ok ())
                      | Err e \<Rightarrow> (r2, Err e)
                      | Panic \<Rightarrow> (r2, Panic)))
            else (r1, Ok ())))"

definition rotation_cancel :: "rotation_request \<Rightarrow> rotation_request \<times> (tss_error, unit) res" where
  "rotation_cancel r =
     (if \<not> rotation_is_live (ro_status r)
      then (r, Err (GovernanceError (''cannot cancel terminal '' @ debug_rotation_status (ro_status r))))
      else (r\<lparr>ro_status := RotCancelled\<rparr>, Ok ()))"

definition mark_resharing :: "rotation_request \<Rightarrow> rotation_request \<times> (tss_error, unit) res" where
  "mark_resharing r =
     (let eff = ro_status r in
       if eff \<noteq> RotExecutable \<and> ro_status r \<noteq> RotQuorumReached
       then (r, Err (GovernanceError (''rotation not executable, status ''
         @ debug_rotation_status (ro_status r))))
       else (r\<lparr>ro_status := RotResharing\<rparr>, Ok ()))"

primrec debug_option_u64 :: "u64 option \<Rightarrow> string" where
  "debug_option_u64 None = ''None''"
| "debug_option_u64 (Some v) = ''Some('' @ show_nat (unat v) @ '')''"

definition mark_resharing_with_time ::
  "rotation_request \<Rightarrow> u64 \<Rightarrow> rotation_request \<times> (tss_error, unit) res" where
  "mark_resharing_with_time r now_seconds =
     (let eff = rotation_effective_status r now_seconds in
       if eff \<noteq> RotExecutable
       then (r, Err (GovernanceError (''timelock not elapsed: status ''
         @ debug_rotation_status (ro_status r) @ '' vs executable_at ''
         @ debug_option_u64 (ro_executable_at r) @ '' now '' @ show_nat (unat now_seconds))))
       else (r\<lparr>ro_status := RotResharing\<rparr>, Ok ()))"

definition mark_completed :: "rotation_request \<Rightarrow> rotation_request \<times> (tss_error, unit) res" where
  "mark_completed r =
     (if ro_status r \<noteq> RotResharing
      then (r, Err (GovernanceError (''can only complete from Resharing, got ''
        @ debug_rotation_status (ro_status r))))
      else (r\<lparr>ro_status := RotCompleted\<rparr>, Ok ()))"

definition mark_failed :: "rotation_request \<Rightarrow> rotation_request \<times> (tss_error, unit) res" where
  "mark_failed r =
     (if ro_status r \<noteq> RotResharing
      then (r, Err (GovernanceError (''can only fail from Resharing, got ''
        @ debug_rotation_status (ro_status r))))
      else (r\<lparr>ro_status := RotFailed\<rparr>, Ok ()))"

definition rotation_is_executable :: "rotation_request \<Rightarrow> u64 \<Rightarrow> bool" where
  "rotation_is_executable r now_seconds \<longleftrightarrow> rotation_effective_status r now_seconds = RotExecutable"

definition u64_of_usize :: "nat \<Rightarrow> u64" where "u64_of_usize n = word_of_nat n"

definition rotation_canonical_bytes :: "rotation_request \<Rightarrow> bytes" where
  "rotation_canonical_bytes r =
     str_bytes ''KEYMESH_TSS_ROTATION_V1'' @ u64_be (ro_id r) @ ro_wallet r
     @ u64_be (ro_old_version r) @ u64_be (u64_of_usize (length (ro_new_set r)))
     @ concat (map (\<lambda>p. u64_be (u64_of_usize (length p)) @ str_bytes p) (ro_new_set r))
     @ u64_be (u64_of_usize (ro_threshold r)) @ u64_be (ucast (ro_quorum_required r))
     @ u64_be (ro_timelock_seconds r) @ u64_be (ro_created_at r) @ ro_group_public_key r"

lemmas rotation_ops = rotation_approve_def rotation_cancel_def mark_resharing_def
  mark_resharing_with_time_def mark_completed_def mark_failed_def

section \<open>The contracts\<close>

lemma rotation_effective_executable:
  "rotation_effective_status r now = RotExecutable \<longleftrightarrow>
     ro_status r = RotExecutable \<or>
     ro_status r = RotQuorumReached \<and> (\<exists>t. ro_executable_at r = Some t \<and> t \<le> now)"
  by (auto simp: rotation_effective_status_def split: option.split)

text \<open>The operations besides \<open>approve\<close>.\<close>

datatype rotation_op = OpCancel | OpMarkResharing | OpMarkResharingAt u64 | OpMarkCompleted | OpMarkFailed

primrec rotation_other :: "rotation_op \<Rightarrow> rotation_request \<Rightarrow> rotation_request" where
  "rotation_other OpCancel r = fst (rotation_cancel r)"
| "rotation_other OpMarkResharing r = fst (mark_resharing r)"
| "rotation_other (OpMarkResharingAt t) r = fst (mark_resharing_with_time r t)"
| "rotation_other OpMarkCompleted r = fst (mark_completed r)"
| "rotation_other OpMarkFailed r = fst (mark_failed r)"

interpretation rot_quorum: cancellable_quorum "rotation_approve b" ro_approvals
    "\<lambda>r. unat (ro_quorum_required r)" ro_timelock_seconds "\<lambda>r. ro_status r = RotPending"
    ro_executable_at rotation_is_executable "\<lambda>r. ro_status r \<noteq> RotExecutable" rotation_cancel
    "\<lambda>r. rotation_is_live (ro_status r)" for b
proof (unfold_locales, goal_cases)
  case (9 s)
  then show ?case by (simp add: rotation_cancel_def rotation_is_live_def)
next
  case (10 s)
  then show ?case by (simp add: rotation_cancel_def)
next
  case (11 s now)
  then show ?case
    by (auto simp: rotation_is_live_def rotation_is_executable_def rotation_effective_executable)
qed (auto simp: rotation_approve_def rotation_is_executable_def Let_def add_u64_def
       rotation_effective_executable split: build.split)

interpretation rot_machine: quorum_machine "rotation_approve b" ro_approvals
    "\<lambda>r. unat (ro_quorum_required r)" ro_timelock_seconds "\<lambda>r. ro_status r = RotPending"
    ro_executable_at rotation_is_executable "\<lambda>r. ro_status r \<noteq> RotExecutable" rotation_other for b
proof unfold_locales
  fix z s
  show "ro_approvals (rotation_other z s) = ro_approvals s
      \<and> unat (ro_quorum_required (rotation_other z s)) = unat (ro_quorum_required s)
      \<and> ro_timelock_seconds (rotation_other z s) = ro_timelock_seconds s
      \<and> ro_executable_at (rotation_other z s) = ro_executable_at s"
    by (cases z) (auto simp: rotation_ops Let_def)
  show "ro_status (rotation_other z s) = RotPending \<Longrightarrow> ro_status s = RotPending"
    by (cases z) (auto simp: rotation_ops Let_def split: if_splits)
  show "ro_status s \<noteq> RotExecutable \<Longrightarrow> ro_status (rotation_other z s) \<noteq> RotExecutable"
    by (cases z) (auto simp: rotation_ops Let_def)
qed

section \<open>Quorum and timelock\<close>

definition rotation_run ::
  "build \<Rightarrow> rotation_request \<Rightarrow> (string \<times> u64 + rotation_op) list \<Rightarrow> rotation_request" where
  "rotation_run b = machine_run (rotation_approve b) rotation_other"

lemma rotation_initiate_Ok:
  "rotation_initiate i w v ps t rb gr gk n q lock now = Ok r \<longleftrightarrow>
     ps \<noteq> [] \<and> 0 < t \<and> t \<le> length ps \<and> distinct ps \<and> q \<noteq> 0 \<and> unat q \<le> n
     \<and> ROTATION_MIN_TIMELOCK \<le> lock \<and> rb \<noteq> [] \<and>
     r = \<lparr>ro_id = i, ro_wallet = w, ro_old_version = v, ro_new_set = ps, ro_threshold = t,
          ro_requested_by = rb, ro_governance_reference = gr, ro_created_at = now,
          ro_executable_at = None, ro_quorum_required = q, ro_timelock_seconds = lock,
          ro_approvals = [], ro_status = RotPending, ro_group_public_key = gk\<rparr>"
proof -
  have d: "length (remdups ps) \<noteq> length ps \<longleftrightarrow> \<not> distinct ps"
    by (metis distinct_card distinct_remdups length_remdups_card_conv remdups_id_iff_distinct
        card_distinct)
  show ?thesis unfolding rotation_initiate_def d by (auto simp: not_less not_le)
qed

definition approval_fits :: "u64 \<Rightarrow> string \<times> u64 + rotation_op \<Rightarrow> bool" where
  "approval_fits lock ev = (case ev of Inl (g, t) \<Rightarrow> unat t + unat lock < 2 ^ 64 | Inr z \<Rightarrow> True)"

lemma rotation_executable_facts:
  assumes init: "rotation_initiate i w v ps t rb gr gk n q lock now0 = Ok r0"
    and fits: "list_all (approval_fits lock) evs"
    and exec: "rotation_is_executable (rotation_run b r0 evs) now"
  shows "\<exists>gs u. distinct gs \<and> length gs = unat q \<and> (\<forall>g \<in> set gs. \<exists>u. Inl (g, u) \<in> set evs)
    \<and> Inl (last gs, u) \<in> set evs \<and> unat u + unat lock \<le> unat now"
proof -
  have r0: "ro_approvals r0 = []" "ro_executable_at r0 = None" "ro_quorum_required r0 = q"
      "ro_timelock_seconds r0 = lock" "ro_status r0 \<noteq> RotExecutable" "0 < unat q"
    using init by (auto simp: rotation_initiate_Ok unat_gt_0)
  with rot_machine.run_executable [of r0 b evs now] exec fits show ?thesis
    by (simp add: approval_fits_def [abs_def] rotation_run_def)
qed

text \<open>
  No timed resharing without quorum and timelock. If, after any run of calls on a
  freshly initiated rotation, \<open>mark_resharing_with_time\<close> succeeds, then the required number of
  distinct guardians approved in that run, the last one at a time from which the whole timelock
  has passed.
\<close>

theorem rotation_timed_safety:
  assumes init: "rotation_initiate i w v ps t rb gr gk n q lock now0 = Ok r0"
    and fits: "list_all (approval_fits lock) evs"
    and mark: "snd (mark_resharing_with_time (rotation_run b r0 evs) now) = Ok ()"
  shows "\<exists>gs u. distinct gs \<and> length gs = unat q \<and> (\<forall>g \<in> set gs. \<exists>u. Inl (g, u) \<in> set evs)
    \<and> Inl (last gs, u) \<in> set evs \<and> unat u + unat lock \<le> unat now"
proof -
  have "rotation_is_executable (rotation_run b r0 evs) now"
    using mark by (auto simp: rotation_is_executable_def mark_resharing_with_time_def Let_def split: if_splits)
  with init fits show ?thesis by (rule rotation_executable_facts)
qed

definition sample_rotation :: rotation_request where
  "sample_rotation = \<lparr>ro_id = 1, ro_wallet = replicate 20 1, ro_old_version = 1,
     ro_new_set = [''A'', ''B'', ''P2''], ro_threshold = 2, ro_requested_by = ''device'',
     ro_governance_reference = ''ref'', ro_created_at = 1000, ro_executable_at = None,
     ro_quorum_required = 2, ro_timelock_seconds = 3600, ro_approvals = [], ro_status = RotPending,
     ro_group_public_key = replicate 33 2\<rparr>"

lemma sample_rotation_initiate:
  "rotation_initiate 1 (replicate 20 1) 1 [''A'', ''B'', ''P2''] 2 ''device'' ''ref'' (replicate 33 2)
     3 2 3600 1000 = Ok sample_rotation"
  by (simp add: rotation_initiate_def sample_rotation_def ROTATION_MIN_TIMELOCK_def)

definition sample_rotation_run :: "(string \<times> u64 + rotation_op) list" where
  "sample_rotation_run = [Inl (''G1'', 1100), Inr OpMarkCompleted, Inl (''G2'', 1200)]"

lemma sample_rotation_marked:
  "snd (mark_resharing_with_time (rotation_run Debug sample_rotation sample_rotation_run) 4800) = Ok ()"
  by (simp add: rotation_run_def machine_run_def sample_rotation_run_def sample_rotation_def
      rotation_ops rotation_effective_status_def Let_def add_u64_def)

theorem rotation_timed_safety_witness:
  "\<exists>gs u. distinct gs \<and> length gs = unat (2 :: u32)
    \<and> (\<forall>g \<in> set gs. \<exists>u. Inl (g, u) \<in> set sample_rotation_run)
    \<and> Inl (last gs, u) \<in> set sample_rotation_run \<and> unat u + unat (3600 :: u64) \<le> unat (4800 :: u64)"
  by (rule rotation_timed_safety [OF sample_rotation_initiate _ sample_rotation_marked])
    (simp add: sample_rotation_run_def approval_fits_def)

text \<open>
  Claim C36. The untimed \<open>mark_resharing\<close> skips the timelock. Its comment says that the rotation must
  be executable, but it accepts every request whose quorum is reached: as soon as the last
  approval is in, at which time no timelock of at least an hour has passed, a request can be
  marked as resharing and then as completed.
\<close>

theorem mark_resharing_skips_timelock:
  assumes "ro_status r = RotPending" and "g \<notin> set (ro_approvals r)"
    and "unat (ro_quorum_required r) \<le> Suc (length (ro_approvals r))"
    and "unat now + unat (ro_timelock_seconds r) < 2 ^ 64" and "3600 \<le> unat (ro_timelock_seconds r)"
  shows "let r1 = fst (rotation_approve b r g now); (r2, x) = mark_resharing r1 in
    \<not> rotation_is_executable r1 now \<and> is_err (snd (mark_resharing_with_time r1 now))
    \<and> x = Ok () \<and> ro_status (fst (mark_completed r2)) = RotCompleted"
proof -
  have "unat (now + ro_timelock_seconds r) = unat now + unat (ro_timelock_seconds r)"
    using assms(4) by (rule unat_add_fits)
  then have "\<not> now + ro_timelock_seconds r \<le> now"
    using assms(5) by (simp add: word_le_nat_alt)
  with assms show ?thesis
    by (auto simp: rotation_ops rotation_is_executable_def rotation_effective_status_def Let_def
        add_u64_def)
qed

theorem mark_resharing_skips_timelock_witness:
  "snd (mark_resharing (fst (rotation_approve Debug
     (fst (rotation_approve Debug sample_rotation ''G1'' 1000)) ''G2'' 1000))) = Ok ()
   \<and> \<not> rotation_is_executable (fst (rotation_approve Debug
     (fst (rotation_approve Debug sample_rotation ''G1'' 1000)) ''G2'' 1000)) 1000"
proof -
  let ?r = "fst (rotation_approve Debug sample_rotation ''G1'' 1000)"
  have "ro_status ?r = RotPending" "''G2'' \<notin> set (ro_approvals ?r)"
    "unat (ro_quorum_required ?r) \<le> Suc (length (ro_approvals ?r))"
    "unat (1000 :: u64) + unat (ro_timelock_seconds ?r) < 2 ^ 64"
    "3600 \<le> unat (ro_timelock_seconds ?r)"
    by (simp_all add: sample_rotation_def rotation_approve_def Let_def)
  from mark_resharing_skips_timelock [OF this, of Debug] show ?thesis
    by (auto simp: Let_def split: prod.splits)
qed

section \<open>The life of a rotation\<close>

text \<open>The possible next statuses of each status.\<close>

primrec rotation_next :: "rotation_status \<Rightarrow> rotation_status list" where
  "rotation_next RotNone = []"
| "rotation_next RotPending = [RotQuorumReached, RotCancelled]"
| "rotation_next RotQuorumReached = [RotResharing, RotCancelled]"
| "rotation_next RotExecutable = [RotResharing, RotCancelled]"
| "rotation_next RotResharing = [RotCompleted, RotFailed, RotCancelled]"
| "rotation_next RotCompleted = []"
| "rotation_next RotCancelled = []"
| "rotation_next RotFailed = []"

lemma rotation_other_moves:
  "rotation_other z s = s \<or> ro_status (rotation_other z s) \<in> set (rotation_next (ro_status s))"
  by (cases z; cases "ro_status s") (auto simp: rotation_ops rotation_is_live_def Let_def
      rotation_effective_status_def split: option.split)

lemma rotation_other_keeps:
  "ro_approvals (rotation_other z s) = ro_approvals s"
  "ro_quorum_required (rotation_other z s) = ro_quorum_required s"
  by (cases z; simp add: rotation_ops Let_def)+

lemma rotation_frozen:
  assumes "rotation_is_terminal (ro_status r)"
  shows "rotation_run b r evs = r"
proof -
  have "machine_step (rotation_approve b) rotation_other r e = r" for e
  proof (cases e)
    case (Inl a)
    with assms show ?thesis by (auto simp: rotation_is_terminal_def rotation_approve_def)
  next
    case (Inr z)
    with assms show ?thesis
      by (cases z) (auto simp: rotation_is_terminal_def rotation_is_live_def rotation_ops Let_def
          rotation_effective_status_def)
  qed
  then show ?thesis by (induction evs) (simp_all add: rotation_run_def machine_run_def)
qed

lemma rotation_run_frame:
  "(rotation_run b r evs)\<lparr>ro_approvals := [], ro_status := RotPending, ro_executable_at := None\<rparr>
    = r\<lparr>ro_approvals := [], ro_status := RotPending, ro_executable_at := None\<rparr>"
proof -
  let ?frame = "\<lambda>r. r\<lparr>ro_approvals := [], ro_status := RotPending, ro_executable_at := None\<rparr>"
  have "?frame (machine_step (rotation_approve b) rotation_other s e) = ?frame s" for s e
  proof (cases e)
    case (Inl a)
    then show ?thesis by (auto simp: rotation_approve_def Let_def split: res.split)
  next
    case (Inr z)
    then show ?thesis by (cases z) (auto simp: rotation_ops Let_def)
  qed
  then show ?thesis
    by (induction evs arbitrary: r) (simp_all add: rotation_run_def machine_run_def)
qed

lemma rotation_run_keeps:
  "ro_old_version (rotation_run b r evs) = ro_old_version r" "ro_new_set (rotation_run b r evs) = ro_new_set r"
  "ro_threshold (rotation_run b r evs) = ro_threshold r"
  using arg_cong [OF rotation_run_frame [of b r evs], of ro_old_version]
    arg_cong [OF rotation_run_frame [of b r evs], of ro_new_set]
    arg_cong [OF rotation_run_frame [of b r evs], of ro_threshold] by simp_all

text \<open>
  Claim C29. The life of a rotation. Every call either leaves the request as it was or moves its
  status along one edge of the graph (an approval below the quorum stays pending); a completed,
  cancelled or failed rotation never changes again; and what is governed (wallet, versions,
  new set, threshold, quorum, timelock, group key) never changes at all.
\<close>

theorem rotation_lifecycle:
  "(machine_step (rotation_approve b) rotation_other r ev = r
      \<or> ro_status (machine_step (rotation_approve b) rotation_other r ev) \<in> set (rotation_next (ro_status r))
      \<or> (\<exists>g t. ev = Inl (g, t) \<and> ro_status r = RotPending
          \<and> ro_status (machine_step (rotation_approve b) rotation_other r ev) = RotPending))
   \<and> (rotation_is_terminal (ro_status r) \<longrightarrow> rotation_run b r evs = r)
   \<and> (rotation_run b r evs)\<lparr>ro_approvals := [], ro_status := RotPending, ro_executable_at := None\<rparr>
      = r\<lparr>ro_approvals := [], ro_status := RotPending, ro_executable_at := None\<rparr>"
proof (intro conjI impI)
  let ?step = "machine_step (rotation_approve b) rotation_other"
  have approve: "rotation_approve b s g t = (s', x) \<Longrightarrow>
      s' = s \<or> ro_status s = RotPending \<and> ro_status s' \<in> {RotPending, RotQuorumReached}" for s g t s' x
    by (auto simp: rotation_approve_def Let_def split: if_splits res.splits)
  show "?step r ev = r \<or> ro_status (?step r ev) \<in> set (rotation_next (ro_status r))
      \<or> (\<exists>g t. ev = Inl (g, t) \<and> ro_status r = RotPending \<and> ro_status (?step r ev) = RotPending)"
  proof (cases ev)
    case (Inl a)
    then show ?thesis using approve [of r "fst a" "snd a"]
      by (cases "rotation_approve b r (fst a) (snd a)"; cases a) fastforce
  next
    case (Inr z)
    then show ?thesis using rotation_other_moves [of z r] by auto
  qed
  show "rotation_run b r evs = r" if "rotation_is_terminal (ro_status r)"
    using that by (rule rotation_frozen)
  show "(rotation_run b r evs)\<lparr>ro_approvals := [], ro_status := RotPending, ro_executable_at := None\<rparr>
      = r\<lparr>ro_approvals := [], ro_status := RotPending, ro_executable_at := None\<rparr>"
    by (rule rotation_run_frame)
qed

theorem rotation_lifecycle_witness:
  "rotation_run Debug (sample_rotation\<lparr>ro_status := RotFailed\<rparr>)
     [Inr OpMarkResharing, Inl (''G1'', 5), Inr OpMarkCompleted]
   = sample_rotation\<lparr>ro_status := RotFailed\<rparr>"
  by (rule rotation_lifecycle [THEN conjunct2, THEN conjunct1, rule_format])
    (simp add: rotation_is_terminal_def)

section \<open>A rotation settles\<close>

text \<open>How many calls of a run change the request.\<close>

fun effective_calls :: "build \<Rightarrow> rotation_request \<Rightarrow> (string \<times> u64 + rotation_op) list \<Rightarrow> nat" where
  "effective_calls b r [] = 0"
| "effective_calls b r (ev # evs) =
     (let r' = machine_step (rotation_approve b) rotation_other r ev
      in (if r' = r then 0 else 1) + effective_calls b r' evs)"

primrec rotation_rank :: "rotation_status \<Rightarrow> nat" where
  "rotation_rank RotNone = 0"
| "rotation_rank RotPending = 3"
| "rotation_rank RotQuorumReached = 2"
| "rotation_rank RotExecutable = 2"
| "rotation_rank RotResharing = 1"
| "rotation_rank RotCompleted = 0"
| "rotation_rank RotCancelled = 0"
| "rotation_rank RotFailed = 0"

definition rotation_measure :: "rotation_request \<Rightarrow> nat" where
  "rotation_measure r = rotation_rank (ro_status r) + (unat (ro_quorum_required r) - length (ro_approvals r))"

lemma rotation_next_rank: "y \<in> set (rotation_next x) \<Longrightarrow> rotation_rank y < rotation_rank x"
  by (cases x) auto

lemma rotation_approve_effect:
  "fst (rotation_approve b r g t) = r
   \<or> ro_status r = RotPending \<and> ro_quorum_required (fst (rotation_approve b r g t)) = ro_quorum_required r
     \<and> length (ro_approvals (fst (rotation_approve b r g t))) = Suc (length (ro_approvals r))
     \<and> (ro_status (fst (rotation_approve b r g t)) = RotQuorumReached
        \<or> ro_status (fst (rotation_approve b r g t)) = RotPending
          \<and> Suc (length (ro_approvals r)) < unat (ro_quorum_required r))"
  by (cases "add_u64 b t (ro_timelock_seconds r) :: (tss_error, u64) res")
    (simp_all add: rotation_approve_def Let_def)

lemma rotation_measure_decreases:
  assumes "machine_step (rotation_approve b) rotation_other r ev \<noteq> r"
  shows "rotation_measure (machine_step (rotation_approve b) rotation_other r ev) < rotation_measure r"
proof (cases ev)
  case (Inl a)
  with assms rotation_approve_effect [of b r "fst a" "snd a"] show ?thesis
    by (cases a) (auto simp: rotation_measure_def)
next
  case (Inr z)
  with assms have "ro_status (rotation_other z r) \<in> set (rotation_next (ro_status r))"
    using rotation_other_moves [of z r] by simp
  then have "rotation_rank (ro_status (rotation_other z r)) < rotation_rank (ro_status r)"
    by (rule rotation_next_rank)
  with Inr show ?thesis by (simp add: rotation_measure_def rotation_other_keeps)
qed

text \<open>
  Claim C30. A rotation settles. No run of calls, however long and in whatever order, keeps changing a
  request: at most one call per required approval and three more have any effect, in debug and in
  release builds, with or without an overflow of the deadline.
\<close>

theorem rotation_settles:
  "effective_calls b r evs \<le> unat (ro_quorum_required r) + 3"
proof -
  have "effective_calls b r evs \<le> rotation_measure r"
  proof (induction evs arbitrary: r)
    case (Cons ev evs)
    let ?r = "machine_step (rotation_approve b) rotation_other r ev"
    show ?case using Cons.IH [of ?r] rotation_measure_decreases [of b r ev]
      by (cases "?r = r") (simp_all add: Let_def)
  qed simp
  moreover have "rotation_measure r \<le> unat (ro_quorum_required r) + 3"
    by (cases "ro_status r") (simp_all add: rotation_measure_def)
  ultimately show ?thesis by (rule le_trans)
qed

end
