(* ===== verification/Governance_Encoding.thy ===== *)
theory Governance_Encoding
  imports Governance
begin

text \<open>
  The canonical bytes of a rotation request: what they bind and what they leave out.
\<close>

definition participants_enc :: "string list \<Rightarrow> bytes" where
  "participants_enc ps = concat (map (\<lambda>p. u64_be (u64_of_usize (length p)) @ str_bytes p) ps)"

lemma u64_of_usize_inject:
  assumes "m < 2 ^ 64" and "n < 2 ^ 64"
  shows "u64_of_usize m = u64_of_usize n \<longleftrightarrow> m = n"
proof
  assume "u64_of_usize m = u64_of_usize n"
  then have "unat (u64_of_usize m) = unat (u64_of_usize n)" by simp
  with assms show "m = n" by (simp add: u64_of_usize_def unat_of_nat)
qed simp

lemma ucast_u32_u64_inject: "(ucast (a :: u32) :: u64) = ucast b \<longleftrightarrow> a = b"
proof
  assume "(ucast a :: u64) = ucast b"
  then have "unat (ucast a :: u64) = unat (ucast b :: u64)" by simp
  moreover have "unat (ucast c :: u64) = unat c" for c :: u32
    using unat_lt2p [of c] by (simp add: unsigned_ucast_eq unsigned_take_bit_eq take_bit_eq_mod)
  ultimately show "a = b" by (simp add: word_unat_eq_iff)
qed simp

lemma participants_enc_inject:
  assumes "length ps = length qs" and "list_all (\<lambda>p. length p < 2 ^ 64) ps"
    and "list_all (\<lambda>p. length p < 2 ^ 64) qs"
    and "participants_enc ps @ xs = participants_enc qs @ ys"
  shows "ps = qs \<and> xs = ys"
  using assms
proof (induction ps qs rule: list_induct2)
  case Nil
  then show ?case by (simp add: participants_enc_def)
next
  case (Cons p ps q qs)
  have "u64_of_usize (length p) = u64_of_usize (length q)"
    and r: "str_bytes p @ participants_enc ps @ xs = str_bytes q @ participants_enc qs @ ys"
    using Cons.prems(3) by (simp_all add: participants_enc_def)
  with Cons.prems(1,2) have "length p = length q" by (simp add: u64_of_usize_inject)
  with r have "p = q" "participants_enc ps @ xs = participants_enc qs @ ys" by simp_all
  with Cons.IH Cons.prems(1,2) show ?case by simp
qed

text \<open>Arrays have their lengths and \<open>usize\<close> values fit in 64 bits.\<close>

definition rotation_wf :: "rotation_request \<Rightarrow> bool" where
  "rotation_wf r \<longleftrightarrow> length (ro_wallet r) = 20 \<and> length (ro_group_public_key r) = 33
     \<and> length (ro_new_set r) < 2 ^ 64 \<and> list_all (\<lambda>p. length p < 2 ^ 64) (ro_new_set r)
     \<and> ro_threshold r < 2 ^ 64"

text \<open>What is encoded: not the requester, not the governance reference, not the progress.\<close>

definition rotation_intent :: "rotation_request \<Rightarrow> rotation_request" where
  "rotation_intent r = r\<lparr>ro_requested_by := [], ro_governance_reference := [], ro_executable_at := None,
     ro_approvals := [], ro_status := RotPending\<rparr>"

lemma rotation_canonical_cong:
  "rotation_intent r = rotation_intent s \<Longrightarrow> rotation_canonical_bytes r = rotation_canonical_bytes s"
  by (cases r; cases s) (simp add: rotation_intent_def rotation_canonical_bytes_def)

lemma rotation_canonical_eq:
  "rotation_canonical_bytes r = str_bytes ''KEYMESH_TSS_ROTATION_V1'' @ u64_be (ro_id r) @ ro_wallet r
     @ u64_be (ro_old_version r) @ u64_be (u64_of_usize (length (ro_new_set r)))
     @ participants_enc (ro_new_set r) @ u64_be (u64_of_usize (ro_threshold r))
     @ u64_be (ucast (ro_quorum_required r)) @ u64_be (ro_timelock_seconds r)
     @ u64_be (ro_created_at r) @ ro_group_public_key r"
  by (simp add: rotation_canonical_bytes_def participants_enc_def)

lemma rotation_canonical_inject:
  assumes "rotation_wf r" and "rotation_wf s"
    and "rotation_canonical_bytes r = rotation_canonical_bytes s"
  shows "rotation_intent r = rotation_intent s"
proof -
  let ?t = "\<lambda>r. u64_be (u64_of_usize (ro_threshold r)) @ u64_be (ucast (ro_quorum_required r))
     @ u64_be (ro_timelock_seconds r) @ u64_be (ro_created_at r) @ ro_group_public_key r"
  have h: "ro_id r = ro_id s" "ro_wallet r = ro_wallet s" "ro_old_version r = ro_old_version s"
      "u64_of_usize (length (ro_new_set r)) = u64_of_usize (length (ro_new_set s))"
      "participants_enc (ro_new_set r) @ ?t r = participants_enc (ro_new_set s) @ ?t s"
    using assms by (simp_all add: rotation_canonical_eq rotation_wf_def)
  have "length (ro_new_set r) = length (ro_new_set s)"
    using h(4) assms(1,2) by (simp add: rotation_wf_def u64_of_usize_inject)
  from participants_enc_inject [OF this _ _ h(5)] assms(1,2)
  have ps: "ro_new_set r = ro_new_set s" and t: "?t r = ?t s" by (simp_all add: rotation_wf_def)
  from t have "u64_of_usize (ro_threshold r) = u64_of_usize (ro_threshold s)"
      "ro_quorum_required r = ro_quorum_required s" "ro_timelock_seconds r = ro_timelock_seconds s"
      "ro_created_at r = ro_created_at s" "ro_group_public_key r = ro_group_public_key s"
    by (simp_all add: ucast_u32_u64_inject)
  moreover from this(1) assms(1,2) have "ro_threshold r = ro_threshold s"
    by (simp add: rotation_wf_def u64_of_usize_inject)
  ultimately show ?thesis using h(1-3) ps by (cases r; cases s) (simp add: rotation_intent_def)
qed

text \<open>
  Claim C20. The canonical bytes of a rotation bind exactly its intent: two requests share them
  if and only if they agree in id, wallet, version, participants (in order), threshold, quorum,
  timelock, creation time and group key. Who requested it and under which governance reference
  is not bound, and neither is its progress.
\<close>

theorem rotation_canonical_injective:
  assumes "rotation_wf r" and "rotation_wf s"
  shows "rotation_canonical_bytes r = rotation_canonical_bytes s
    \<longleftrightarrow> rotation_intent r = rotation_intent s"
  using rotation_canonical_inject [OF assms] rotation_canonical_cong by blast

theorem rotation_canonical_injective_witness:
  "rotation_canonical_bytes (sample_rotation\<lparr>ro_requested_by := ''mallory''\<rparr>)
      = rotation_canonical_bytes sample_rotation
   \<and> rotation_canonical_bytes (sample_rotation\<lparr>ro_new_set := [''AB'', '''', ''P2'']\<rparr>)
      \<noteq> rotation_canonical_bytes sample_rotation"
proof -
  have w: "rotation_wf sample_rotation" "rotation_wf (sample_rotation\<lparr>ro_requested_by := ''mallory''\<rparr>)"
      "rotation_wf (sample_rotation\<lparr>ro_new_set := [''AB'', '''', ''P2'']\<rparr>)"
    by (simp_all add: rotation_wf_def sample_rotation_def)
  have "rotation_intent (sample_rotation\<lparr>ro_requested_by := ''mallory''\<rparr>) = rotation_intent sample_rotation"
      "rotation_intent (sample_rotation\<lparr>ro_new_set := [''AB'', '''', ''P2'']\<rparr>) \<noteq> rotation_intent sample_rotation"
    by (simp_all add: rotation_intent_def sample_rotation_def)
  then show ?thesis
    using rotation_canonical_injective [OF w(2,1)] rotation_canonical_injective [OF w(3,1)] by blast
qed

text \<open>The progress of a rotation never changes its canonical bytes.\<close>

lemma rotation_run_canonical: "rotation_canonical_bytes (rotation_run b r evs) = rotation_canonical_bytes r"
proof (induction evs arbitrary: r)
  case Nil
  then show ?case by (simp add: rotation_run_def machine_run_def)
next
  case (Cons ev evs)
  have "rotation_canonical_bytes (machine_step (rotation_approve b) rotation_other r ev)
      = rotation_canonical_bytes r"
  proof (cases ev)
    case (Inl a)
    then show ?thesis
      by (auto simp: rotation_approve_def rotation_canonical_bytes_def Let_def split: res.split)
  next
    case (Inr z)
    then show ?thesis
      by (cases z) (auto simp: rotation_ops rotation_canonical_bytes_def Let_def)
  qed
  with Cons show ?case by (simp add: rotation_run_def machine_run_def)
qed

end
