(* ===== verification/Tss_Material.thy ===== *)
theory Tss_Material
  imports Tss_Session
begin

text \<open>
  Threshold key material: participants (\<open>crates/keymesh-tss/src/participant.rs\<close>), the group key and
  its Ethereum address (\<open>dkg.rs\<close>, \<open>lib.rs\<close>), and the set-up of a 2-of-3 network by distributed key
  generation, resharing and auxiliary data generation (\<open>dkg.rs\<close>).

  The protocols themselves are those of the crates \<open>synedrion\<close> and \<open>manul\<close>. They are the fields of
  the parameter record \<open>mpc\<close>: constructors of protocol entry points, the runs of a list of entry
  points (an error of \<open>run_sync\<close> outside, one of \<open>results\<close> inside, and otherwise the results of
  the parties in the order of the ordered map), and the accessors of shares and keys. A value
  of \<open>mpc\<close> is one outcome of the randomness of the protocols; the theorems hold for all of them.
\<close>

section \<open>The protocols\<close>

text \<open>The arguments of \<open>NewHolder\<close>, a public structure of \<open>synedrion\<close>.\<close>

record ('v, 'vk) new_holder =
  nh_verifying_key :: 'vk
  nh_old_threshold :: nat
  nh_old_holders :: "'v set"

type_synonym 'a run_outcome = "(string, (string, 'a) res) res"

record ('sn, 'v, 'sh, 'ax, 'vk, 'ep, 'ks, 'sg) mpc =
  signer_new :: "u8 \<Rightarrow> 'sn"
  signer_verifier :: "'sn \<Rightarrow> 'v"
  key_init_new :: "'v set \<Rightarrow> (string, 'ep) res"
  run_key_init :: "('sn \<times> 'ep) list \<Rightarrow> ('v \<times> 'ks) list run_outcome"
  from_key_share :: "'ks \<Rightarrow> 'sh"
  resharing_new :: "'sh option \<Rightarrow> ('v, 'vk) new_holder option \<Rightarrow> 'v set \<Rightarrow> nat \<Rightarrow> 'ep"
  run_resharing :: "('sn \<times> 'ep) list \<Rightarrow> ('v \<times> 'sh option) list run_outcome"
  aux_gen_new :: "'v set \<Rightarrow> (string, 'ep) res"
  run_aux_gen :: "('sn \<times> 'ep) list \<Rightarrow> ('v \<times> 'ax) list run_outcome"
  share_verifying_key :: "'sh \<Rightarrow> (string, 'vk) res"
  share_threshold :: "'sh \<Rightarrow> nat"
  to_key_share :: "'sh \<Rightarrow> 'v set \<Rightarrow> (string, 'ks) res"
  aux_subset :: "'ax \<Rightarrow> 'v set \<Rightarrow> (string, 'ax) res"
  signing_new :: "bytes \<Rightarrow> 'ks \<Rightarrow> 'ax \<Rightarrow> (string, 'ep) res"
  run_signing :: "('sn \<times> 'ep) list \<Rightarrow> ('v \<times> 'sg) list run_outcome"
  vk_uncompressed :: "'vk \<Rightarrow> bytes"
  vk_compressed :: "'vk \<Rightarrow> bytes"
  mpc_keccak :: "bytes \<Rightarrow> bytes"
  debug_verifier :: "'v \<Rightarrow> string"

definition run_results ::
  "(string \<Rightarrow> 'e) \<Rightarrow> (string \<Rightarrow> 'e) \<Rightarrow> 'a run_outcome \<Rightarrow> ('e, 'a) res" where
  "run_results f g r = res_bind (map_err f r) (map_err g)"

section \<open>Participants and material\<close>

record ('sn, 'v, 'sh, 'ax) participant =
  p_index :: u8
  p_signer :: 'sn
  p_verifier :: 'v
  p_share :: 'sh
  p_aux :: 'ax

definition ethereum_address_from_verifying_key ::
  "('sn, 'v, 'sh, 'ax, 'vk, 'ep, 'ks, 'sg) mpc \<Rightarrow> 'vk \<Rightarrow> bytes" where
  "ethereum_address_from_verifying_key M vk = drop 12 (mpc_keccak M (drop 1 (vk_uncompressed M vk)))"

text \<open>\<open>verifying_key\<close> of a participant: the \<open>expect\<close> is a panic.\<close>

definition participant_verifying_key ::
  "('sn, 'v, 'sh, 'ax, 'vk, 'ep, 'ks, 'sg) mpc \<Rightarrow> ('sn, 'v, 'sh, 'ax) participant \<Rightarrow> (string, 'vk) res" where
  "participant_verifying_key M p = unwrap_res (share_verifying_key M (p_share p))"

definition participant_ethereum_address ::
  "('sn, 'v, 'sh, 'ax, 'vk, 'ep, 'ks, 'sg) mpc \<Rightarrow> ('sn, 'v, 'sh, 'ax) participant \<Rightarrow> (string, bytes) res" where
  "participant_ethereum_address M p =
     res_bind (participant_verifying_key M p) (\<lambda>vk. Ok (ethereum_address_from_verifying_key M vk))"

record 'vk group_public_key =
  g_verifying_key :: 'vk
  g_ethereum_address :: bytes

record ('sn, 'v, 'sh, 'ax, 'vk) key_material =
  m_participants :: "('sn, 'v, 'sh, 'ax) participant list"
  m_group_key :: "'vk group_public_key"
  m_threshold :: nat
  m_total :: nat

definition make_group_key ::
  "('sn, 'v, 'sh, 'ax, 'vk, 'ep, 'ks, 'sg) mpc \<Rightarrow> 'vk \<Rightarrow> 'vk group_public_key" where
  "make_group_key M vk =
     \<lparr>g_verifying_key = vk, g_ethereum_address = ethereum_address_from_verifying_key M vk\<rparr>"

definition make_signers ::
  "('sn, 'v, 'sh, 'ax, 'vk, 'ep, 'ks, 'sg) mpc \<Rightarrow> nat \<Rightarrow> 'sn list \<times> 'v list" where
  "make_signers M n =
     (let signers = map (\<lambda>i. signer_new M (word_of_nat i)) [0..<n] in
       (signers, map (signer_verifier M) signers))"

section \<open>Distributed key generation\<close>

text \<open>Auxiliary data for the given signers among the given verifiers, as every set-up ends with.\<close>

definition aux_gen_for ::
  "(string \<Rightarrow> tss_error) \<Rightarrow> ('sn, 'v, 'sh, 'ax, 'vk, 'ep, 'ks, 'sg) mpc \<Rightarrow> 'v set \<Rightarrow> 'sn list
     \<Rightarrow> (tss_error, ('v \<times> 'ax) list) res" where
  "aux_gen_for err M ids signers =
     res_bind (collect_res (\<lambda>s. res_bind (map_err (\<lambda>e. err (''AuxGen new: '' @ e)) (aux_gen_new M ids))
         (\<lambda>ep. Ok (s, ep))) signers) (\<lambda>entry_points.
       run_results (\<lambda>e. err (''AuxGen run_sync: '' @ e)) (\<lambda>e. err (''AuxGen results: '' @ e))
         (run_aux_gen M entry_points))"

definition assemble ::
  "(u8 \<times> 'sn \<times> 'v) list \<Rightarrow> ('v \<times> 'sh) list \<Rightarrow> ('v \<times> 'ax) list
     \<Rightarrow> (tss_error, ('sn, 'v, 'sh, 'ax) participant list) res" where
  "assemble who shares auxs =
     collect_res (\<lambda>(i, s, v).
       res_bind (unwrap (map_of shares v)) (\<lambda>sh.
         res_bind (unwrap (map_of auxs v)) (\<lambda>ax.
           Ok \<lparr>p_index = i, p_signer = s, p_verifier = v, p_share = sh, p_aux = ax\<rparr>))) who"

definition setup_2of3 ::
  "('sn, 'v, 'sh, 'ax, 'vk, 'ep, 'ks, 'sg) mpc \<Rightarrow> (tss_error, ('sn, 'v, 'sh, 'ax, 'vk) key_material) res" where
  "setup_2of3 M =
     (let t = 2; n = 3;
          (signers, verifiers) = make_signers M n;
          all_verifiers = set verifiers;
          old_holders = set (take t verifiers)
      in
      res_bind (collect_res (\<lambda>s. res_bind (map_err DkgFailed (key_init_new M old_holders))
          (\<lambda>ep. Ok (s, ep))) (take t signers)) (\<lambda>init_points.
      res_bind (run_results (\<lambda>e. DkgFailed (''KeyInit run_sync: '' @ e))
          (\<lambda>e. DkgFailed (''KeyInit results: '' @ e)) (run_key_init M init_points)) (\<lambda>key_shares.
      let t_key_shares = map (\<lambda>(v, ks). (v, from_key_share M ks)) key_shares in
      res_bind (unwrap (map_of t_key_shares (verifiers ! 0))) (\<lambda>share0.
      res_bind (map_err (\<lambda>e. DkgFailed (''vk: '' @ e)) (share_verifying_key M share0)) (\<lambda>vk.
      let holder = \<lparr>nh_verifying_key = vk, nh_old_threshold = share_threshold M share0,
                    nh_old_holders = old_holders\<rparr> in
      res_bind (collect_res (\<lambda>idx. res_bind (unwrap (map_of t_key_shares (verifiers ! idx))) (\<lambda>ks.
          Ok (signers ! idx, resharing_new M (Some ks) (Some holder) all_verifiers t))) [0..<t])
        (\<lambda>old_points.
      let entry_points = old_points @
        map (\<lambda>idx. (signers ! idx, resharing_new M None (Some holder) all_verifiers t)) [t..<n] in
      res_bind (run_results (\<lambda>e. DkgFailed (''KeyResharing run_sync: '' @ e))
          (\<lambda>e. DkgFailed (''KeyResharing results: '' @ e)) (run_resharing M entry_points)) (\<lambda>share_map.
      res_bind (collect_res (\<lambda>(v, opt). res_bind (unwrap opt) (\<lambda>ks. Ok (v, ks))) share_map)
        (\<lambda>new_shares.
      res_bind (unwrap (map_of new_shares (verifiers ! 0))) (\<lambda>s0.
      res_bind (unwrap_res (share_verifying_key M s0)) (\<lambda>vk0.
      res_bind (collect_res (\<lambda>v. res_bind (unwrap (map_of new_shares v)) (\<lambda>s.
          res_bind (unwrap_res (share_verifying_key M s)) (\<lambda>vk.
            if vk = vk0 then Ok () else Panic))) verifiers) (\<lambda>_.
      res_bind (aux_gen_for DkgFailed M all_verifiers signers) (\<lambda>aux_infos.
      res_bind (assemble (map (\<lambda>idx. (word_of_nat idx, signers ! idx, verifiers ! idx)) [0..<n])
          new_shares aux_infos) (\<lambda>participants.
      Ok \<lparr>m_participants = participants, m_group_key = make_group_key M vk0,
          m_threshold = t, m_total = n\<rparr>)))))))))))))"

section \<open>What a set-up guarantees\<close>

text \<open>Material whose participants are numbered, hold shares of the group key, and are enough.\<close>

definition material_wf ::
  "('sn, 'v, 'sh, 'ax, 'vk, 'ep, 'ks, 'sg) mpc \<Rightarrow> ('sn, 'v, 'sh, 'ax, 'vk) key_material \<Rightarrow> bool" where
  "material_wf M m \<longleftrightarrow>
     length (m_participants m) = m_total m \<and> 0 < m_threshold m \<and> m_threshold m \<le> m_total m
     \<and> map p_index (m_participants m) = map word_of_nat [0..<m_total m]
     \<and> list_all (\<lambda>p. share_verifying_key M (p_share p) = Ok (g_verifying_key (m_group_key m)))
         (m_participants m)
     \<and> g_ethereum_address (m_group_key m)
         = ethereum_address_from_verifying_key M (g_verifying_key (m_group_key m))"

lemma assemble_Ok:
  fixes who :: "(u8 \<times> 'a \<times> 'b) list" and shares :: "('b \<times> 'c) list" and auxs :: "('b \<times> 'd) list"
  shows "assemble who shares auxs = Ok ps \<Longrightarrow>
   length ps = length who \<and> map p_index ps = map fst who \<and> map p_signer ps = map (fst \<circ> snd) who
   \<and> map p_verifier ps = map (snd \<circ> snd) who
   \<and> (\<forall>p \<in> set ps. map_of shares (p_verifier p) = Some (p_share p)
        \<and> map_of auxs (p_verifier p) = Some (p_aux p))"
  unfolding assemble_def
proof (induction who arbitrary: ps)
  case Nil
  then show ?case by simp
next
  case (Cons w who)
  obtain i s v where w: "w = (i, s, v)" by (cases w)
  from Cons.prems obtain sh ax qs where q: "map_of shares v = Some sh" "map_of auxs v = Some ax"
      "collect_res (\<lambda>(i, s, v). res_bind (unwrap (map_of shares v)) (\<lambda>sh.
         res_bind (unwrap (map_of auxs v)) (\<lambda>ax.
           Ok \<lparr>p_index = i, p_signer = s, p_verifier = v, p_share = sh, p_aux = ax\<rparr>))) who
           = (Ok qs :: (tss_error, ('a, 'b, 'c, 'd) participant list) res)"
      "ps = \<lparr>p_index = i, p_signer = s, p_verifier = v, p_share = sh, p_aux = ax\<rparr> # qs"
    by (auto simp: w)
  with Cons.IH [OF q(3)] w show ?case by auto
qed

lemma collect_res_all:
  "collect_res f xs = Ok ys \<Longrightarrow> x \<in> set xs \<Longrightarrow> \<exists>y. f x = Ok y"
  by (induction xs arbitrary: ys) auto

lemma setup_2of3_facts:
  assumes "setup_2of3 M = Ok m"
  shows "material_wf M m \<and> m_threshold m = 2 \<and> m_total m = 3
    \<and> map p_verifier (m_participants m) = map (\<lambda>i. signer_verifier M (signer_new M i)) [0, 1, 2]"
proof -
  obtain signers verifiers where sv: "make_signers M 3 = (signers, verifiers)"
    by (cases "make_signers M 3")
  then have l: "length signers = 3" "length verifiers = 3"
      and v: "verifiers = map (\<lambda>i. signer_verifier M (signer_new M i)) [0, 1, 2]"
    by (auto simp: make_signers_def Let_def upt_rec)
  from assms sv obtain vk0 new_shares aux_infos ps us where
      checked: "collect_res (\<lambda>v. res_bind (unwrap (map_of new_shares v)) (\<lambda>s.
          res_bind (unwrap_res (share_verifying_key M s)) (\<lambda>vk.
            if vk = vk0 then Ok () else Panic))) verifiers = (Ok us :: (tss_error, unit list) res)"
    and asm: "assemble (map (\<lambda>idx. (word_of_nat idx, signers ! idx, verifiers ! idx)) [0..<3])
          new_shares aux_infos = Ok ps"
    and m: "m = \<lparr>m_participants = ps, m_group_key = make_group_key M vk0, m_threshold = 2, m_total = 3\<rparr>"
    unfolding setup_2of3_def Let_def by (auto simp: numeral_3_eq_3)
  have "length ps = 3" "map p_index ps = map word_of_nat [0..<3]"
      "map p_verifier ps = map ((!) verifiers) [0..<3]"
    using assemble_Ok [OF asm] by (auto simp: comp_def)
  moreover from this(3) l have pv: "map p_verifier ps = verifiers" by (metis map_nth)
  moreover have "share_verifying_key M (p_share p) = Ok vk0" if "p \<in> set ps" for p
  proof -
    have "p_verifier p \<in> set verifiers" using that pv by (metis imageI set_map)
    from collect_res_all [OF checked this] assemble_Ok [OF asm] that show ?thesis
      by (cases "share_verifying_key M (p_share p)") (auto split: if_splits)
  qed
  ultimately show ?thesis using m v
    by (simp add: material_wf_def make_group_key_def list_all_iff)
qed

lemma setup_2of3_material: "setup_2of3 M = Ok m \<Longrightarrow> material_wf M m"
  using setup_2of3_facts by blast

text \<open>
  Key generation. Whatever the protocols return, a set-up that succeeds yields
  2-of-3 material with participants numbered 0, 1, 2, every share of which has the group's
  verifying key, and the address derived from that key.
\<close>

theorem setup_2of3_wf:
  assumes "setup_2of3 M = Ok m"
  shows "material_wf M m \<and> m_threshold m = 2 \<and> m_total m = 3
    \<and> map p_verifier (m_participants m) = map (\<lambda>i. signer_verifier M (signer_new M i)) [0, 1, 2]"
  by (rule setup_2of3_facts [OF assms])

text \<open>A toy outcome of the protocols: shares are the parties' numbers, the group key is 42.\<close>

definition toy_mpc :: "(nat, nat, nat, unit, nat, nat, nat, nat) mpc" where
  "toy_mpc = \<lparr>signer_new = unat, signer_verifier = (\<lambda>s. s),
     key_init_new = (\<lambda>_. Ok 0), run_key_init = (\<lambda>eps. Ok (Ok (map (\<lambda>(s, _). (s, s)) eps))),
     from_key_share = (\<lambda>ks. ks),
     resharing_new = (\<lambda>sh nh hs t. case nh of None \<Rightarrow> 0 | Some _ \<Rightarrow> 1),
     run_resharing = (\<lambda>eps. Ok (Ok (map (\<lambda>(s, e). (s, if e = 0 then None else Some s)) eps))),
     aux_gen_new = (\<lambda>_. Ok 0), run_aux_gen = (\<lambda>eps. Ok (Ok (map (\<lambda>(s, _). (s, ())) eps))),
     share_verifying_key = (\<lambda>_. Ok 42), share_threshold = (\<lambda>_. 2),
     to_key_share = (\<lambda>sh _. Ok sh), aux_subset = (\<lambda>a _. Ok a), signing_new = (\<lambda>_ _ _. Ok 0),
     run_signing = (\<lambda>eps. Ok (Ok (map (\<lambda>(s, _). (s, 7)) eps))),
     vk_uncompressed = (\<lambda>_. 4 # replicate 64 1), vk_compressed = (\<lambda>_. 2 # replicate 32 1),
     mpc_keccak = (\<lambda>_. replicate 32 0), debug_verifier = show_nat\<rparr>"

definition toy_material :: "(nat, nat, nat, unit, nat) key_material" where
  "toy_material = \<lparr>m_participants = map (\<lambda>i. \<lparr>p_index = word_of_nat i, p_signer = i, p_verifier = i,
       p_share = i, p_aux = ()\<rparr>) [0, 1, 2],
     m_group_key = \<lparr>g_verifying_key = 42, g_ethereum_address = replicate 20 0\<rparr>,
     m_threshold = 2, m_total = 3\<rparr>"

lemma toy_setup: "setup_2of3 toy_mpc = Ok toy_material"
proof -
  have "make_signers toy_mpc 3 = ([0, 1, 2], [0, 1, 2])"
    by (simp add: make_signers_def toy_mpc_def Let_def upt_rec)
  then show ?thesis
    by (simp add: setup_2of3_def Let_def run_results_def aux_gen_for_def assemble_def
        make_group_key_def ethereum_address_from_verifying_key_def upt_rec
        toy_mpc_def toy_material_def del: res_bind_Ok_iff map_err_Ok_iff)
qed

theorem setup_2of3_wf_witness:
  "material_wf toy_mpc toy_material \<and> m_threshold toy_material = 2 \<and> m_total toy_material = 3
    \<and> map p_verifier (m_participants toy_material)
      = map (\<lambda>i. signer_verifier toy_mpc (signer_new toy_mpc i)) [0, 1, 2]"
  by (rule setup_2of3_wf [OF toy_setup])

end
