(* ===== verification/Resharing.thy ===== *)
theory Resharing
  imports Tss_Material
begin

text \<open>
  The cryptographic steps of the key lifecycle (\<open>crates/keymesh-tss/src/lifecycle.rs\<close>):
  \<open>do_refresh_via_resharing\<close>, which reshares to the same parties, and
  \<open>do_rotation_via_resharing\<close>, which reshares to a new participant set whose names are mapped to
  signers by position and alias. Indexing an empty list or a missing key is a panic.

  The maps \<open>signer_map\<close>, \<open>all_signers_map\<close> and \<open>reuse_old\<close> of the code are filled and never read;
  they are left out.
\<close>

section \<open>Ordered maps\<close>

text \<open>\<open>BTreeMap::insert\<close>: an association list in key order.\<close>

fun bt_insert :: "'k::linorder \<Rightarrow> 'a \<Rightarrow> ('k \<times> 'a) list \<Rightarrow> ('k \<times> 'a) list" where
  "bt_insert k a [] = [(k, a)]"
| "bt_insert k a ((k', a') # xs) =
     (if k < k' then (k, a) # (k', a') # xs
      else if k = k' then (k, a) # xs
      else (k', a') # bt_insert k a xs)"

lemma map_of_bt_insert [simp]: "map_of (bt_insert k a xs) k' = (if k' = k then Some a else map_of xs k')"
  by (induction xs) (auto split: if_splits)

lemma bt_insert_neq_Nil [simp]: "bt_insert k a xs \<noteq> []"
  by (cases "(k, a, xs)" rule: bt_insert.cases) auto

section \<open>Refresh\<close>

definition do_refresh_via_resharing ::
  "('sn, 'v, 'sh, 'ax, 'vk, 'ep, 'ks, 'sg) mpc \<Rightarrow> ('sn, 'v, 'sh, 'ax, 'vk) key_material
     \<Rightarrow> (tss_error, ('sn, 'v, 'sh, 'ax, 'vk) key_material) res" where
  "do_refresh_via_resharing M old_mat =
     (let n = m_total old_mat; t = m_threshold old_mat;
          all_verifiers = set (map p_verifier (m_participants old_mat));
          verifying_key = g_verifying_key (m_group_key old_mat)
      in
      res_bind (case m_participants old_mat of [] \<Rightarrow> Panic | p # ps \<Rightarrow> Ok p) (\<lambda>first.
      let holder = \<lparr>nh_verifying_key = verifying_key,
                    nh_old_threshold = share_threshold M (p_share first),
                    nh_old_holders = all_verifiers\<rparr>;
          entry_points = map (\<lambda>p. (p_signer p,
            resharing_new M (Some (p_share p)) (Some holder) all_verifiers t)) (m_participants old_mat)
      in
      res_bind (run_results (\<lambda>e. RefreshFailed (''KeyResharing run_sync: '' @ e))
          (\<lambda>e. RefreshFailed (''results: '' @ e)) (run_resharing M entry_points)) (\<lambda>reshared_map.
      res_bind (collect_res (\<lambda>(v, opt).
          res_bind (ok_or (RefreshFailed ''missing share for refresh'') opt) (\<lambda>ks. Ok (v, ks)))
          reshared_map) (\<lambda>new_shares.
      res_bind (case new_shares of [] \<Rightarrow> Panic | (v, s) # rest \<Rightarrow> Ok s) (\<lambda>s0.
      res_bind (map_err RefreshFailed (share_verifying_key M s0)) (\<lambda>vk0.
      res_bind (collect_res (\<lambda>(v, s). res_bind (map_err RefreshFailed (share_verifying_key M s)) (\<lambda>vk.
          if vk \<noteq> vk0 then Err (RefreshFailed (''VK mismatch for '' @ debug_verifier M v)) else Ok ()))
          new_shares) (\<lambda>_.
      if vk0 \<noteq> verifying_key then Err (RefreshFailed ''VK changed after refresh'')
      else
      res_bind (aux_gen_for RefreshFailed M all_verifiers (map p_signer (m_participants old_mat)))
        (\<lambda>aux_infos.
      res_bind (assemble (map (\<lambda>p. (p_index p, p_signer p, p_verifier p)) (m_participants old_mat))
          new_shares aux_infos) (\<lambda>participants.
      Ok \<lparr>m_participants = participants, m_group_key = make_group_key M vk0,
          m_threshold = t, m_total = n\<rparr>)))))))))"

section \<open>Rotation\<close>

definition participant_alias :: "nat \<Rightarrow> string option" where
  "participant_alias idx =
     (if idx = 0 then Some ''A'' else if idx = 1 then Some ''B'' else if idx = 2 then Some ''C''
      else if idx = 3 then Some ''D'' else if idx = 4 then Some ''E'' else None)"

definition name_to_old_idx :: "nat \<Rightarrow> string \<Rightarrow> nat option" where
  "name_to_old_idx n_old =
     foldl (\<lambda>m idx.
         let m = m(''P'' @ show_nat idx \<mapsto> idx) in
         (case participant_alias idx of None \<Rightarrow> m | Some a \<Rightarrow> m(a \<mapsto> idx)))
       (\<lambda>_. None) [0..<n_old]"

text \<open>The signer, the verifier and whether they are fresh, for the name at a position.\<close>

definition assign_signer ::
  "('sn, 'v, 'sh, 'ax, 'vk, 'ep, 'ks, 'sg) mpc \<Rightarrow> ('sn, 'v, 'sh, 'ax) participant list
     \<Rightarrow> nat \<times> string \<Rightarrow> 'sn \<times> 'v \<times> bool" where
  "assign_signer M old pos =
     (case name_to_old_idx (length old) (snd pos) of
        Some old_idx \<Rightarrow> (p_signer (old ! old_idx), p_verifier (old ! old_idx), False)
      | None \<Rightarrow>
          (let signer = signer_new M (word_of_nat (100 + fst pos)) in
            (signer, signer_verifier M signer, True)))"

definition assign_signers ::
  "('sn, 'v, 'sh, 'ax, 'vk, 'ep, 'ks, 'sg) mpc \<Rightarrow> ('sn, 'v, 'sh, 'ax) participant list
     \<Rightarrow> string list \<Rightarrow> ('sn \<times> 'v \<times> bool) list" where
  "assign_signers M old names = map (assign_signer M old) (enumerate 0 names)"

text \<open>The shares of the new holders, collected in a map ordered by verifier.\<close>

definition collect_new_shares ::
  "('sn, 'v::linorder, 'sh, 'ax, 'vk, 'ep, 'ks, 'sg) mpc \<Rightarrow> 'v list \<Rightarrow> ('v \<rightharpoonup> 'sh option)
     \<Rightarrow> (tss_error, ('v \<times> 'sh) list) res" where
  "collect_new_shares M new_verifiers reshared_map =
     res_bind (collect_res (\<lambda>v.
          res_bind (ok_or (RotationFailed (''missing resharing result for verifier '' @ debug_verifier M v))
              (reshared_map v)) (\<lambda>opt.
          res_bind (ok_or (RotationFailed (''expected Some share for new holder '' @ debug_verifier M v))
              opt) (\<lambda>share. Ok (v, share)))) new_verifiers) (\<lambda>share_list.
     Ok (foldl (\<lambda>m (v, s). bt_insert v s m) [] share_list))"

text \<open>
  The end of \<open>do_rotation_via_resharing\<close>, from the resharing results on: the new shares, the check of
  the first one's verifying key, the new auxiliary information, and the new material.
\<close>

definition rotation_finish ::
  "('sn, 'v::linorder, 'sh, 'ax, 'vk, 'ep, 'ks, 'sg) mpc \<Rightarrow> 'vk \<Rightarrow> ('sn \<times> 'v \<times> bool) list \<Rightarrow> nat
     \<Rightarrow> ('v \<times> 'sh option) list \<Rightarrow> (tss_error, ('sn, 'v, 'sh, 'ax, 'vk) key_material) res" where
  "rotation_finish M verifying_key assigned new_threshold reshared_map =
     (let new_verifiers = map (fst \<circ> snd) assigned in
      res_bind (collect_new_shares M new_verifiers (map_of reshared_map)) (\<lambda>new_shares.
      res_bind (case new_shares of [] \<Rightarrow> Panic | (v, s) # rest \<Rightarrow> Ok s) (\<lambda>s0.
      res_bind (map_err RotationFailed (share_verifying_key M s0)) (\<lambda>vk0.
      if vk0 \<noteq> verifying_key then Err (RotationFailed ''VK changed after rotation'')
      else
      res_bind (aux_gen_for RotationFailed M (set new_verifiers) (map fst assigned)) (\<lambda>aux_infos.
      res_bind (assemble (map (\<lambda>(idx, s, v, fresh). (word_of_nat idx, s, v)) (enumerate 0 assigned))
          new_shares aux_infos) (\<lambda>participants.
      Ok \<lparr>m_participants = participants, m_group_key = make_group_key M vk0,
          m_threshold = new_threshold, m_total = length assigned\<rparr>))))))"

definition do_rotation_via_resharing ::
  "('sn, 'v::linorder, 'sh, 'ax, 'vk, 'ep, 'ks, 'sg) mpc \<Rightarrow> ('sn, 'v, 'sh, 'ax, 'vk) key_material
     \<Rightarrow> string list \<Rightarrow> nat \<Rightarrow> (tss_error, ('sn, 'v, 'sh, 'ax, 'vk) key_material) res" where
  "do_rotation_via_resharing M old_mat new_participant_ids new_threshold =
     (let verifying_key = g_verifying_key (m_group_key old_mat);
          old_verifiers = set (map p_verifier (m_participants old_mat));
          n_new = length new_participant_ids
      in
      if n_new < new_threshold
      then Err (InvalidThreshold (''threshold '' @ show_nat new_threshold @ '' > n_new '' @ show_nat n_new))
      else if n_new = 0 then Err (InvalidParticipantSet ''empty new set'')
      else
      let assigned = assign_signers M (m_participants old_mat) new_participant_ids;
          new_verifiers = map (fst \<circ> snd) assigned;
          new_holders = set new_verifiers
      in
      res_bind (case m_participants old_mat of [] \<Rightarrow> Panic | p # ps \<Rightarrow> Ok p) (\<lambda>first.
      let holder = \<lparr>nh_verifying_key = verifying_key,
                    nh_old_threshold = share_threshold M (p_share first),
                    nh_old_holders = old_verifiers\<rparr>;
          old_points = map (\<lambda>p. (p_signer p, resharing_new M (Some (p_share p))
              (if p_verifier p \<in> new_holders then Some holder else None) new_holders new_threshold))
            (m_participants old_mat);
          fresh_points = map (\<lambda>(s, v, fresh). (s, resharing_new M None (Some holder) new_holders new_threshold))
            (filter (\<lambda>(s, v, fresh). fresh \<and> v \<notin> old_verifiers) assigned)
      in
      res_bind (run_results (\<lambda>e. RotationFailed (''KeyResharing run_sync: '' @ e))
          (\<lambda>e. RotationFailed (''results: '' @ e)) (run_resharing M (old_points @ fresh_points)))
        (rotation_finish M verifying_key assigned new_threshold)))"

section \<open>What a refresh keeps\<close>

lemma refresh_Ok:
  assumes "do_refresh_via_resharing M old = Ok new"
  shows "m_group_key new = make_group_key M (g_verifying_key (m_group_key old))
    \<and> m_threshold new = m_threshold old \<and> m_total new = m_total old
    \<and> map p_index (m_participants new) = map p_index (m_participants old)
    \<and> map p_signer (m_participants new) = map p_signer (m_participants old)
    \<and> map p_verifier (m_participants new) = map p_verifier (m_participants old)
    \<and> list_all (\<lambda>p. share_verifying_key M (p_share p) = Ok (g_verifying_key (m_group_key old)))
        (m_participants new)"
proof -
  let ?vk = "g_verifying_key (m_group_key old)"
  from assms obtain new_shares aux_infos ps us where
      checked: "collect_res (\<lambda>(v, s). res_bind (map_err RefreshFailed (share_verifying_key M s)) (\<lambda>vk.
          if vk \<noteq> ?vk then Err (RefreshFailed (''VK mismatch for '' @ debug_verifier M v)) else Ok ()))
          new_shares = (Ok us :: (tss_error, unit list) res)"
    and asm: "assemble (map (\<lambda>p. (p_index p, p_signer p, p_verifier p)) (m_participants old))
          new_shares aux_infos = Ok ps"
    and new: "new = \<lparr>m_participants = ps, m_group_key = make_group_key M ?vk,
          m_threshold = m_threshold old, m_total = m_total old\<rparr>"
    unfolding do_refresh_via_resharing_def Let_def by (auto split: if_splits)
  have "share_verifying_key M (p_share p) = Ok ?vk" if "p \<in> set ps" for p
  proof -
    have "(p_verifier p, p_share p) \<in> set new_shares"
      using assemble_Ok [OF asm] that by (blast dest: map_of_SomeD)
    from collect_res_all [OF checked this] show ?thesis by (auto split: if_splits)
  qed
  with assemble_Ok [OF asm] new show ?thesis by (auto simp: comp_def list_all_iff)
qed

text \<open>
  A refresh keeps the key. From well-formed material, a refresh that succeeds returns
  well-formed material with the same group key, address, threshold and parties, and every new
  share has the group's verifying key.
\<close>

theorem refresh_preserves_material:
  assumes "material_wf M old" and "do_refresh_via_resharing M old = Ok new"
  shows "material_wf M new \<and> m_group_key new = m_group_key old
    \<and> m_threshold new = m_threshold old \<and> m_total new = m_total old
    \<and> map p_verifier (m_participants new) = map p_verifier (m_participants old)"
proof -
  have "m_group_key new = m_group_key old"
    using refresh_Ok [OF assms(2)] assms(1)
    by (cases "m_group_key old") (simp add: material_wf_def make_group_key_def)
  moreover have "length (m_participants new) = length (m_participants old)"
    using refresh_Ok [OF assms(2)] by (metis length_map)
  ultimately show ?thesis
    using refresh_Ok [OF assms(2)] assms(1) by (simp add: material_wf_def)
qed

lemma toy_refresh: "do_refresh_via_resharing toy_mpc toy_material = Ok toy_material"
  by (simp add: do_refresh_via_resharing_def Let_def run_results_def aux_gen_for_def assemble_def
      make_group_key_def ethereum_address_from_verifying_key_def toy_mpc_def toy_material_def
      del: res_bind_Ok_iff map_err_Ok_iff)

lemma toy_material_wf: "material_wf toy_mpc toy_material"
  by (simp add: material_wf_def toy_material_def toy_mpc_def upt_rec
      ethereum_address_from_verifying_key_def)

theorem refresh_preserves_material_witness:
  "material_wf toy_mpc toy_material \<and> m_group_key toy_material = m_group_key toy_material
    \<and> m_threshold toy_material = m_threshold toy_material \<and> m_total toy_material = m_total toy_material
    \<and> map p_verifier (m_participants toy_material) = map p_verifier (m_participants toy_material)"
  by (rule refresh_preserves_material [OF toy_material_wf toy_refresh])

section \<open>What a rotation keeps\<close>

lemma length_assign_signers [simp]: "length (assign_signers M old names) = length names"
  by (simp add: assign_signers_def)

lemma rotation_Ok:
  assumes "do_rotation_via_resharing M old names t = Ok new"
  shows "m_group_key new = make_group_key M (g_verifying_key (m_group_key old))
    \<and> m_threshold new = t \<and> m_total new = length names \<and> length (m_participants new) = length names
    \<and> t \<le> length names \<and> names \<noteq> []
    \<and> map p_index (m_participants new) = map word_of_nat [0..<length names]
    \<and> map p_verifier (m_participants new) = map (fst \<circ> snd) (assign_signers M (m_participants old) names)"
proof -
  let ?a = "assign_signers M (m_participants old) names"
  from assms obtain new_shares aux_infos ps where
      asm: "assemble (map (\<lambda>(idx, s, v, fresh). (word_of_nat idx, s, v)) (enumerate 0 ?a))
          new_shares aux_infos = Ok ps"
    and new: "new = \<lparr>m_participants = ps, m_group_key = make_group_key M (g_verifying_key (m_group_key old)),
          m_threshold = t, m_total = length names\<rparr>"
    and t: "t \<le> length names" "names \<noteq> []"
    unfolding do_rotation_via_resharing_def rotation_finish_def collect_new_shares_def Let_def by (auto split: if_splits)
  have e: "map (g \<circ> (\<lambda>(idx, s, v, fresh). (word_of_nat idx, s, v))) (enumerate 0 ?a)
      = map (\<lambda>(idx, s, v, fresh). g (word_of_nat idx, s, v)) (enumerate 0 ?a)" for g
    by (auto simp: comp_def)
  have "map p_index ps = map (\<lambda>(idx, s, v, fresh). word_of_nat idx) (enumerate 0 ?a)"
    using assemble_Ok [OF asm] by (simp add: comp_def case_prod_beta)
  also have "\<dots> = map (word_of_nat \<circ> fst) (enumerate 0 ?a)" by (auto simp: comp_def case_prod_beta)
  also have "\<dots> = map word_of_nat [0..<length names]"
    by (simp add: map_map [symmetric])
  finally have i: "map p_index ps = map word_of_nat [0..<length names]" .
  have "map p_verifier ps = map (fst \<circ> snd \<circ> snd) (enumerate 0 ?a)"
    using assemble_Ok [OF asm] by (simp add: comp_def case_prod_beta)
  also have "\<dots> = map (fst \<circ> snd) (map snd (enumerate 0 ?a))" by (simp only: map_map)
  also have "\<dots> = map (fst \<circ> snd) ?a" by (simp only: map_snd_enumerate)
  finally have "map p_verifier ps = map (fst \<circ> snd) ?a" .
  moreover have "length ps = length names" using i by (metis length_map length_upt diff_zero)
  ultimately show ?thesis using new t i by simp
qed

text \<open>
  A rotation keeps the key and installs the governed set. A rotation that succeeds
  returns material with the same verifying key and its derived address, the new threshold, one
  participant per new name, numbered from 0, each with the verifier its name was assigned; it
  never succeeds for an empty set or a threshold above its size.
\<close>

theorem rotation_preserves_key:
  assumes "do_rotation_via_resharing M old names t = Ok new" and "material_wf M old"
  shows "m_group_key new = m_group_key old \<and> m_threshold new = t \<and> m_total new = length names
    \<and> t \<le> length names \<and> names \<noteq> []
    \<and> map p_index (m_participants new) = map word_of_nat [0..<length names]
    \<and> map p_verifier (m_participants new) = map (fst \<circ> snd) (assign_signers M (m_participants old) names)"
proof -
  have "m_group_key new = m_group_key old"
    using rotation_Ok [OF assms(1)] assms(2)
    by (cases "m_group_key old") (simp add: material_wf_def make_group_key_def)
  then show ?thesis using rotation_Ok [OF assms(1)] by blast
qed

text \<open>Rotating the toy network from A, B, C to A, C and a newcomer.\<close>

definition rotated_material :: "(nat, nat, nat, unit, nat) key_material" where
  "rotated_material = \<lparr>m_participants = map (\<lambda>(i, s). \<lparr>p_index = i, p_signer = s, p_verifier = s,
       p_share = s, p_aux = ()\<rparr>) [(0, 0), (1, 2), (2, 102)],
     m_group_key = \<lparr>g_verifying_key = 42, g_ethereum_address = replicate 20 0\<rparr>,
     m_threshold = 2, m_total = 3\<rparr>"

lemma name_to_old_idx_3:
  "name_to_old_idx 3 = [''P0'' \<mapsto> 0, ''A'' \<mapsto> 0, ''P1'' \<mapsto> 1, ''B'' \<mapsto> 1, ''P2'' \<mapsto> 2, ''C'' \<mapsto> 2]"
  by (simp add: name_to_old_idx_def participant_alias_def show_small_nats upt_rec Let_def
      numeral_2_eq_2)

lemma toy_participants [simp]:
  "length (m_participants toy_material) = 3" "length (m_participants rotated_material) = 3"
  by (simp_all add: toy_material_def rotated_material_def)

lemma toy_assign: "assign_signers toy_mpc (m_participants toy_material) [''A'', ''C'', ''Zoe'']
    = [(0, 0, False), (2, 2, False), (102, 102, True)]"
  by (simp add: assign_signers_def assign_signer_def name_to_old_idx_3 Let_def enumerate_eq_zip upt_rec)
    (simp add: toy_material_def toy_mpc_def)

lemma toy_rotation:
  "do_rotation_via_resharing toy_mpc toy_material [''A'', ''C'', ''Zoe''] 2 = Ok rotated_material"
proof -
  have p: "m_participants toy_material \<noteq> []" by (simp add: toy_material_def)
  show ?thesis
    unfolding do_rotation_via_resharing_def rotation_finish_def collect_new_shares_def toy_assign
    by (simp add: Let_def run_results_def aux_gen_for_def assemble_def enumerate_eq_zip upt_rec
        make_group_key_def ethereum_address_from_verifying_key_def toy_mpc_def toy_material_def
        rotated_material_def del: res_bind_Ok_iff map_err_Ok_iff)
qed

theorem rotation_preserves_key_witness:
  "m_group_key rotated_material = m_group_key toy_material \<and> m_threshold rotated_material = 2
    \<and> m_total rotated_material = length [''A'', ''C'', ''Zoe''] \<and> 2 \<le> length [''A'', ''C'', ''Zoe'']
    \<and> [''A'', ''C'', ''Zoe''] \<noteq> []
    \<and> map p_index (m_participants rotated_material)
      = map word_of_nat [0..<length [''A'', ''C'', ''Zoe'']]
    \<and> map p_verifier (m_participants rotated_material)
      = map (fst \<circ> snd) (assign_signers toy_mpc (m_participants toy_material) [''A'', ''C'', ''Zoe''])"
  by (rule rotation_preserves_key [OF toy_rotation toy_material_wf])

section \<open>Names and signers\<close>

lemma name_to_old_idx_Suc:
  "name_to_old_idx (Suc n) =
     (let m = (name_to_old_idx n)(''P'' @ show_nat n \<mapsto> n) in
       (case participant_alias n of None \<Rightarrow> m | Some a \<Rightarrow> m(a \<mapsto> n)))"
  by (simp add: name_to_old_idx_def)

lemma participant_alias_not: "0 < n \<Longrightarrow> participant_alias n \<noteq> Some ''A'' \<and> participant_alias n \<noteq> Some ''P0''"
  by (simp add: participant_alias_def)

lemma name_to_old_idx_first:
  "name_to_old_idx (Suc n) ''A'' = Some 0 \<and> name_to_old_idx (Suc n) ''P0'' = Some 0"
proof (induction n)
  case 0
  then show ?case by (simp add: name_to_old_idx_def participant_alias_def show_small_nats Let_def)
next
  case (Suc n)
  have "show_nat (Suc n) \<noteq> show_nat 0" by simp
  then have "show_nat (Suc n) \<noteq> ''0''" by (simp only: show_small_nats not_False_eq_True)
  then have "''P'' @ show_nat (Suc n) \<noteq> ''P0''" "''P'' @ show_nat (Suc n) \<noteq> ''A''" by auto
  with Suc participant_alias_not [of "Suc n"] show ?case
    by (cases "participant_alias (Suc n)") (auto simp: name_to_old_idx_Suc [of "Suc n"] Let_def)
qed

text \<open>
  Claim C38. Distinct names, one signer. A rotation request insists on distinct names, but a name is an
  alias for a position: for every old set, \<open>A\<close> and \<open>P0\<close> are the same old participant, so a
  governed set that lists both gives two of its seats to one key. And a fresh name gets its
  signer from its position alone: rotating in another fresh name at the same position gives
  the newcomer the very signer of the participant it was to replace.
\<close>

theorem rotation_names_collide:
  assumes "old \<noteq> []" and "name_to_old_idx (length old) x = None"
    and "name_to_old_idx (length old') y = None"
  shows "assign_signer M old (i, ''A'') = assign_signer M old (j, ''P0'')
    \<and> assign_signer M old' (i, y) = assign_signer M old (i, x)"
proof
  obtain n where "length old = Suc n" using assms(1) by (cases old) auto
  then show "assign_signer M old (i, ''A'') = assign_signer M old (j, ''P0'')"
    using name_to_old_idx_first [of n] by (simp add: assign_signer_def)
  show "assign_signer M old' (i, y) = assign_signer M old (i, x)"
    using assms(2,3) by (simp add: assign_signer_def)
qed

theorem rotation_names_collide_witness:
  "assign_signer toy_mpc (m_participants toy_material) (0, ''A'')
      = assign_signer toy_mpc (m_participants toy_material) (1, ''P0'')
   \<and> assign_signer toy_mpc (m_participants rotated_material) (2, ''Yan'')
      = assign_signer toy_mpc (m_participants toy_material) (2, ''Zoe'')"
proof -
  have "m_participants toy_material \<noteq> []" by (simp add: toy_material_def)
  then show ?thesis
    using rotation_names_collide [of "m_participants toy_material" "''Zoe''" "m_participants rotated_material"
        "''Yan''" toy_mpc 0 1] rotation_names_collide [of "m_participants toy_material" "''Zoe''"
        "m_participants rotated_material" "''Yan''" toy_mpc 2 1]
    by (simp add: name_to_old_idx_3)
qed

end
