(* ===== verification/Lifecycle.thy ===== *)
theory Lifecycle
  imports Governance Resharing
begin

text \<open>
  The key lifecycle of \<open>crates/keymesh-tss/src/lifecycle.rs\<close>: key generation, refresh, governed
  rotation in two steps, retirement and the signing guard. An operation on \<open>&mut self\<close> returns
  the state it leaves behind together with its result, panics included. Each call takes its
  own outcome \<open>M\<close> of the protocols.
\<close>

datatype key_state = KsCreated | KsActive | KsRefreshing | KsRotating | KsRetired

primrec debug_key_state :: "key_state \<Rightarrow> string" where
  "debug_key_state KsCreated = ''Created''"
| "debug_key_state KsActive = ''Active''"
| "debug_key_state KsRefreshing = ''Refreshing''"
| "debug_key_state KsRotating = ''Rotating''"
| "debug_key_state KsRetired = ''Retired''"

definition ks_is_terminal :: "key_state \<Rightarrow> bool" where "ks_is_terminal s \<longleftrightarrow> s = KsRetired"
definition ks_can_sign :: "key_state \<Rightarrow> bool" where "ks_can_sign s \<longleftrightarrow> s = KsActive"
definition ks_can_mutate :: "key_state \<Rightarrow> bool" where "ks_can_mutate s \<longleftrightarrow> s = KsActive"

record ('sn, 'v, 'sh, 'ax, 'vk) key_lifecycle =
  kl_state :: key_state
  kl_material :: "('sn, 'v, 'sh, 'ax, 'vk) key_material option"
  kl_version :: u64
  kl_key_id :: bytes
  kl_group_key_bytes :: "bytes option"
  kl_locked :: bool

definition lifecycle_new :: "('sn, 'v, 'sh, 'ax, 'vk) key_lifecycle" where
  "lifecycle_new = \<lparr>kl_state = KsCreated, kl_material = None, kl_version = 0,
     kl_key_id = replicate 32 0, kl_group_key_bytes = None, kl_locked = False\<rparr>"

definition current_participant_set :: "('sn, 'v, 'sh, 'ax, 'vk) key_lifecycle \<Rightarrow> u8 list option" where
  "current_participant_set s = map_option (\<lambda>m. map p_index (m_participants m)) (kl_material s)"

definition derive_key_id ::
  "('sn, 'v, 'sh, 'ax, 'vk, 'ep, 'ks, 'sg) mpc \<Rightarrow> 'vk group_public_key \<Rightarrow> u64 \<Rightarrow> u64 \<Rightarrow> bytes" where
  "derive_key_id M group_key threshold version =
     mpc_keccak M (vk_uncompressed M (g_verifying_key group_key) @ str_bytes ''synedrion/0.3-cggmp24''
       @ u64_be threshold @ u64_be version)"

text \<open>\<open>copy_from_slice\<close> panics when the compressed key is not 33 bytes long.\<close>

definition compressed_verifying_key ::
  "('sn, 'v, 'sh, 'ax, 'vk, 'ep, 'ks, 'sg) mpc \<Rightarrow> 'vk \<Rightarrow> (tss_error, bytes) res" where
  "compressed_verifying_key M vk = (if length (vk_compressed M vk) = 33 then Ok (vk_compressed M vk) else Panic)"

definition lifecycle_dkg ::
  "('sn, 'v, 'sh, 'ax, 'vk, 'ep, 'ks, 'sg) mpc \<Rightarrow> ('sn, 'v, 'sh, 'ax, 'vk) key_lifecycle
     \<Rightarrow> ('sn, 'v, 'sh, 'ax, 'vk) key_lifecycle \<times> (tss_error, ('sn, 'v, 'sh, 'ax, 'vk) key_material) res" where
  "lifecycle_dkg M s =
     (if kl_state s \<noteq> KsCreated
      then (s, Err (Lifecycle (''dkg only from Created, got '' @ debug_key_state (kl_state s))))
      else if kl_locked s then (s, Err (LifecycleLocked ''lifecycle locked''))
      else case setup_2of3 M of
        Err e \<Rightarrow> (s, Err e)
      | Panic \<Rightarrow> (s, Panic)
      | Ok mat \<Rightarrow>
          let key_id = derive_key_id M (m_group_key mat) (word_of_nat (m_threshold mat)) 1 in
          (case compressed_verifying_key M (g_verifying_key (m_group_key mat)) of
             Err e \<Rightarrow> (s, Err e)
           | Panic \<Rightarrow> (s, Panic)
           | Ok gkb \<Rightarrow>
               (s\<lparr>kl_material := Some mat, kl_state := KsActive, kl_version := 1,
                  kl_key_id := key_id, kl_group_key_bytes := Some gkb\<rparr>, Ok mat)))"

definition lifecycle_refresh ::
  "('sn, 'v, 'sh, 'ax, 'vk, 'ep, 'ks, 'sg) mpc \<Rightarrow> ('sn, 'v, 'sh, 'ax, 'vk) key_lifecycle
     \<Rightarrow> ('sn, 'v, 'sh, 'ax, 'vk) key_lifecycle \<times> (tss_error, unit) res" where
  "lifecycle_refresh M s =
     (if \<not> ks_can_mutate (kl_state s)
      then (s, Err (Lifecycle (''refresh only from Active, got '' @ debug_key_state (kl_state s))))
      else if kl_locked s then (s, Err (LifecycleLocked ''concurrent lifecycle operation''))
      else case kl_material s of
        None \<Rightarrow> (s, Err (Lifecycle ''no material to refresh''))
      | Some mat \<Rightarrow>
          let old_vk = g_verifying_key (m_group_key mat);
              old_addr = g_ethereum_address (m_group_key mat);
              s1 = s\<lparr>kl_state := KsRefreshing, kl_locked := True\<rparr>;
              release = (\<lambda>s. s\<lparr>kl_state := KsActive, kl_locked := False\<rparr>)
          in (case do_refresh_via_resharing M mat of
                Panic \<Rightarrow> (s1, Panic)
              | Err e \<Rightarrow> (release s1, Err e)
              | Ok new_mat \<Rightarrow>
                  if g_verifying_key (m_group_key new_mat) \<noteq> old_vk
                  then (release s1, Err (RefreshFailed
                    (''group key changed during refresh '' @ [CHR 0xE2, CHR 0x80, CHR 0x94]
                      @ '' must remain same'')))
                  else if g_ethereum_address (m_group_key new_mat) \<noteq> old_addr
                  then (release s1, Err (RefreshFailed ''ethereum address changed during refresh''))
                  else (release (s1\<lparr>kl_material := Some new_mat\<rparr>), Ok ())))"

definition quoted :: "string \<Rightarrow> string" where
  "quoted s = CHR 0x22 # s @ [CHR 0x22]"

definition begin_rotation ::
  "('sn, 'v, 'sh, 'ax, 'vk) key_lifecycle \<Rightarrow> rotation_request \<Rightarrow> u64
     \<Rightarrow> ('sn, 'v, 'sh, 'ax, 'vk) key_lifecycle \<times> (tss_error, unit) res" where
  "begin_rotation s request now_seconds =
     (if \<not> ks_can_mutate (kl_state s)
      then (s, Err (Lifecycle (''begin_rotation only from Active, got '' @ debug_key_state (kl_state s))))
      else if kl_locked s then (s, Err (LifecycleLocked ''concurrent lifecycle operation''))
      else if ro_old_version request \<noteq> kl_version s
      then (s, Err (StaleVersion (kl_version s) (ro_old_version request)))
      else case (case kl_group_key_bytes s of
               Some gkb \<Rightarrow>
                 if gkb \<noteq> ro_group_public_key request
                 then Some (GovernanceError (''rotation group key mismatch: expected ''
                   @ quoted (hex_encode gkb) @ '' got '' @ quoted (hex_encode (ro_group_public_key request))))
                 else None
             | None \<Rightarrow> None) of
        Some e \<Rightarrow> (s, Err e)
      | None \<Rightarrow>
          if \<not> rotation_is_executable request now_seconds
          then (s, Err (GovernanceError (''rotation not executable at '' @ show_nat (unat now_seconds)
            @ '', status '' @ debug_rotation_status (ro_status request)
            @ '' executable_at '' @ debug_option_u64 (ro_executable_at request))))
          else case (case kl_material s of
                   None \<Rightarrow> None
                 | Some mat \<Rightarrow>
                     if ro_threshold request \<noteq> m_threshold mat
                        \<and> (ro_threshold request = 0 \<or> length (ro_new_set request) < ro_threshold request)
                     then Some (InvalidThreshold (''new threshold '' @ show_nat (ro_threshold request)
                       @ '' invalid for new n='' @ show_nat (length (ro_new_set request))))
                     else if length (ro_new_set request) < ro_threshold request
                     then Some (InvalidThreshold (''new set size '' @ show_nat (length (ro_new_set request))
                       @ '' < threshold '' @ show_nat (ro_threshold request)))
                     else None) of
            Some e \<Rightarrow> (s, Err e)
          | None \<Rightarrow> (s\<lparr>kl_state := KsRotating, kl_locked := True\<rparr>, Ok ()))"

definition apply_rotation ::
  "build \<Rightarrow> ('sn, 'v::linorder, 'sh, 'ax, 'vk, 'ep, 'ks, 'sg) mpc \<Rightarrow> ('sn, 'v, 'sh, 'ax, 'vk) key_lifecycle
     \<Rightarrow> rotation_request \<Rightarrow> nat \<Rightarrow> ('sn, 'v, 'sh, 'ax, 'vk) key_lifecycle \<times> (tss_error, unit) res" where
  "apply_rotation b M s request new_threshold =
     (if kl_state s \<noteq> KsRotating
      then (s, Err (Lifecycle (''apply_rotation only from Rotating, got '' @ debug_key_state (kl_state s))))
      else case kl_material s of
        None \<Rightarrow> (s, Err (Lifecycle ''no material''))
      | Some old_mat \<Rightarrow>
          let old_vk = g_verifying_key (m_group_key old_mat);
              old_addr = g_ethereum_address (m_group_key old_mat);
              old_version = kl_version s;
              release = (\<lambda>s. s\<lparr>kl_state := KsActive, kl_locked := False\<rparr>)
          in
          if new_threshold \<noteq> ro_threshold request
          then (s, Err (InvalidThreshold (''apply threshold '' @ show_nat new_threshold
            @ '' != request '' @ show_nat (ro_threshold request))))
          else if new_threshold = 0 \<or> length (ro_new_set request) < new_threshold
          then (release s, Err (InvalidThreshold (''invalid new threshold '' @ show_nat new_threshold
            @ '' for n='' @ show_nat (length (ro_new_set request)))))
          else (case do_rotation_via_resharing M old_mat (ro_new_set request) new_threshold of
              Panic \<Rightarrow> (s, Panic)
            | Err e \<Rightarrow> (release s, Err e)
            | Ok new_mat \<Rightarrow>
                if g_verifying_key (m_group_key new_mat) \<noteq> old_vk
                then (release s, Err (RotationFailed ''group key unexpectedly changed during resharing''))
                else if g_ethereum_address (m_group_key new_mat) \<noteq> old_addr
                then (release s, Err (RotationFailed ''ethereum address changed during rotation''))
                else if m_threshold new_mat \<noteq> new_threshold
                then (release s, Err (RotationFailed (''new threshold '' @ show_nat (m_threshold new_mat)
                  @ '' != expected '' @ show_nat new_threshold)))
                else (case add_u64 b old_version 1 of
                    Panic \<Rightarrow> (s, Panic)
                  | Err e \<Rightarrow> (s, Err e)
                  | Ok new_version \<Rightarrow>
                      let new_key_id = derive_key_id M (m_group_key new_mat)
                        (word_of_nat (m_threshold new_mat)) new_version
                      in (release (s\<lparr>kl_material := Some new_mat, kl_version := new_version,
                            kl_key_id := new_key_id\<rparr>), Ok ()))))"

definition rotate_with_request ::
  "build \<Rightarrow> ('sn, 'v::linorder, 'sh, 'ax, 'vk, 'ep, 'ks, 'sg) mpc \<Rightarrow> ('sn, 'v, 'sh, 'ax, 'vk) key_lifecycle
     \<Rightarrow> rotation_request \<Rightarrow> u64
     \<Rightarrow> ('sn, 'v, 'sh, 'ax, 'vk) key_lifecycle \<times> rotation_request \<times> (tss_error, unit) res" where
  "rotate_with_request b M s request now_seconds =
     (let governance = map_err (\<lambda>e. GovernanceError (display_tss_error e)) in
      case begin_rotation s request now_seconds of
        (s1, Err e) \<Rightarrow> (s1, request, Err e)
      | (s1, Panic) \<Rightarrow> (s1, request, Panic)
      | (s1, Ok _) \<Rightarrow>
          (case mark_resharing_with_time request now_seconds of
             (r1, Err e) \<Rightarrow> (s1, r1, governance (Err e))
           | (r1, Panic) \<Rightarrow> (s1, r1, Panic)
           | (r1, Ok _) \<Rightarrow>
               (case apply_rotation b M s1 r1 (ro_threshold r1) of
                  (s2, Panic) \<Rightarrow> (s2, r1, Panic)
                | (s2, Ok _) \<Rightarrow> (let (r2, x) = mark_completed r1 in (s2, r2, governance x))
                | (s2, Err e) \<Rightarrow> (s2, fst (mark_failed r1), Err e))))"

definition lifecycle_retire ::
  "('sn, 'v, 'sh, 'ax, 'vk) key_lifecycle \<Rightarrow> ('sn, 'v, 'sh, 'ax, 'vk) key_lifecycle \<times> (tss_error, unit) res" where
  "lifecycle_retire s =
     (if ks_is_terminal (kl_state s) then (s, Err (Lifecycle ''already retired''))
      else if kl_locked s then (s, Err (LifecycleLocked ''lifecycle locked''))
      else if \<not> ks_can_mutate (kl_state s) \<and> kl_state s \<noteq> KsActive
      then (s, Err (Lifecycle (''retire only from Active, got '' @ debug_key_state (kl_state s))))
      else (s\<lparr>kl_state := KsRetired\<rparr>, Ok ()))"

definition is_stale :: "('sn, 'v, 'sh, 'ax, 'vk) key_lifecycle \<Rightarrow> u64 \<Rightarrow> bool" where
  "is_stale s other_version \<longleftrightarrow> kl_version s \<noteq> other_version"

definition check_signing_allowed ::
  "('sn, 'v, 'sh, 'ax, 'vk) key_lifecycle \<Rightarrow> u64 \<Rightarrow> (tss_error, unit) res" where
  "check_signing_allowed s requested_version =
     (if kl_state s = KsRetired then Err (RetiredTss ''key is retired, signing forbidden'')
      else if \<not> ks_can_sign (kl_state s)
      then Err (LifecycleLocked (''signing not allowed in state '' @ debug_key_state (kl_state s)))
      else if is_stale s requested_version then Err (StaleVersion (kl_version s) requested_version)
      else if kl_material s = None then Err (Lifecycle ''no active material'')
      else Ok ())"

end
