(* ===== verification/Lifecycle_Safety.thy ===== *)
theory Lifecycle_Safety
  imports Lifecycle
begin

text \<open>
  Properties of the key lifecycle over arbitrary sequences of calls: the invariant, the permanence
  of the group key, atomic failure, single use of a rotation request, the signing guard, and
  the two ways in which the two-step rotation departs from its documentation.
\<close>

section \<open>Runs\<close>

datatype 'm lifecycle_event =
    EvDkg 'm
  | EvRefresh 'm
  | EvBegin rotation_request u64
  | EvApply 'm rotation_request nat
  | EvRotate 'm rotation_request u64
  | EvRetire

primrec lifecycle_step ::
  "build \<Rightarrow> ('sn, 'v::linorder, 'sh, 'ax, 'vk) key_lifecycle
     \<Rightarrow> ('sn, 'v, 'sh, 'ax, 'vk, 'ep, 'ks, 'sg) mpc lifecycle_event \<Rightarrow> ('sn, 'v, 'sh, 'ax, 'vk) key_lifecycle" where
  "lifecycle_step b s (EvDkg M) = fst (lifecycle_dkg M s)"
| "lifecycle_step b s (EvRefresh M) = fst (lifecycle_refresh M s)"
| "lifecycle_step b s (EvBegin r now) = fst (begin_rotation s r now)"
| "lifecycle_step b s (EvApply M r t) = fst (apply_rotation b M s r t)"
| "lifecycle_step b s (EvRotate M r now) = fst (rotate_with_request b M s r now)"
| "lifecycle_step b s EvRetire = fst (lifecycle_retire s)"

definition lifecycle_run ::
  "build \<Rightarrow> ('sn, 'v::linorder, 'sh, 'ax, 'vk) key_lifecycle
     \<Rightarrow> ('sn, 'v, 'sh, 'ax, 'vk, 'ep, 'ks, 'sg) mpc lifecycle_event list \<Rightarrow> ('sn, 'v, 'sh, 'ax, 'vk) key_lifecycle" where
  "lifecycle_run b = foldl (lifecycle_step b)"

lemma lifecycle_run_simps [simp]:
  "lifecycle_run b s [] = s" "lifecycle_run b s (ev # evs) = lifecycle_run b (lifecycle_step b s ev) evs"
  "lifecycle_run b s (evs @ evs') = lifecycle_run b (lifecycle_run b s evs) evs'"
  by (simp_all add: lifecycle_run_def)

text \<open>Outcomes of the protocols differ between calls; hashing and encoding keys does not.\<close>

definition same_codec ::
  "('sn, 'v, 'sh, 'ax, 'vk, 'ep, 'ks, 'sg) mpc \<Rightarrow> ('sn, 'v, 'sh, 'ax, 'vk, 'ep, 'ks, 'sg) mpc \<Rightarrow> bool" where
  "same_codec M N \<longleftrightarrow> mpc_keccak M = mpc_keccak N \<and> vk_uncompressed M = vk_uncompressed N
     \<and> vk_compressed M = vk_compressed N"

primrec event_codec ::
  "('sn, 'v, 'sh, 'ax, 'vk, 'ep, 'ks, 'sg) mpc \<Rightarrow> ('sn, 'v, 'sh, 'ax, 'vk, 'ep, 'ks, 'sg) mpc lifecycle_event \<Rightarrow> bool" where
  "event_codec M (EvDkg N) = same_codec M N"
| "event_codec M (EvRefresh N) = same_codec M N"
| "event_codec M (EvBegin r now) = True"
| "event_codec M (EvApply N r t) = same_codec M N"
| "event_codec M (EvRotate N r now) = same_codec M N"
| "event_codec M EvRetire = True"

lemma same_codec_simps:
  "same_codec M N \<Longrightarrow> derive_key_id N = derive_key_id M"
  "same_codec M N \<Longrightarrow> ethereum_address_from_verifying_key N = ethereum_address_from_verifying_key M"
  "same_codec M N \<Longrightarrow> make_group_key N = make_group_key M"
  by (auto simp: same_codec_def derive_key_id_def ethereum_address_from_verifying_key_def
      make_group_key_def fun_eq_iff)

section \<open>Exact outcomes of the operations\<close>

lemma lifecycle_dkg_cases:
  "fst (lifecycle_dkg M s) = s \<or>
   (\<exists>mat. setup_2of3 M = Ok mat \<and> kl_state s = KsCreated
     \<and> length (vk_compressed M (g_verifying_key (m_group_key mat))) = 33
     \<and> fst (lifecycle_dkg M s) = s\<lparr>kl_material := Some mat, kl_state := KsActive, kl_version := 1,
         kl_key_id := derive_key_id M (m_group_key mat) (word_of_nat (m_threshold mat)) 1,
         kl_group_key_bytes := Some (vk_compressed M (g_verifying_key (m_group_key mat)))\<rparr>)"
  by (auto simp: lifecycle_dkg_def compressed_verifying_key_def Let_def split: res.split)

lemma lifecycle_refresh_cases:
  obtains (refused) e where "lifecycle_refresh M s = (s, Err e)"
  | (failed) mat e where "kl_state s = KsActive" "\<not> kl_locked s" "kl_material s = Some mat"
      "lifecycle_refresh M s = (s\<lparr>kl_state := KsActive, kl_locked := False\<rparr>, Err e)"
  | (panicked) mat where "kl_state s = KsActive" "\<not> kl_locked s" "kl_material s = Some mat"
      "lifecycle_refresh M s = (s\<lparr>kl_state := KsRefreshing, kl_locked := True\<rparr>, Panic)"
  | (refreshed) mat new where "kl_state s = KsActive" "\<not> kl_locked s" "kl_material s = Some mat"
      "do_refresh_via_resharing M mat = Ok new" "m_group_key new = m_group_key mat"
      "lifecycle_refresh M s
        = (s\<lparr>kl_material := Some new, kl_state := KsActive, kl_locked := False\<rparr>, Ok ())"
proof (cases "kl_state s = KsActive \<and> \<not> kl_locked s")
  case False
  then have "\<exists>e. lifecycle_refresh M s = (s, Err e)"
    by (auto simp: lifecycle_refresh_def ks_can_mutate_def)
  with refused show thesis by blast
next
  case act: True
  show thesis
  proof (cases "kl_material s")
    case None
    then have "\<exists>e. lifecycle_refresh M s = (s, Err e)"
      using act by (simp add: lifecycle_refresh_def ks_can_mutate_def)
    with refused show thesis by blast
  next
    case (Some mat)
    show thesis
    proof (cases "do_refresh_via_resharing M mat")
      case (Ok new)
      show thesis
      proof (cases "m_group_key new = m_group_key mat")
        case True
        with refreshed act Some Ok show thesis
          by (simp add: lifecycle_refresh_def ks_can_mutate_def Let_def)
      next
        case False
        then have "g_verifying_key (m_group_key new) \<noteq> g_verifying_key (m_group_key mat)
            \<or> g_ethereum_address (m_group_key new) \<noteq> g_ethereum_address (m_group_key mat)"
          by (cases "m_group_key new"; cases "m_group_key mat") simp
        then have "\<exists>e. lifecycle_refresh M s = (s\<lparr>kl_state := KsActive, kl_locked := False\<rparr>, Err e)"
          using act Some Ok by (auto simp: lifecycle_refresh_def ks_can_mutate_def Let_def)
        with failed act Some show thesis by blast
      qed
    next
      case (Err e)
      with failed [of mat e] act Some show thesis
        by (simp add: lifecycle_refresh_def ks_can_mutate_def Let_def)
    next
      case Panic
      with panicked act Some show thesis
        by (simp add: lifecycle_refresh_def ks_can_mutate_def Let_def)
    qed
  qed
qed

lemma begin_rotation_cases:
  obtains (refused) e where "begin_rotation s r now = (s, Err e)"
  | (begun) "kl_state s = KsActive" "\<not> kl_locked s" "ro_old_version r = kl_version s"
      "rotation_is_executable r now"
      "begin_rotation s r now = (s\<lparr>kl_state := KsRotating, kl_locked := True\<rparr>, Ok ())"
proof -
  have "(\<exists>e. begin_rotation s r now = (s, Err e)) \<or>
      kl_state s = KsActive \<and> \<not> kl_locked s \<and> ro_old_version r = kl_version s
      \<and> rotation_is_executable r now
      \<and> begin_rotation s r now = (s\<lparr>kl_state := KsRotating, kl_locked := True\<rparr>, Ok ())"
    by (simp add: begin_rotation_def ks_can_mutate_def split: option.split)
  with refused begun show thesis by blast
qed

lemma apply_rotation_refused:
  assumes "kl_state s \<noteq> KsRotating \<or> kl_material s = None \<or> t \<noteq> ro_threshold r"
  shows "\<exists>e. apply_rotation b M s r t = (s, Err e)"
proof (cases "kl_state s = KsRotating")
  case False
  then show ?thesis
    unfolding apply_rotation_def by (simp only: if_True not_False_eq_True simp_thms prod.inject) blast
next
  case rot: True
  show ?thesis
  proof (cases "kl_material s")
    case None
    with rot show ?thesis by (simp add: apply_rotation_def)
  next
    case (Some m)
    with assms rot have "t \<noteq> ro_threshold r" by simp
    with rot Some show ?thesis unfolding apply_rotation_def
      by (simp only: if_False not_True_eq_False simp_thms option.case Let_def if_True prod.inject) blast
  qed
qed

lemma apply_rotation_cases:
  obtains (refused) e where "apply_rotation b M s r t = (s, Err e)"
      "kl_state s \<noteq> KsRotating \<or> kl_material s = None \<or> t \<noteq> ro_threshold r"
  | (failed) e where "kl_state s = KsRotating"
      "apply_rotation b M s r t = (s\<lparr>kl_state := KsActive, kl_locked := False\<rparr>, Err e)"
  | (panicked) "kl_state s = KsRotating" "apply_rotation b M s r t = (s, Panic)"
  | (rotated) mat new where "kl_state s = KsRotating" "kl_material s = Some mat"
      "do_rotation_via_resharing M mat (ro_new_set r) t = Ok new" "m_group_key new = m_group_key mat"
      "t = ro_threshold r" "0 < t" "t \<le> length (ro_new_set r)" "m_threshold new = t"
      "apply_rotation b M s r t = (s\<lparr>kl_material := Some new, kl_version := kl_version s + 1,
         kl_key_id := derive_key_id M (m_group_key new) (word_of_nat t) (kl_version s + 1),
         kl_state := KsActive, kl_locked := False\<rparr>, Ok ())"
proof (cases "kl_state s = KsRotating \<and> kl_material s \<noteq> None \<and> t = ro_threshold r")
  case False
  then have d: "kl_state s \<noteq> KsRotating \<or> kl_material s = None \<or> t \<noteq> ro_threshold r" by simp
  from apply_rotation_refused [OF this] obtain e where "apply_rotation b M s r t = (s, Err e)" by blast
  from refused [OF this d] show thesis .
next
  case True
  then obtain mat where g: "kl_state s = KsRotating" "kl_material s = Some mat" "t = ro_threshold r" by auto
  let ?rel = "s\<lparr>kl_state := KsActive, kl_locked := False\<rparr>"
  show thesis
  proof (cases "t = 0 \<or> length (ro_new_set r) < t")
    case True
    then have "\<exists>e. apply_rotation b M s r t = (?rel, Err e)"
      using g by (auto simp: apply_rotation_def Let_def)
    with failed g show thesis by blast
  next
    case False
    show thesis
    proof (cases "do_rotation_via_resharing M mat (ro_new_set r) t")
      case (Err e)
      with False g have "apply_rotation b M s r t = (?rel, Err e)"
        by (auto simp: apply_rotation_def Let_def)
      with failed g show thesis by blast
    next
      case Panic
      with False g have "apply_rotation b M s r t = (s, Panic)"
        by (auto simp: apply_rotation_def Let_def)
      with panicked g show thesis by blast
    next
      case (Ok new)
      have thr: "m_threshold new = t" using rotation_Ok [OF Ok] by simp
      show thesis
      proof (cases "m_group_key new = m_group_key mat")
        case True
        show thesis
        proof (cases "add_u64 b (kl_version s) 1 :: (tss_error, u64) res")
          case (Ok v)
          then have "v = kl_version s + 1" by (rule add_u64_Ok)
          with Ok \<open>do_rotation_via_resharing M mat (ro_new_set r) t = Ok new\<close> False True g thr
          have "apply_rotation b M s r t = (s\<lparr>kl_material := Some new, kl_version := kl_version s + 1,
              kl_key_id := derive_key_id M (m_group_key new) (word_of_nat t) (kl_version s + 1),
              kl_state := KsActive, kl_locked := False\<rparr>, Ok ())"
            by (auto simp: apply_rotation_def Let_def)
          with rotated [OF g(1,2) \<open>do_rotation_via_resharing M mat (ro_new_set r) t = Ok new\<close> True g(3)]
            False thr show thesis by auto
        next
          case (Err e)
          then show thesis by simp
        next
          case Panic
          with \<open>do_rotation_via_resharing M mat (ro_new_set r) t = Ok new\<close> False True g thr
          have "apply_rotation b M s r t = (s, Panic)"
            by (auto simp: apply_rotation_def Let_def)
          with panicked g show thesis by blast
        qed
      next
        case ne: False
        then have "g_verifying_key (m_group_key new) \<noteq> g_verifying_key (m_group_key mat)
            \<or> g_ethereum_address (m_group_key new) \<noteq> g_ethereum_address (m_group_key mat)"
          by (cases "m_group_key new"; cases "m_group_key mat") simp
        then have "\<exists>e. apply_rotation b M s r t = (?rel, Err e)"
          using False g Ok by (auto simp: apply_rotation_def Let_def)
        with failed g show thesis by blast
      qed
    qed
  qed
qed

lemma rotate_with_request_cases:
  obtains (refused) e where "rotate_with_request b M s r now = (s, r, Err e)"
  | (applied) s2 x r2 where "kl_state s = KsActive" "\<not> kl_locked s" "ro_old_version r = kl_version s"
      "rotation_is_executable r now"
      "apply_rotation b M (s\<lparr>kl_state := KsRotating, kl_locked := True\<rparr>) (r\<lparr>ro_status := RotResharing\<rparr>)
         (ro_threshold r) = (s2, x)"
      "rotate_with_request b M s r now = (s2, r2, x)"
      "r2 = r\<lparr>ro_status := (case x of Ok _ \<Rightarrow> RotCompleted | Err _ \<Rightarrow> RotFailed | Panic \<Rightarrow> RotResharing)\<rparr>"
proof (cases rule: begin_rotation_cases [where s = s and r = r and now = now])
  case (refused e)
  with that(1) show thesis by (simp add: rotate_with_request_def Let_def)
next
  case begun
  let ?r = "r\<lparr>ro_status := RotResharing\<rparr>" and ?s = "s\<lparr>kl_state := KsRotating, kl_locked := True\<rparr>"
  have m: "mark_resharing_with_time r now = (?r, Ok ())"
    using begun by (simp add: mark_resharing_with_time_def rotation_is_executable_def Let_def)
  obtain s2 x where a: "apply_rotation b M ?s ?r (ro_threshold r) = (s2, x)"
    by (cases "apply_rotation b M ?s ?r (ro_threshold r)")
  have "rotate_with_request b M s r now = (s2, r\<lparr>ro_status := (case x of Ok _ \<Rightarrow> RotCompleted
      | Err _ \<Rightarrow> RotFailed | Panic \<Rightarrow> RotResharing)\<rparr>, x)"
    using begun m a by (cases x) (auto simp: rotate_with_request_def mark_completed_def mark_failed_def Let_def)
  with that(2) begun a show thesis by blast
qed

lemma rotate_with_request_Ok:
  assumes "rotate_with_request b M s r now = (s1, r1, Ok ())"
  obtains mat new where "kl_state s = KsActive" "ro_old_version r = kl_version s" "rotation_is_executable r now"
    "kl_material s = Some mat" "do_rotation_via_resharing M mat (ro_new_set r) (ro_threshold r) = Ok new"
    "m_group_key new = m_group_key mat" "m_threshold new = ro_threshold r"
    "kl_material s1 = Some new" "kl_version s1 = kl_version s + 1" "kl_state s1 = KsActive"
    "kl_locked s1 = False" "kl_group_key_bytes s1 = kl_group_key_bytes s"
    "r1 = r\<lparr>ro_status := RotCompleted\<rparr>"
proof (cases rule: rotate_with_request_cases [where b = b and M = M and s = s and r = r and now = now])
  case (refused e)
  with assms show ?thesis by simp
next
  case (applied s2 x r2)
  from applied(6) assms have x: "x = Ok ()" "s2 = s1" "r2 = r1" by auto
  show ?thesis
  proof (cases rule: apply_rotation_cases [where b = b and M = M
        and s = "s\<lparr>kl_state := KsRotating, kl_locked := True\<rparr>"
        and r = "r\<lparr>ro_status := RotResharing\<rparr>" and t = "ro_threshold r"])
    case (refused e)
    from refused(1) applied(5) x show ?thesis by simp
  next
    case (failed e)
    from failed(2) applied(5) x show ?thesis by simp
  next
    case panicked
    from panicked(2) applied(5) x show ?thesis by simp
  next
    case (rotated mat new)
    from rotated(9) applied(5) x(2) have "s1 = s\<lparr>kl_material := Some new, kl_version := kl_version s + 1,
        kl_key_id := derive_key_id M (m_group_key new) (word_of_nat (ro_threshold r)) (kl_version s + 1),
        kl_state := KsActive, kl_locked := False\<rparr>" by simp
    with rotated(2-4,8) applied(1,3,4,7) x(1,3) show ?thesis by (intro that [of mat new]) simp_all
  qed
qed

section \<open>The invariant\<close>

definition lifecycle_inv ::
  "('sn, 'v, 'sh, 'ax, 'vk, 'ep, 'ks, 'sg) mpc \<Rightarrow> ('sn, 'v, 'sh, 'ax, 'vk) key_lifecycle \<Rightarrow> bool" where
  "lifecycle_inv M s \<longleftrightarrow>
     (kl_locked s \<longleftrightarrow> kl_state s = KsRefreshing \<or> kl_state s = KsRotating)
     \<and> (kl_state s = KsCreated \<longleftrightarrow> kl_material s = None)
     \<and> (case kl_material s of
          None \<Rightarrow> s = lifecycle_new
        | Some m \<Rightarrow>
            m_group_key m = make_group_key M (g_verifying_key (m_group_key m))
            \<and> kl_group_key_bytes s = Some (vk_compressed M (g_verifying_key (m_group_key m)))
            \<and> kl_key_id s = derive_key_id M (m_group_key m) (word_of_nat (m_threshold m)) (kl_version s)
            \<and> 0 < m_threshold m \<and> m_threshold m \<le> m_total m
            \<and> length (m_participants m) = m_total m)"

lemma lifecycle_inv_new: "lifecycle_inv M lifecycle_new"
  by (simp add: lifecycle_inv_def lifecycle_new_def)

lemma lifecycle_inv_dkg:
  assumes "lifecycle_inv M s" and "same_codec M N"
  shows "lifecycle_inv M (fst (lifecycle_dkg N s))"
  using lifecycle_dkg_cases [of N s]
proof (elim disjE exE conjE)
  fix mat
  assume set: "setup_2of3 N = Ok mat" and st: "kl_state s = KsCreated"
    and eq: "fst (lifecycle_dkg N s) = s\<lparr>kl_material := Some mat, kl_state := KsActive, kl_version := 1,
         kl_key_id := derive_key_id N (m_group_key mat) (word_of_nat (m_threshold mat)) 1,
         kl_group_key_bytes := Some (vk_compressed N (g_verifying_key (m_group_key mat)))\<rparr>"
  have "material_wf N mat" by (rule setup_2of3_material [OF set])
  then have "m_group_key mat = make_group_key N (g_verifying_key (m_group_key mat))"
      and "length (m_participants mat) = m_total mat" "0 < m_threshold mat" "m_threshold mat \<le> m_total mat"
    by (auto simp: material_wf_def make_group_key_def intro!: group_public_key.equality)
  moreover have "\<not> kl_locked s" using assms(1) st by (simp add: lifecycle_inv_def)
  moreover have "vk_compressed N = vk_compressed M" using assms(2) by (simp add: same_codec_def)
  ultimately show ?thesis
    unfolding eq lifecycle_inv_def by (simp add: same_codec_simps [OF assms(2)])
qed (use assms(1) in simp)

lemma lifecycle_inv_refresh:
  assumes "lifecycle_inv M s" and "same_codec M N"
  shows "lifecycle_inv M (fst (lifecycle_refresh N s))"
proof (cases rule: lifecycle_refresh_cases [where M = N and s = s])
  case (refreshed mat new)
  have "m_threshold new = m_threshold mat" "m_total new = m_total mat"
      "length (m_participants new) = length (m_participants mat)"
    using refresh_Ok [OF refreshed(4)] by (auto dest: map_eq_imp_length_eq)
  with refreshed assms(1) show ?thesis by (simp add: lifecycle_inv_def)
qed (use assms(1) in \<open>simp_all add: lifecycle_inv_def\<close>)

lemma lifecycle_inv_begin:
  "lifecycle_inv M s \<Longrightarrow> lifecycle_inv M (fst (begin_rotation s r now))"
  by (cases rule: begin_rotation_cases [where s = s and r = r and now = now])
    (auto simp: lifecycle_inv_def lifecycle_new_def split: option.splits)

lemma lifecycle_inv_apply:
  assumes "lifecycle_inv M s" and "same_codec M N"
  shows "lifecycle_inv M (fst (apply_rotation b N s r t))"
proof (cases rule: apply_rotation_cases [where b = b and M = N and s = s and r = r and t = t])
  case (rotated mat new)
  have "m_total new = length (ro_new_set r)" "length (m_participants new) = length (ro_new_set r)"
    using rotation_Ok [OF rotated(3)] by auto
  moreover have "m_group_key new = make_group_key M (g_verifying_key (m_group_key new))"
    using rotation_Ok [OF rotated(3)] same_codec_simps(3) [OF assms(2)]
    by (simp add: make_group_key_def)
  ultimately show ?thesis using rotated assms(1)
    by (simp add: lifecycle_inv_def same_codec_simps [OF assms(2)])
qed (use assms(1) in \<open>auto simp: lifecycle_inv_def lifecycle_new_def split: option.splits\<close>)

lemma lifecycle_inv_rotate:
  assumes "lifecycle_inv M s" and "same_codec M N"
  shows "lifecycle_inv M (fst (rotate_with_request b N s r now))"
proof (cases rule: rotate_with_request_cases [where b = b and M = N and s = s and r = r and now = now])
  case (refused e)
  with assms(1) show ?thesis by simp
next
  case (applied s2 x r2)
  let ?s = "s\<lparr>kl_state := KsRotating, kl_locked := True\<rparr>"
  have "lifecycle_inv M ?s" using assms(1) applied(1,2)
    by (auto simp: lifecycle_inv_def lifecycle_new_def split: option.splits)
  from lifecycle_inv_apply [OF this assms(2)] applied show ?thesis by (metis fst_conv)
qed

lemma lifecycle_inv_step:
  assumes "lifecycle_inv M s" and "event_codec M ev"
  shows "lifecycle_inv M (lifecycle_step b s ev)"
proof (cases ev)
  case EvRetire
  then show ?thesis using assms(1)
    by (auto simp: lifecycle_retire_def lifecycle_inv_def ks_is_terminal_def ks_can_mutate_def
        lifecycle_new_def split: option.splits)
qed (use assms in \<open>simp_all add: lifecycle_inv_dkg lifecycle_inv_refresh lifecycle_inv_begin
       lifecycle_inv_apply lifecycle_inv_rotate\<close>)

lemma lifecycle_inv_run:
  "lifecycle_inv M s \<Longrightarrow> list_all (event_codec M) evs \<Longrightarrow> lifecycle_inv M (lifecycle_run b s evs)"
  by (induction evs arbitrary: s) (simp_all add: lifecycle_inv_step)

section \<open>Permanence of the group key\<close>

lemma lifecycle_step_group_key:
  assumes "lifecycle_inv M s" and "kl_material s = Some m"
  shows "\<exists>m'. kl_material (lifecycle_step b s ev) = Some m' \<and> m_group_key m' = m_group_key m"
proof -
  have apply_key: "\<exists>m'. kl_material (fst (apply_rotation b N u r t)) = Some m' \<and> m_group_key m' = m_group_key m"
    if "kl_material u = Some m" for N u r t
    using that by (cases rule: apply_rotation_cases [where b = b and M = N and s = u and r = r and t = t]) auto
  show ?thesis
  proof (cases ev)
    case (EvDkg N)
    have "kl_state s \<noteq> KsCreated" using assms by (auto simp: lifecycle_inv_def)
    with assms(2) EvDkg show ?thesis by (simp add: lifecycle_dkg_def)
  next
    case (EvRefresh N)
    then show ?thesis using assms(2)
      by (cases rule: lifecycle_refresh_cases [where M = N and s = s]) auto
  next
    case (EvBegin r now)
    then show ?thesis using assms(2)
      by (cases rule: begin_rotation_cases [where s = s and r = r and now = now]) auto
  next
    case (EvApply N r t)
    with apply_key [OF assms(2)] show ?thesis by simp
  next
    case (EvRotate N r now)
    show ?thesis
    proof (cases rule: rotate_with_request_cases [where b = b and M = N and s = s and r = r and now = now])
      case (refused e)
      with assms(2) EvRotate show ?thesis by simp
    next
      case (applied s2 x r2)
      with apply_key [of "s\<lparr>kl_state := KsRotating, kl_locked := True\<rparr>" N "r\<lparr>ro_status := RotResharing\<rparr>"
          "ro_threshold r"] assms(2) EvRotate show ?thesis by simp
    qed
  next
    case EvRetire
    with assms(2) show ?thesis by (simp add: lifecycle_retire_def)
  qed
qed

lemma lifecycle_run_group_key:
  assumes "lifecycle_inv M s" and "kl_material s = Some m" and "list_all (event_codec M) evs"
  shows "\<exists>m'. kl_material (lifecycle_run b s evs) = Some m' \<and> m_group_key m' = m_group_key m"
  using assms
proof (induction evs arbitrary: s m)
  case Nil
  then show ?case by simp
next
  case (Cons ev evs)
  from lifecycle_step_group_key [OF Cons.prems(1,2), of b ev] obtain m1
    where m1: "kl_material (lifecycle_step b s ev) = Some m1" "m_group_key m1 = m_group_key m" by blast
  from Cons.prems have "lifecycle_inv M (lifecycle_step b s ev)" by (simp add: lifecycle_inv_step)
  from Cons.IH [OF this m1(1)] Cons.prems(3) m1(2) show ?case by simp
qed

text \<open>
  Claim C4. The lifecycle invariant. After any sequence of calls with any outcomes of the protocols
  (panics included), the lock is held exactly while refreshing or rotating; there is material
  exactly when the key has been generated; and then the stored group key bytes, the address and
  the key id are those of the current material and version, whose threshold is between one
  and the number of its participants.
\<close>

theorem lifecycle_invariant:
  assumes "list_all (event_codec M) evs"
  shows "lifecycle_inv M (lifecycle_run b lifecycle_new evs)"
  by (rule lifecycle_inv_run [OF lifecycle_inv_new assms])

text \<open>
  The group key is permanent. Once a key exists, no sequence of refreshes, rotations and
  failures ever changes its verifying key, its address or the stored group key bytes.
\<close>

theorem group_key_permanent:
  assumes "list_all (event_codec M) evs" and "list_all (event_codec M) evs'"
    and "kl_material (lifecycle_run b lifecycle_new evs) = Some m"
  shows "\<exists>m'. kl_material (lifecycle_run b lifecycle_new (evs @ evs')) = Some m'
    \<and> m_group_key m' = m_group_key m
    \<and> kl_group_key_bytes (lifecycle_run b lifecycle_new (evs @ evs'))
      = kl_group_key_bytes (lifecycle_run b lifecycle_new evs)"
proof -
  let ?s = "lifecycle_run b lifecycle_new evs" and ?u = "lifecycle_run b lifecycle_new (evs @ evs')"
  have inv: "lifecycle_inv M ?s" "lifecycle_inv M ?u"
    using assms(1,2) by (auto intro!: lifecycle_inv_run lifecycle_inv_new)
  from lifecycle_run_group_key [OF inv(1) assms(3,2), of b] obtain m'
    where m': "kl_material ?u = Some m'" "m_group_key m' = m_group_key m" by auto
  with inv assms(3) show ?thesis by (auto simp: lifecycle_inv_def)
qed

section \<open>A toy run\<close>

definition toy_active :: "(nat, nat, nat, unit, nat) key_lifecycle" where
  "toy_active = \<lparr>kl_state = KsActive, kl_material = Some toy_material, kl_version = 1,
     kl_key_id = replicate 32 0, kl_group_key_bytes = Some (2 # replicate 32 1), kl_locked = False\<rparr>"

lemma toy_codec:
  "mpc_keccak toy_mpc = (\<lambda>_. replicate 32 0)" "vk_compressed toy_mpc = (\<lambda>_. 2 # replicate 32 1)"
  by (simp_all add: toy_mpc_def)

lemma toy_dkg: "lifecycle_dkg toy_mpc lifecycle_new = (toy_active, Ok toy_material)"
  by (simp add: lifecycle_dkg_def lifecycle_new_def toy_setup compressed_verifying_key_def
      derive_key_id_def toy_active_def toy_codec Let_def)

lemma same_codec_refl [simp]: "same_codec M M"
  by (simp add: same_codec_def)

lemma toy_active_run: "lifecycle_run Debug lifecycle_new [EvDkg toy_mpc] = toy_active"
  by (simp add: toy_dkg)

definition toy_request :: rotation_request where
  "toy_request = sample_rotation\<lparr>ro_new_set := [''A'', ''C'', ''Zoe''], ro_group_public_key := 2 # replicate 32 1,
     ro_approvals := [''G1'', ''G2''], ro_status := RotQuorumReached, ro_executable_at := Some 4800\<rparr>"

definition toy_rotated :: "(nat, nat, nat, unit, nat) key_lifecycle" where
  "toy_rotated = toy_active\<lparr>kl_material := Some rotated_material, kl_version := 2\<rparr>"

lemma toy_begin:
  "begin_rotation toy_active toy_request 5000 = (toy_active\<lparr>kl_state := KsRotating, kl_locked := True\<rparr>, Ok ())"
  by (simp add: begin_rotation_def toy_active_def toy_request_def sample_rotation_def ks_can_mutate_def
      rotation_is_executable_def rotation_effective_status_def toy_material_def)

lemma toy_rotate:
  "rotate_with_request Debug toy_mpc toy_active toy_request 5000
     = (toy_rotated, toy_request\<lparr>ro_status := RotCompleted\<rparr>, Ok ())"
proof -
  have r: "ro_new_set toy_request = [''A'', ''C'', ''Zoe'']" "ro_threshold toy_request = 2"
    by (simp_all add: toy_request_def sample_rotation_def)
  have "mark_resharing_with_time toy_request 5000 = (toy_request\<lparr>ro_status := RotResharing\<rparr>, Ok ())"
    by (simp add: mark_resharing_with_time_def rotation_effective_status_def toy_request_def)
  moreover have "apply_rotation Debug toy_mpc (toy_active\<lparr>kl_state := KsRotating, kl_locked := True\<rparr>)
      (toy_request\<lparr>ro_status := RotResharing\<rparr>) 2 = (toy_rotated, Ok ())"
    by (simp add: apply_rotation_def toy_active_def r toy_rotation Let_def)
      (simp add: toy_rotated_def toy_active_def rotated_material_def toy_material_def add_u64_def
        derive_key_id_def toy_mpc_def)
  ultimately show ?thesis
    by (simp add: rotate_with_request_def toy_begin r mark_completed_def)
qed

theorem lifecycle_invariant_witness:
  "lifecycle_inv toy_mpc (lifecycle_run Debug lifecycle_new
     [EvDkg toy_mpc, EvRefresh toy_mpc, EvRotate toy_mpc toy_request 5000, EvRetire])"
  by (rule lifecycle_invariant) simp

theorem group_key_permanent_witness:
  "\<exists>m'. kl_material (lifecycle_run Debug lifecycle_new ([EvDkg toy_mpc] @ [EvRotate toy_mpc toy_request 5000]))
       = Some m'
    \<and> m_group_key m' = m_group_key toy_material
    \<and> kl_group_key_bytes (lifecycle_run Debug lifecycle_new ([EvDkg toy_mpc] @ [EvRotate toy_mpc toy_request 5000]))
      = kl_group_key_bytes (lifecycle_run Debug lifecycle_new [EvDkg toy_mpc])"
  by (rule group_key_permanent [where M = toy_mpc]) (simp_all add: toy_dkg toy_active_def)

section \<open>Failures\<close>

lemma release_id:
  "kl_state u = KsActive \<Longrightarrow> \<not> kl_locked u \<Longrightarrow> u\<lparr>kl_state := KsActive, kl_locked := False\<rparr> = u"
  by (cases u) simp

lemma refresh_error_restores:
  assumes "lifecycle_refresh N s = (s', Err e)"
  shows "s' = s"
proof (cases rule: lifecycle_refresh_cases [where M = N and s = s])
  case (failed mat e')
  with assms release_id [OF failed(1,2)] show ?thesis by simp
qed (use assms in simp_all)

lemma begin_error_keeps: "begin_rotation s r now = (s', Err e) \<Longrightarrow> s' = s"
  by (cases rule: begin_rotation_cases [where s = s and r = r and now = now]) simp_all

lemma rotate_error_restores:
  assumes "lifecycle_inv M s" and "rotate_with_request b N s r now = (s', r', Err e)"
  shows "s' = s \<and> (r' = r \<or> r' = r\<lparr>ro_status := RotFailed\<rparr>)"
proof (cases rule: rotate_with_request_cases [where b = b and M = N and s = s and r = r and now = now])
  case (refused e')
  with assms(2) show ?thesis by simp
next
  case (applied s2 x r2)
  let ?s = "s\<lparr>kl_state := KsRotating, kl_locked := True\<rparr>"
  from applied(6) assms(2) have x: "x = Err e" "s2 = s'" "r' = r2" by auto
  have m: "kl_material s \<noteq> None" using assms(1) applied(1) by (simp add: lifecycle_inv_def)
  have "s' = s"
  proof (cases rule: apply_rotation_cases [where b = b and M = N and s = ?s
        and r = "r\<lparr>ro_status := RotResharing\<rparr>" and t = "ro_threshold r"])
    case (refused e')
    with m show ?thesis by simp
  next
    case (failed e')
    with applied(5) x release_id [OF applied(1,2)] show ?thesis by simp
  next
    case panicked
    from panicked(2) applied(5) x show ?thesis by simp
  next
    case (rotated mat new)
    from rotated(9) applied(5) x show ?thesis by simp
  qed
  with applied(7) x show ?thesis by simp
qed

text \<open>
  Claim C11. Failures are atomic. In every reachable state, a refresh, a begun or a complete rotation
  that returns an error leaves the lifecycle exactly as it was (material, version, key id,
  state and lock), and a failed rotation changes nothing of the request but its status.
\<close>

theorem lifecycle_failures_atomic:
  assumes "list_all (event_codec M) evs" and "s = lifecycle_run b lifecycle_new evs"
  shows "(\<forall>s' e. lifecycle_refresh N s = (s', Err e) \<longrightarrow> s' = s)
    \<and> (\<forall>s' e. begin_rotation s r now = (s', Err e) \<longrightarrow> s' = s)
    \<and> (\<forall>s' r' e. rotate_with_request b N s r now = (s', r', Err e) \<longrightarrow>
         s' = s \<and> (r' = r \<or> r' = r\<lparr>ro_status := RotFailed\<rparr>))"
proof -
  have "lifecycle_inv M s" using assms by (simp add: lifecycle_inv_run lifecycle_inv_new)
  with refresh_error_restores begin_error_keeps rotate_error_restores show ?thesis by blast
qed

definition failing_mpc :: "(nat, nat, nat, unit, nat, nat, nat, nat) mpc" where
  "failing_mpc = toy_mpc\<lparr>run_resharing := (\<lambda>_. Err ''peer lost'')\<rparr>"

theorem lifecycle_failures_atomic_witness:
  "\<exists>e. lifecycle_refresh failing_mpc toy_active = (toy_active, Err e)"
proof -
  have "is_err (snd (lifecycle_refresh failing_mpc toy_active))"
    by (simp add: lifecycle_refresh_def toy_active_def ks_can_mutate_def toy_material_def Let_def
        do_refresh_via_resharing_def run_results_def failing_mpc_def del: res_bind_Ok_iff)
  then obtain s' e where "lifecycle_refresh failing_mpc toy_active = (s', Err e)"
    by (cases "lifecycle_refresh failing_mpc toy_active"; cases "snd (lifecycle_refresh failing_mpc toy_active)")
      auto
  moreover from this lifecycle_failures_atomic
    [of toy_mpc "[EvDkg toy_mpc]" toy_active Debug failing_mpc toy_request 0]
  have "s' = toy_active" by (simp add: toy_dkg)
  ultimately show ?thesis by blast
qed

section \<open>The types of the fields\<close>

text \<open>The sizes that the library's encodings have: digests of 32, keys of 65 and 33 bytes.\<close>

definition codec_sizes :: "('sn, 'v, 'sh, 'ax, 'vk, 'ep, 'ks, 'sg) mpc \<Rightarrow> bool" where
  "codec_sizes M \<longleftrightarrow> (\<forall>bs. length (mpc_keccak M bs) = 32)
     \<and> (\<forall>vk. length (vk_uncompressed M vk) = 65) \<and> (\<forall>vk. length (vk_compressed M vk) = 33)"



section \<open>Versions\<close>

lemma lifecycle_step_version:
  assumes "lifecycle_inv M s"
  shows "kl_version (lifecycle_step b s ev) = kl_version s
    \<or> kl_version (lifecycle_step b s ev) = kl_version s + 1"
proof -
  have ap: "kl_version (fst (apply_rotation b N u r t)) = kl_version u
      \<or> kl_version (fst (apply_rotation b N u r t)) = kl_version u + 1"
    for N r t and u :: "('a, 'b, 'c, 'd, 'e) key_lifecycle"
    by (cases rule: apply_rotation_cases [where b = b and M = N and s = u and r = r and t = t]) auto
  show ?thesis
  proof (cases ev)
    case (EvDkg N)
    have "kl_version s = 0" if "kl_state s = KsCreated"
      using assms that by (auto simp: lifecycle_inv_def lifecycle_new_def)
    with lifecycle_dkg_cases [of N s] EvDkg show ?thesis by fastforce
  next
    case (EvRefresh N)
    then show ?thesis by (cases rule: lifecycle_refresh_cases [where M = N and s = s]) auto
  next
    case (EvBegin r now)
    then show ?thesis by (cases rule: begin_rotation_cases [where s = s and r = r and now = now]) auto
  next
    case (EvApply N r t)
    with ap [of N s r t] show ?thesis by simp
  next
    case (EvRotate N r now)
    then show ?thesis
    proof (cases rule: rotate_with_request_cases [where b = b and M = N and s = s and r = r and now = now])
      case (applied s2 x r2)
      with EvRotate ap [of N "s\<lparr>kl_state := KsRotating, kl_locked := True\<rparr>" "r\<lparr>ro_status := RotResharing\<rparr>"
          "ro_threshold r"] show ?thesis by simp
    qed simp
  next
    case EvRetire
    then show ?thesis by (simp add: lifecycle_retire_def)
  qed
qed

lemma lifecycle_run_version:
  assumes "lifecycle_inv M s" and "list_all (event_codec M) evs"
    and "unat (kl_version s) + length evs < 2 ^ 64"
  shows "unat (kl_version s) \<le> unat (kl_version (lifecycle_run b s evs))
    \<and> unat (kl_version (lifecycle_run b s evs)) \<le> unat (kl_version s) + length evs"
  using assms
proof (induction evs arbitrary: s)
  case Nil
  then show ?case by simp
next
  case (Cons ev evs)
  let ?s = "lifecycle_step b s ev"
  have "unat (kl_version s + 1) = unat (kl_version s) + 1"
    using Cons.prems(3) unat_add_fits [of "kl_version s" 1] by simp
  with lifecycle_step_version [OF Cons.prems(1), of b ev]
  have v: "unat (kl_version s) \<le> unat (kl_version ?s)" "unat (kl_version ?s) \<le> unat (kl_version s) + 1"
    by auto
  moreover have "lifecycle_inv M ?s" using Cons.prems(1,2) by (simp add: lifecycle_inv_step)
  ultimately show ?case using Cons.IH [of ?s] Cons.prems(2,3) by simp
qed

lemma begin_stale: "ro_old_version r \<noteq> kl_version s \<Longrightarrow> is_err (snd (begin_rotation s r now))"
  by (cases rule: begin_rotation_cases [where s = s and r = r and now = now]) auto

text \<open>
  Claim C12. A rotation request is used at most once. After a rotation with a request has succeeded,
  the version is one higher, and no request for the old version can ever be begun again,
  whatever happens in between (in any run of fewer than \<open>2\<^sup>6\<^sup>4\<close> calls).
\<close>

theorem rotation_single_use:
  assumes "list_all (event_codec M) (evs @ evs')" and "same_codec M N"
    and "rotate_with_request b N (lifecycle_run b lifecycle_new evs) r now = (s1, r1, Ok ())"
    and "length evs + length evs' + 1 < 2 ^ 64" and "ro_old_version r' = ro_old_version r"
  shows "kl_version s1 = ro_old_version r + 1
    \<and> is_err (snd (begin_rotation (lifecycle_run b s1 evs') r' now'))"
proof
  let ?s = "lifecycle_run b lifecycle_new evs"
  have inv: "lifecycle_inv M ?s" using assms(1) by (simp add: lifecycle_inv_run lifecycle_inv_new)
  have v0: "unat (kl_version ?s) \<le> length evs"
    using lifecycle_run_version [OF lifecycle_inv_new, where evs = evs and M = M and b = b] assms(1,4)
    by (simp add: lifecycle_new_def)
  have inv1: "lifecycle_inv M s1"
    using lifecycle_inv_rotate [OF inv assms(2), of b r now] assms(3) by simp
  from assms(3) have old: "ro_old_version r = kl_version ?s" by (rule rotate_with_request_Ok)
  from assms(3) show v1: "kl_version s1 = ro_old_version r + 1"
    by (rule rotate_with_request_Ok) simp
  have "unat (kl_version s1) = unat (kl_version ?s) + 1"
    using v0 v1 old assms(4) unat_add_fits [of "kl_version ?s" 1] by simp
  moreover from this v0 assms(1,4)
  have "unat (kl_version s1) \<le> unat (kl_version (lifecycle_run b s1 evs'))"
    using lifecycle_run_version [OF inv1, where evs = evs' and b = b] by simp
  ultimately have "ro_old_version r' \<noteq> kl_version (lifecycle_run b s1 evs')"
    using old assms(5) by auto
  then show "is_err (snd (begin_rotation (lifecycle_run b s1 evs') r' now'))" by (rule begin_stale)
qed

theorem rotation_single_use_witness:
  "is_err (snd (begin_rotation (lifecycle_run Debug toy_rotated [EvRefresh toy_mpc]) toy_request 9000))"
proof -
  have "rotate_with_request Debug toy_mpc (lifecycle_run Debug lifecycle_new [EvDkg toy_mpc]) toy_request 5000
      = (toy_rotated, toy_request\<lparr>ro_status := RotCompleted\<rparr>, Ok ())"
    by (simp only: toy_active_run toy_rotate)
  from rotation_single_use [OF _ _ this, of toy_mpc "[EvRefresh toy_mpc]" toy_request 9000]
  show ?thesis by simp
qed

section \<open>The signing guard\<close>

lemma lifecycle_step_retired: "kl_state u = KsRetired \<Longrightarrow> lifecycle_step b u ev = u"
  by (cases ev) (auto simp: lifecycle_dkg_def lifecycle_refresh_def begin_rotation_def
      apply_rotation_def rotate_with_request_def lifecycle_retire_def ks_can_mutate_def ks_is_terminal_def)

lemma lifecycle_run_retired: "kl_state u = KsRetired \<Longrightarrow> lifecycle_run b u evs = u"
  by (induction evs) (simp_all add: lifecycle_step_retired)

text \<open>
  Claim C21. When signing is allowed. In every reachable state, signing for a version is allowed
  exactly when the key is active and the version is the current one; never while refreshing or
  rotating, never after retirement, and retirement is for good.
\<close>

theorem signing_guard:
  assumes "list_all (event_codec M) evs" and "s = lifecycle_run b lifecycle_new evs"
  shows "(check_signing_allowed s v = Ok () \<longleftrightarrow> kl_state s = KsActive \<and> v = kl_version s)
    \<and> (check_signing_allowed s v = Ok () \<longrightarrow> \<not> kl_locked s \<and> kl_material s \<noteq> None)
    \<and> (snd (lifecycle_retire s) = Ok () \<longrightarrow>
         (\<forall>evs'. lifecycle_run b (fst (lifecycle_retire s)) evs' = fst (lifecycle_retire s)))"
proof (intro conjI impI allI)
  have inv: "lifecycle_inv M s" using assms by (simp add: lifecycle_inv_run lifecycle_inv_new)
  then show "check_signing_allowed s v = Ok () \<longleftrightarrow> kl_state s = KsActive \<and> v = kl_version s"
    by (auto simp: check_signing_allowed_def ks_can_sign_def is_stale_def lifecycle_inv_def)
  show "\<not> kl_locked s" "kl_material s \<noteq> None" if "check_signing_allowed s v = Ok ()"
    using that inv by (auto simp: check_signing_allowed_def ks_can_sign_def lifecycle_inv_def split: if_splits)
  fix evs'
  assume "snd (lifecycle_retire s) = Ok ()"
  then have "kl_state (fst (lifecycle_retire s)) = KsRetired"
    by (auto simp: lifecycle_retire_def split: if_splits)
  then show "lifecycle_run b (fst (lifecycle_retire s)) evs' = fst (lifecycle_retire s)"
    by (rule lifecycle_run_retired)
qed

theorem signing_guard_witness:
  "check_signing_allowed toy_active 1 = Ok () \<longleftrightarrow> kl_state toy_active = KsActive \<and> 1 = kl_version toy_active"
  by (rule signing_guard [where M = toy_mpc and evs = "[EvDkg toy_mpc]" and b = Debug, THEN conjunct1])
    (simp_all add: toy_dkg)

section \<open>Where the two-step rotation departs from its documentation\<close>

text \<open>
  Claim C37. A mismatched threshold locks the key. The documentation says that a failed rotation
  restores the active state, but an \<open>apply_rotation\<close> called with another threshold than the request's
  returns its error with the key still rotating and locked: signing, refresh, a new rotation
  and retirement all fail until an \<open>apply_rotation\<close> gets past that check.
\<close>

theorem apply_rotation_stays_locked:
  assumes "kl_state s = KsRotating" and "kl_locked s" and "t \<noteq> ro_threshold r"
  shows "fst (apply_rotation b M s r t) = s \<and> is_err (snd (apply_rotation b M s r t))
    \<and> is_err (check_signing_allowed s v) \<and> is_err (snd (lifecycle_refresh M s))
    \<and> is_err (snd (begin_rotation s r' now)) \<and> is_err (snd (lifecycle_retire s))"
proof -
  from apply_rotation_refused [of s t r b M] assms(3)
  obtain e where "apply_rotation b M s r t = (s, Err e)" by blast
  with assms show ?thesis
    by (simp add: check_signing_allowed_def ks_can_sign_def lifecycle_refresh_def begin_rotation_def
        lifecycle_retire_def ks_can_mutate_def ks_is_terminal_def)
qed

theorem apply_rotation_stays_locked_witness:
  "fst (apply_rotation Debug toy_mpc (fst (begin_rotation toy_active toy_request 5000)) toy_request 3)
     = fst (begin_rotation toy_active toy_request 5000)"
proof -
  have "ro_threshold toy_request = 2" by (simp add: toy_request_def sample_rotation_def)
  then show ?thesis by (intro apply_rotation_stays_locked [THEN conjunct1]) (simp_all add: toy_begin)
qed

text \<open>
  What \<open>apply_rotation\<close> does not check. It looks at nothing of its request but the new set and
  the threshold: not whether it is the request that \<open>begin_rotation\<close> approved, nor whether it was
  approved at all. A request that is pending, cancelled or for another wallet and version is
  applied like the governed one.
\<close>

theorem apply_rotation_ungoverned:
  assumes "ro_new_set r = ro_new_set r'" and "ro_threshold r = ro_threshold r'"
  shows "apply_rotation b M s r t = apply_rotation b M s r' t"
  by (simp only: apply_rotation_def assms)

theorem apply_rotation_ungoverned_witness:
  "apply_rotation Debug toy_mpc (fst (begin_rotation toy_active toy_request 5000))
      (toy_request\<lparr>ro_wallet := [], ro_approvals := [], ro_status := RotCancelled, ro_old_version := 77\<rparr>) 2
    = apply_rotation Debug toy_mpc (fst (begin_rotation toy_active toy_request 5000)) toy_request 2"
  by (rule apply_rotation_ungoverned) simp_all

end
