(* ===== verification/Lifecycle_Machine.thy ===== *)
theory Lifecycle_Machine
  imports Lifecycle_Safety
begin

text \<open>
  The state machine that the head of \<open>crates/keymesh-tss/src/lifecycle.rs\<close> and
  \<open>docs/architecture/tss-key-lifecycle.md\<close> draw, as a step relation on the key state, the group key
  and the version of the participant set, and the refinement that the operations of
  \<open>KeyLifecycle\<close> implement it: everything else they do (shares, locks, errors, panics) is inside
  these steps.
\<close>

section \<open>The documented machine\<close>

inductive key_step :: "key_state \<times> 'g option \<times> u64 \<Rightarrow> key_state \<times> 'g option \<times> u64 \<Rightarrow> bool" where
  generate: "key_step (KsCreated, None, 0) (KsActive, Some g, 1)"
| refresh: "key_step (KsActive, Some g, v) (KsRefreshing, Some g, v)"
| refreshed: "key_step (KsRefreshing, Some g, v) (KsActive, Some g, v)"
| rotate: "key_step (KsActive, Some g, v) (KsRotating, Some g, v)"
| rotated: "key_step (KsRotating, Some g, v) (KsActive, Some g, v + 1)"
| rotation_failed: "key_step (KsRotating, Some g, v) (KsActive, Some g, v)"
| retire: "key_step (KsActive, Some g, v) (KsRetired, Some g, v)"

code_pred (modes: i \<Rightarrow> i \<Rightarrow> bool) key_step .

inductive_cases key_step_from_retired [elim!]: "key_step (KsRetired, g, v) k"
inductive_cases key_step_from_key [elim]: "key_step (s, Some g, v) k"
inductive_simps key_step_from_active: "key_step (KsActive, g, v) k"

definition key_steps :: "key_state \<times> 'g option \<times> u64 \<Rightarrow> key_state \<times> 'g option \<times> u64 \<Rightarrow> bool" where
  "key_steps = key_step\<^sup>*\<^sup>*"

lemma key_steps_refl [simp]: "key_steps k k"
  by (simp add: key_steps_def)

lemma key_steps_trans [trans]: "key_steps k k' \<Longrightarrow> key_steps k' k'' \<Longrightarrow> key_steps k k''"
  by (simp add: key_steps_def)

lemma key_step_steps: "key_step k k' \<Longrightarrow> key_steps k k'"
  by (simp add: key_steps_def)

text \<open>In the machine a key is permanent, and signing means that the machine is active.\<close>

lemma key_step_keeps_key: "key_step k k' \<Longrightarrow> fst (snd k) = Some g \<Longrightarrow> fst (snd k') = Some g"
  by (cases k) (auto elim: key_step.cases)

lemma key_steps_keep_key: "key_steps k k' \<Longrightarrow> fst (snd k) = Some g \<Longrightarrow> fst (snd k') = Some g"
  unfolding key_steps_def by (induction rule: rtranclp_induct) (auto intro: key_step_keeps_key)

lemma key_steps_retired: "key_steps k k' \<Longrightarrow> fst k = KsRetired \<Longrightarrow> k' = k"
  unfolding key_steps_def by (induction rule: rtranclp_induct) (auto elim: key_step.cases)

section \<open>The operations implement it\<close>

definition lifecycle_abs ::
  "('sn, 'v, 'sh, 'ax, 'vk) key_lifecycle \<Rightarrow> key_state \<times> 'vk group_public_key option \<times> u64" where
  "lifecycle_abs s = (kl_state s, map_option m_group_key (kl_material s), kl_version s)"

lemma abs_refresh: "lifecycle_inv M s \<Longrightarrow> key_steps (lifecycle_abs s) (lifecycle_abs (fst (lifecycle_refresh N s)))"
proof (cases rule: lifecycle_refresh_cases [where M = N and s = s])
  case (panicked mat)
  then show ?thesis by (simp add: lifecycle_abs_def key_step_steps key_step.intros)
next
  case (refreshed mat new)
  then show ?thesis by (simp add: lifecycle_abs_def)
qed (simp_all add: lifecycle_abs_def)

lemma abs_begin:
  assumes "lifecycle_inv M s"
  shows "key_steps (lifecycle_abs s) (lifecycle_abs (fst (begin_rotation s r now)))"
proof (cases rule: begin_rotation_cases [where s = s and r = r and now = now])
  case begun
  with assms obtain m where "kl_material s = Some m" by (auto simp: lifecycle_inv_def)
  with begun show ?thesis by (simp add: lifecycle_abs_def key_step_steps key_step.intros)
qed simp

lemma abs_apply:
  assumes "lifecycle_inv M s"
  shows "key_steps (lifecycle_abs s) (lifecycle_abs (fst (apply_rotation b N s r t)))"
proof (cases rule: apply_rotation_cases [where b = b and M = N and s = s and r = r and t = t])
  case (failed e)
  with assms obtain m where "kl_material s = Some m" by (auto simp: lifecycle_inv_def)
  with failed show ?thesis by (simp add: lifecycle_abs_def key_step_steps key_step.intros)
next
  case (rotated mat new)
  then show ?thesis by (simp add: lifecycle_abs_def key_step_steps key_step.intros)
qed simp_all

lemma abs_rotate:
  assumes "lifecycle_inv M s"
  shows "key_steps (lifecycle_abs s) (lifecycle_abs (fst (rotate_with_request b N s r now)))"
proof (cases rule: rotate_with_request_cases [where b = b and M = N and s = s and r = r and now = now])
  case (refused e)
  then show ?thesis by simp
next
  case (applied s2 x r2)
  let ?s = "s\<lparr>kl_state := KsRotating, kl_locked := True\<rparr>"
  obtain m where m: "kl_material s = Some m" using assms applied(1) by (auto simp: lifecycle_inv_def)
  have "key_steps (lifecycle_abs s) (lifecycle_abs ?s)"
    using applied(1) m by (simp add: lifecycle_abs_def key_step_steps key_step.intros)
  also have "lifecycle_inv M ?s" using assms applied(1,2) m by (simp add: lifecycle_inv_def)
  then have "key_steps (lifecycle_abs ?s) (lifecycle_abs s2)"
    using abs_apply [of M ?s b N "r\<lparr>ro_status := RotResharing\<rparr>" "ro_threshold r"] applied(5) by simp
  finally show ?thesis using applied(6) by simp
qed

lemma abs_step:
  assumes "lifecycle_inv M s"
  shows "key_steps (lifecycle_abs s) (lifecycle_abs (lifecycle_step b s ev))"
proof (cases ev)
  case (EvDkg N)
  from lifecycle_dkg_cases [of N s] show ?thesis
  proof (elim disjE exE conjE)
    fix mat
    assume c: "kl_state s = KsCreated" and e: "fst (lifecycle_dkg N s) = s\<lparr>kl_material := Some mat,
        kl_state := KsActive, kl_version := 1,
        kl_key_id := derive_key_id N (m_group_key mat) (word_of_nat (m_threshold mat)) 1,
        kl_group_key_bytes := Some (vk_compressed N (g_verifying_key (m_group_key mat)))\<rparr>"
    from assms c have "s = lifecycle_new" by (auto simp: lifecycle_inv_def)
    then show ?thesis unfolding EvDkg lifecycle_step.simps e
      by (simp add: lifecycle_abs_def lifecycle_new_def key_step_steps key_step.intros)
  qed (simp add: EvDkg)
next
  case (EvRefresh N)
  then show ?thesis using abs_refresh [OF assms] by simp
next
  case (EvBegin r now)
  then show ?thesis using abs_begin [OF assms] by simp
next
  case (EvApply N r t)
  then show ?thesis using abs_apply [OF assms] by simp
next
  case (EvRotate N r now)
  then show ?thesis using abs_rotate [OF assms] by simp
next
  case EvRetire
  have "kl_material s \<noteq> None" if "kl_state s = KsActive" using assms that by (auto simp: lifecycle_inv_def)
  then show ?thesis using EvRetire
    by (auto simp: lifecycle_retire_def lifecycle_abs_def ks_can_mutate_def key_step_steps key_step.intros)
qed

lemma abs_run:
  assumes "lifecycle_inv M s" and "list_all (event_codec M) evs"
  shows "key_steps (lifecycle_abs s) (lifecycle_abs (lifecycle_run b s evs))"
  using assms
proof (induction evs arbitrary: s)
  case (Cons ev evs)
  have "key_steps (lifecycle_abs s) (lifecycle_abs (lifecycle_step b s ev))" by (rule abs_step [OF Cons.prems(1)])
  also have "key_steps \<dots> (lifecycle_abs (lifecycle_run b (lifecycle_step b s ev) evs))"
    using Cons.prems by (intro Cons.IH) (simp_all add: lifecycle_inv_step)
  finally show ?case by simp
qed simp



end
