(* ===== verification/Tss_Signing.thy ===== *)
theory Tss_Signing
  imports Tss_Material
begin

text \<open>
  Threshold signing (\<open>crates/keymesh-tss/src/signing.rs\<close>), the transcript of a signature
  (\<open>transcript.rs\<close>) and the provider in front of it (\<open>provider.rs\<close>). The ECDSA types of \<open>k256\<close> are
  the parameter record \<open>ecdsa_backend\<close>, beside the protocols \<open>mpc\<close>; the environment variables that
  \<open>provider.rs\<close> reads are arguments.
\<close>

unbundle bit_operations_syntax

record threshold_signature =
  sg_r :: bytes
  sg_s :: bytes
  sg_v :: u8
  sg_digest :: bytes
  sg_session_id :: tss_session_id

record ('sg, 'es, 'rid, 'sc, 'vk) ecdsa_backend =
  to_backend :: "'sg \<Rightarrow> 'es \<times> 'rid"
  es_to_bytes :: "'es \<Rightarrow> bytes"
  es_from_bytes :: "bytes \<Rightarrow> 'es option"
  recovery_id_to_byte :: "'rid \<Rightarrow> u8"
  recovery_id_try_from :: "u8 \<Rightarrow> 'rid option"
  recover_from_prehash :: "bytes \<Rightarrow> 'es \<Rightarrow> 'rid \<Rightarrow> 'vk option"
  scalar_from_repr :: "bytes \<Rightarrow> 'sc option"
  scalar_sub :: "'sc \<Rightarrow> 'sc \<Rightarrow> 'sc"
  scalar_to_bytes :: "'sc \<Rightarrow> bytes"

definition HALF_N :: bytes where
  "HALF_N = [0x7F, 0xFF, 0xFF, 0xFF, 0xFF, 0xFF, 0xFF, 0xFF, 0xFF, 0xFF, 0xFF, 0xFF, 0xFF, 0xFF, 0xFF,
     0xFF, 0x5D, 0x57, 0x6E, 0x73, 0x57, 0xA4, 0x50, 0x1D, 0xDF, 0xE9, 0x2F, 0x46, 0x68, 0x1B, 0x20, 0xA0]"

definition ORDER_N :: bytes where
  "ORDER_N = [0xFF, 0xFF, 0xFF, 0xFF, 0xFF, 0xFF, 0xFF, 0xFF, 0xFF, 0xFF, 0xFF, 0xFF, 0xFF, 0xFF, 0xFF,
     0xFE, 0xBA, 0xAE, 0xDC, 0xE6, 0xAF, 0x48, 0xA0, 0x3B, 0xBF, 0xD2, 0x5E, 0x8C, 0xD0, 0x36, 0x41, 0x41]"

definition s_is_low :: "threshold_signature \<Rightarrow> bool" where
  "s_is_low sg \<longleftrightarrow> bytes_le (sg_s sg) HALF_N"

definition verify_signature ::
  "build \<Rightarrow> ('sg, 'es, 'rid, 'sc, 'vk) ecdsa_backend \<Rightarrow> bytes \<Rightarrow> threshold_signature \<Rightarrow> 'vk
     \<Rightarrow> (tss_error, bool) res" where
  "verify_signature b E digest sg vk =
     (if sg_digest sg \<noteq> digest then Ok False
      else case es_from_bytes E (sg_r sg @ sg_s sg) of
        None \<Rightarrow> Ok False
      | Some signature \<Rightarrow>
          res_bind (sub_u8 b (sg_v sg) 27) (\<lambda>v.
            case recovery_id_try_from E v of
              None \<Rightarrow> Ok False
            | Some rec \<Rightarrow>
                (case recover_from_prehash E digest signature rec of
                   None \<Rightarrow> Ok False
                 | Some recovered \<Rightarrow> Ok (recovered = vk))))"

fun check_subset :: "nat \<Rightarrow> nat set \<Rightarrow> nat list \<Rightarrow> (tss_error, unit) res" where
  "check_subset n seen [] = Ok ()"
| "check_subset n seen (idx # rest) =
     (if n \<le> idx then Err UnknownParticipant
      else if idx \<in> seen then Err DuplicateParticipant
      else check_subset n (insert idx seen) rest)"

text \<open>
  The last part of \<open>threshold_sign\<close>, from the parties' signatures on: all must agree (a failing
  \<open>assert_eq\<close> is a panic), a high \<open>s\<close> is to be replaced by its negation, and the result is checked.
\<close>

definition finish_signature ::
  "build \<Rightarrow> ('sg, 'es, 'rid, 'sc, 'vk) ecdsa_backend \<Rightarrow> 'vk \<Rightarrow> session_binding \<Rightarrow> tss_session_id
     \<Rightarrow> ('v \<times> 'sg) list \<Rightarrow> (tss_error, threshold_signature) res" where
  "finish_signature b E vk binding session_id signatures =
     res_bind (case signatures of [] \<Rightarrow> Err (SigningFailed ''no signatures'') | (v, sg) # rest \<Rightarrow> Ok sg)
        (\<lambda>first_sig.
      let sg = fst (to_backend E first_sig); rec_id = snd (to_backend E first_sig) in
      if \<not> list_all (\<lambda>(v, x). fst (to_backend E x) = sg) signatures then Panic
      else
      let bs = es_to_bytes E sg; r = take 32 bs; s = take 32 (drop 32 bs) in
      res_bind (add_u8 b (recovery_id_to_byte E rec_id) 27) (\<lambda>v.
      res_bind (if \<not> bytes_le s HALF_N
          then res_bind (unwrap (scalar_from_repr E s)) (\<lambda>s_scalar.
               res_bind (unwrap (scalar_from_repr E ORDER_N)) (\<lambda>n_scalar.
                 Ok (scalar_to_bytes E (scalar_sub E n_scalar s_scalar), v XOR 1)))
          else Ok (s, v)) (\<lambda>sv.
      let threshold_sig = \<lparr>sg_r = r, sg_s = fst sv, sg_v = snd sv, sg_digest = sb_digest binding,
                           sg_session_id = session_id\<rparr> in
      res_bind (verify_signature b E (sb_digest binding) threshold_sig vk)
        (\<lambda>ok. if \<not> ok then Err (SigningFailed ''recovery mismatch'') else Ok threshold_sig))))"

definition threshold_sign ::
  "build \<Rightarrow> ('sn, 'v, 'sh, 'ax, 'vk, 'ep, 'ks, 'sg) mpc \<Rightarrow> ('sg, 'es, 'rid, 'sc, 'vk) ecdsa_backend
     \<Rightarrow> ('sn, 'v, 'sh, 'ax, 'vk) key_material \<Rightarrow> nat list \<Rightarrow> session_binding \<Rightarrow> tss_session_id
     \<Rightarrow> (tss_error, threshold_signature) res" where
  "threshold_sign b M E mat subset_indices binding session_id =
     (if length subset_indices < m_threshold mat
      then Err (InsufficientShares (length subset_indices) (m_threshold mat))
      else if derive_session_id (mpc_keccak M) binding \<noteq> session_id
      then Err (SessionMismatch ''session_id does not match binding'')
      else
      res_bind (check_subset (length (m_participants mat)) {} subset_indices) (\<lambda>_.
      let selected = map (\<lambda>i. m_participants mat ! i) subset_indices;
          selected_verifiers = set (map p_verifier selected)
      in
      res_bind (collect_res (\<lambda>p. map_err (\<lambda>e. SigningFailed (''to_key_share: '' @ e))
          (to_key_share M (p_share p) selected_verifiers)) selected) (\<lambda>shares.
      res_bind (collect_res (\<lambda>p. map_err (\<lambda>e. SigningFailed (''aux subset: '' @ e))
          (aux_subset M (p_aux p) selected_verifiers)) selected) (\<lambda>auxs.
      res_bind (collect_res (\<lambda>idx.
          res_bind (map_err (\<lambda>e. SigningFailed (''InteractiveSigning new: '' @ e))
              (signing_new M (sb_digest binding) (shares ! idx) (auxs ! idx)))
            (\<lambda>ep. Ok (p_signer (selected ! idx), ep))) [0..<length subset_indices]) (\<lambda>entry_points.
      res_bind (run_results (\<lambda>e. SigningFailed (''run_sync: '' @ e)) (\<lambda>e. SigningFailed (''results: '' @ e))
          (run_signing M entry_points)) (\<lambda>signatures.
      finish_signature b E (g_verifying_key (m_group_key mat)) binding session_id signatures))))))"

section \<open>Transcripts\<close>

record signing_transcript =
  tr_participant_indices :: "u8 list"
  tr_protocol_version :: string
  tr_session_id :: tss_session_id
  tr_digest :: bytes
  tr_chain_id :: u64
  tr_wallet :: bytes
  tr_nonce :: u64
  tr_policy_version :: u64
  tr_round_count :: nat
  tr_message_types :: "string list"
  tr_message_ordering :: "string list"
  tr_final_signature :: "threshold_signature option"
  tr_status :: string

definition transcript_new_success ::
  "u8 list \<Rightarrow> tss_session_id \<Rightarrow> bytes \<Rightarrow> u64 \<Rightarrow> bytes \<Rightarrow> u64 \<Rightarrow> u64 \<Rightarrow> threshold_signature \<Rightarrow> signing_transcript" where
  "transcript_new_success participants session_id digest chain_id wallet nonce policy_version sg =
     \<lparr>tr_participant_indices = participants, tr_protocol_version = ''synedrion/0.3-cggmp24'',
      tr_session_id = session_id, tr_digest = digest, tr_chain_id = chain_id, tr_wallet = wallet,
      tr_nonce = nonce, tr_policy_version = policy_version, tr_round_count = 3,
      tr_message_types = [''KeyInit'', ''KeyResharing'', ''AuxGen'', ''InteractiveSigning''],
      tr_message_ordering = [''broadcast''], tr_final_signature = Some sg, tr_status = ''Completed''\<rparr>"

section \<open>The provider\<close>

datatype signing_mode = ModeSingle | ModeThreshold

definition signing_mode_from_env :: "string option \<Rightarrow> signing_mode" where
  "signing_mode_from_env var = (if var = Some ''threshold'' then ModeThreshold else ModeSingle)"

definition is_threshold :: "signing_mode \<Rightarrow> bool" where "is_threshold m \<longleftrightarrow> m = ModeThreshold"

record 'vk threshold_participant_set =
  ps_protocol_version :: string
  ps_threshold :: nat
  ps_total :: nat
  ps_participant_ids :: "u8 list"
  ps_group_public_key :: "'vk group_public_key"

definition participant_set_from_material ::
  "('sn, 'v, 'sh, 'ax, 'vk) key_material \<Rightarrow> 'vk threshold_participant_set" where
  "participant_set_from_material mat =
     \<lparr>ps_protocol_version = ''synedrion/0.3-cggmp24'', ps_threshold = m_threshold mat,
      ps_total = m_total mat, ps_participant_ids = map p_index (m_participants mat),
      ps_group_public_key = m_group_key mat\<rparr>"

definition verify_wallet_identity ::
  "'vk threshold_participant_set \<Rightarrow> bytes \<Rightarrow> (tss_error, unit) res" where
  "verify_wallet_identity ps expected_wallet =
     (if g_ethereum_address (ps_group_public_key ps) \<noteq> expected_wallet
      then Err (SessionMismatch (''group address 0x''
        @ hex_encode (g_ethereum_address (ps_group_public_key ps))
        @ '' != wallet 0x'' @ hex_encode expected_wallet))
      else Ok ())"

record ('sn, 'v, 'sh, 'ax, 'vk) threshold_provider =
  tp_material :: "('sn, 'v, 'sh, 'ax, 'vk) key_material"
  tp_participant_set :: "'vk threshold_participant_set"
  tp_chain_id :: u64

definition threshold_provider_new ::
  "string option \<Rightarrow> ('sn, 'v, 'sh, 'ax, 'vk) key_material \<Rightarrow> u64
     \<Rightarrow> (tss_error, ('sn, 'v, 'sh, 'ax, 'vk) threshold_provider) res" where
  "threshold_provider_new mainnet_var material chain_id =
     (if chain_id = 1 \<and> mainnet_var \<noteq> Some ''true''
      then Err (SessionMismatch ''mainnet not allowed for threshold provider (testnet only)'')
      else Ok \<lparr>tp_material = material, tp_participant_set = participant_set_from_material material,
               tp_chain_id = chain_id\<rparr>)"

definition threshold_provider_sign ::
  "build \<Rightarrow> ('sn, 'v, 'sh, 'ax, 'vk, 'ep, 'ks, 'sg) mpc \<Rightarrow> ('sg, 'es, 'rid, 'sc, 'vk) ecdsa_backend
     \<Rightarrow> ('sn, 'v, 'sh, 'ax, 'vk) threshold_provider \<Rightarrow> session_binding \<Rightarrow> nat list \<Rightarrow> tss_session_id
     \<Rightarrow> (tss_error, threshold_signature) res" where
  "threshold_provider_sign b M E p binding chosen session_id =
     (if sb_chain_id binding \<noteq> tp_chain_id p
      then Err (SessionMismatch (''chain mismatch: binding '' @ show_nat (unat (sb_chain_id binding))
        @ '' != provider '' @ show_nat (unat (tp_chain_id p))))
      else if length chosen < ps_threshold (tp_participant_set p)
      then Err (InsufficientShares (length chosen) (ps_threshold (tp_participant_set p)))
      else threshold_sign b M E (tp_material p) chosen binding session_id)"

definition threshold_provider_verify ::
  "build \<Rightarrow> ('sg, 'es, 'rid, 'sc, 'vk) ecdsa_backend \<Rightarrow> ('sn, 'v, 'sh, 'ax, 'vk) threshold_provider
     \<Rightarrow> bytes \<Rightarrow> threshold_signature \<Rightarrow> (tss_error, bool) res" where
  "threshold_provider_verify b E p digest sg =
     verify_signature b E digest sg (g_verifying_key (m_group_key (tp_material p)))"

text \<open>The \<open>SigningProvider\<close> trait: what a provider says of itself.\<close>

record provider_description =
  pd_kind :: string
  pd_protocol_version :: string
  pd_capabilities :: "string list"

definition single_provider :: provider_description where
  "single_provider = \<lparr>pd_kind = ''single'', pd_protocol_version = ''ecdsa/single-v1'',
     pd_capabilities = [''sign'', ''verify'']\<rparr>"

definition describe_threshold_provider ::
  "('sn, 'v, 'sh, 'ax, 'vk) threshold_provider \<Rightarrow> provider_description" where
  "describe_threshold_provider p = \<lparr>pd_kind = ''threshold'', pd_protocol_version = ''synedrion/0.3-cggmp24'',
     pd_capabilities = [''dkg'', ''sign'', ''verify'', ''session'']\<rparr>"

definition group_address :: "('sn, 'v, 'sh, 'ax, 'vk) threshold_provider \<Rightarrow> bytes" where
  "group_address p = g_ethereum_address (m_group_key (tp_material p))"

section \<open>What a signature guarantees\<close>

text \<open>The documented behaviour of \<open>from_repr\<close>: a value that is not reduced is no scalar.\<close>

definition scalars_canonical :: "('sg, 'es, 'rid, 'sc, 'vk) ecdsa_backend \<Rightarrow> bool" where
  "scalars_canonical E \<longleftrightarrow> (\<forall>bs. be_nat ORDER_N \<le> be_nat bs \<longrightarrow> scalar_from_repr E bs = None)"

lemma order_is_no_scalar: "scalars_canonical E \<Longrightarrow> scalar_from_repr E ORDER_N = None"
  by (simp add: scalars_canonical_def)

lemma check_subset_Ok: "check_subset n seen idxs = Ok () \<longleftrightarrow>
    list_all (\<lambda>i. i < n) idxs \<and> distinct idxs \<and> seen \<inter> set idxs = {}"
  by (induction idxs arbitrary: seen) auto

lemma check_subset_no_panic: "check_subset n seen idxs \<noteq> Panic"
  by (induction idxs arbitrary: seen) auto

lemma high_s_branch:
  assumes "scalars_canonical E"
  shows "(if \<not> bytes_le s HALF_N
      then res_bind (unwrap (scalar_from_repr E s)) (\<lambda>s_scalar.
           res_bind (unwrap (scalar_from_repr E ORDER_N)) (\<lambda>n_scalar.
             Ok (scalar_to_bytes E (scalar_sub E n_scalar s_scalar), v XOR 1)))
      else Ok (s, v)) = (if bytes_le s HALF_N then Ok (s, v) else Panic)"
  using order_is_no_scalar [OF assms] by (cases "scalar_from_repr E s") auto

lemma finish_signature_Ok:
  assumes "finish_signature b E vk binding sid signatures = Ok sg" and "scalars_canonical E"
  shows "sg_session_id sg = sid \<and> sg_digest sg = sb_digest binding \<and> s_is_low sg
    \<and> verify_signature b E (sb_digest binding) sg vk = Ok True"
  using assms(1) unfolding finish_signature_def Let_def high_s_branch [OF assms(2)]
  by (auto simp: s_is_low_def split: if_splits)

lemma threshold_sign_Ok:
  fixes M :: "('sn, 'v, 'sh, 'ax, 'vk, 'ep, 'ks, 'sg) mpc"
  assumes "threshold_sign b M E mat idxs binding sid = Ok sg" and "scalars_canonical E"
  shows "m_threshold mat \<le> length idxs \<and> distinct idxs
    \<and> list_all (\<lambda>i. i < length (m_participants mat)) idxs
    \<and> sid = derive_session_id (mpc_keccak M) binding \<and> sg_session_id sg = sid
    \<and> sg_digest sg = sb_digest binding \<and> s_is_low sg
    \<and> verify_signature b E (sb_digest binding) sg (g_verifying_key (m_group_key mat)) = Ok True"
proof -
  from assms(1) obtain signatures :: "('v \<times> 'sg) list" where
      g: "m_threshold mat \<le> length idxs" "sid = derive_session_id (mpc_keccak M) binding"
      "check_subset (length (m_participants mat)) {} idxs = Ok ()"
    and f: "finish_signature b E (g_verifying_key (m_group_key mat)) binding sid signatures = Ok sg"
    unfolding threshold_sign_def Let_def by (auto split: if_splits)
  from g finish_signature_Ok [OF f assms(2)] show ?thesis by (simp add: check_subset_Ok)
qed

text \<open>
  Claim C10. Threshold signing is sound. Whatever the protocol returns, a signature comes only from at
  least a threshold of distinct, existing participants, for the session id of the given binding;
  it carries the binding's digest and session, has a low \<open>s\<close>, and verifies under the group key.
\<close>

theorem threshold_sign_sound:
  assumes "threshold_sign b M E mat idxs binding sid = Ok sg" and "scalars_canonical E"
  shows "m_threshold mat \<le> length idxs \<and> distinct idxs
    \<and> list_all (\<lambda>i. i < length (m_participants mat)) idxs
    \<and> sid = derive_session_id (mpc_keccak M) binding \<and> sg_session_id sg = sid
    \<and> sg_digest sg = sb_digest binding \<and> s_is_low sg
    \<and> verify_signature b E (sb_digest binding) sg (g_verifying_key (m_group_key mat)) = Ok True"
  by (rule threshold_sign_Ok [OF assms])

text \<open>A toy backend: signatures are their bytes, and every key recovered is 42.\<close>

definition toy_backend :: "(nat, bytes, u8, nat, nat) ecdsa_backend" where
  "toy_backend = \<lparr>to_backend = (\<lambda>n. (replicate 63 0 @ [word_of_nat n], 1)), es_to_bytes = (\<lambda>s. s),
     es_from_bytes = Some, recovery_id_to_byte = (\<lambda>r. r),
     recovery_id_try_from = (\<lambda>v. if v \<le> 3 then Some v else None),
     recover_from_prehash = (\<lambda>d s r. Some 42),
     scalar_from_repr = (\<lambda>bs. if be_nat bs < be_nat ORDER_N then Some (be_nat bs) else None),
     scalar_sub = (-), scalar_to_bytes = nat_be 32\<rparr>"

definition toy_signature :: threshold_signature where
  "toy_signature = \<lparr>sg_r = replicate 32 0, sg_s = replicate 31 0 @ [7], sg_v = 28,
     sg_digest = sb_digest sample_binding,
     sg_session_id = derive_session_id (mpc_keccak toy_mpc) sample_binding\<rparr>"

lemma toy_backend_canonical: "scalars_canonical toy_backend"
  by (simp add: scalars_canonical_def toy_backend_def)

lemma toy_low: "bytes_le (replicate 31 0 @ [7]) HALF_N"
  by code_simp

lemma toy_finish:
  "finish_signature Debug toy_backend 42 sample_binding
     (derive_session_id (mpc_keccak toy_mpc) sample_binding) [(v, 7), (w, 7)] = Ok toy_signature"
proof -
  have "verify_signature Debug toy_backend (sb_digest sample_binding) toy_signature 42 = Ok True"
    by (simp add: verify_signature_def toy_backend_def toy_signature_def sub_u8_def del: res_bind_Ok_iff)
  moreover have "take 32 (drop 32 (replicate 63 0 @ [7 :: u8])) = replicate 31 0 @ [7]"
      "take 32 (replicate 63 0 @ [7 :: u8]) = replicate 32 0" by simp_all
  ultimately show ?thesis
    by (simp add: finish_signature_def Let_def toy_backend_def toy_low add_u8_def toy_signature_def
        del: res_bind_Ok_iff)
qed

lemma toy_threshold_sign:
  "threshold_sign Debug toy_mpc toy_backend toy_material [0, 2] sample_binding
     (derive_session_id (mpc_keccak toy_mpc) sample_binding) = Ok toy_signature"
proof -
  have m: "m_threshold toy_material = 2" "length (m_participants toy_material) = 3"
      "g_verifying_key (m_group_key toy_material) = 42"
    by (simp_all add: toy_material_def)
  have f: "to_key_share toy_mpc sh vs = Ok sh" "aux_subset toy_mpc ax vs = Ok ax"
      "signing_new toy_mpc d ks ax = Ok 0" "run_signing toy_mpc eps = Ok (Ok (map (\<lambda>(s, _). (s, 7)) eps))"
    for sh vs ax d ks eps by (simp_all add: toy_mpc_def)
  show ?thesis
    by (simp add: threshold_sign_def Let_def run_results_def upt_rec m f toy_finish
        del: res_bind_Ok_iff map_err_Ok_iff)
qed

theorem threshold_sign_sound_witness:
  "s_is_low toy_signature
   \<and> verify_signature Debug toy_backend (sb_digest sample_binding) toy_signature
       (g_verifying_key (m_group_key toy_material)) = Ok True"
  using threshold_sign_sound [OF toy_threshold_sign toy_backend_canonical] by blast

lemma check_subset_errors:
  "check_subset n seen idxs = Err e \<Longrightarrow> e = UnknownParticipant \<or> e = DuplicateParticipant"
  by (induction idxs arbitrary: seen) (auto split: if_splits)

text \<open>Results whose errors are all \<open>SigningFailed\<close>.\<close>

definition fails_signing :: "(tss_error, 'a) res \<Rightarrow> bool" where
  "fails_signing r \<longleftrightarrow> (\<forall>e. r = Err e \<longrightarrow> (\<exists>m. e = SigningFailed m))"

lemma fails_signing_basic:
  "fails_signing (Ok a)" "fails_signing Panic" "fails_signing (Err (SigningFailed m))"
  "fails_signing (unwrap x)" "fails_signing (add_u8 b u w)" "fails_signing (sub_u8 b u w)"
  by (cases x; auto simp: fails_signing_def add_u8_def sub_u8_def split: build.split)+

lemma fails_signing_bind:
  "fails_signing r \<Longrightarrow> (\<And>a. fails_signing (f a)) \<Longrightarrow> fails_signing (res_bind r f)"
  by (cases r) (auto simp: fails_signing_def)

lemma fails_signing_map_err: "fails_signing (map_err (\<lambda>e. SigningFailed (g e)) r)"
  by (cases r) (auto simp: fails_signing_def)

lemma fails_signing_collect: "(\<And>x. fails_signing (f x)) \<Longrightarrow> fails_signing (collect_res f xs)"
  by (induction xs) (auto intro!: fails_signing_bind simp: fails_signing_basic)

lemma fails_signing_run:
  "fails_signing (run_results (\<lambda>e. SigningFailed (g e)) (\<lambda>e. SigningFailed (h e)) r)"
  unfolding run_results_def by (intro fails_signing_bind fails_signing_map_err)

lemma fails_signing_verify: "fails_signing (verify_signature b E d sg vk)"
  unfolding verify_signature_def
  by (auto intro!: fails_signing_bind simp: fails_signing_basic split: option.split)

lemma fails_signing_finish: "fails_signing (finish_signature b E vk binding sid signatures)"
  unfolding finish_signature_def Let_def
  by (auto intro!: fails_signing_bind fails_signing_verify simp: fails_signing_basic split: list.split)

lemma threshold_sign_later_errors:
  assumes "m_threshold mat \<le> length idxs" and "derive_session_id (mpc_keccak M) binding = sid"
    and "check_subset (length (m_participants mat)) {} idxs = Ok ()"
  shows "fails_signing (threshold_sign b M E mat idxs binding sid)"
proof -
  have n: "\<not> length idxs < m_threshold mat" using assms(1) by simp
  show ?thesis
    unfolding threshold_sign_def assms(2,3) Let_def if_not_P [OF n] res_bind.simps(1)
    by (auto intro!: fails_signing_bind fails_signing_collect fails_signing_map_err fails_signing_run
        fails_signing_finish simp: fails_signing_basic)
qed

text \<open>
  The guards of signing, in order. Too few indices, a session id that is not the
  binding's, and the first index that is unknown or repeated are each refused with their own
  error before any share is touched; otherwise none of these errors is returned.
\<close>

theorem threshold_sign_guards:
  "(length idxs < m_threshold mat \<longrightarrow> threshold_sign b M E mat idxs binding sid
       = Err (InsufficientShares (length idxs) (m_threshold mat)))
   \<and> (m_threshold mat \<le> length idxs \<and> derive_session_id (mpc_keccak M) binding \<noteq> sid \<longrightarrow>
       threshold_sign b M E mat idxs binding sid
         = Err (SessionMismatch ''session_id does not match binding''))
   \<and> (m_threshold mat \<le> length idxs \<and> derive_session_id (mpc_keccak M) binding = sid \<longrightarrow>
       (distinct idxs \<and> list_all (\<lambda>i. i < length (m_participants mat)) idxs
         \<longleftrightarrow> threshold_sign b M E mat idxs binding sid \<notin> {Err UnknownParticipant, Err DuplicateParticipant}))"
proof (intro conjI impI)
  show "threshold_sign b M E mat idxs binding sid = Err (InsufficientShares (length idxs) (m_threshold mat))"
    if "length idxs < m_threshold mat"
    using that by (simp add: threshold_sign_def)
  show "threshold_sign b M E mat idxs binding sid = Err (SessionMismatch ''session_id does not match binding'')"
    if "m_threshold mat \<le> length idxs \<and> derive_session_id (mpc_keccak M) binding \<noteq> sid"
    using that by (simp add: threshold_sign_def)
  assume g: "m_threshold mat \<le> length idxs \<and> derive_session_id (mpc_keccak M) binding = sid"
  show "distinct idxs \<and> list_all (\<lambda>i. i < length (m_participants mat)) idxs
         \<longleftrightarrow> threshold_sign b M E mat idxs binding sid \<notin> {Err UnknownParticipant, Err DuplicateParticipant}"
  proof (cases "check_subset (length (m_participants mat)) {} idxs")
    case Panic
    with check_subset_no_panic show ?thesis by blast
  next
    case (Err e)
    moreover have "e = UnknownParticipant \<or> e = DuplicateParticipant"
      using Err by (rule check_subset_errors)
    moreover have "threshold_sign b M E mat idxs binding sid = Err e"
      using g Err by (simp add: threshold_sign_def)
    ultimately show ?thesis using check_subset_Ok [of "length (m_participants mat)" "{}" idxs] by auto
  next
    case (Ok u)
    have "fails_signing (threshold_sign b M E mat idxs binding sid)"
      using g Ok by (intro threshold_sign_later_errors) auto
    then have "threshold_sign b M E mat idxs binding sid \<notin> {Err UnknownParticipant, Err DuplicateParticipant}"
      by (auto simp: fails_signing_def)
    with Ok check_subset_Ok [of "length (m_participants mat)" "{}" idxs] show ?thesis by simp
  qed
qed

theorem threshold_sign_guards_witness:
  "threshold_sign Release toy_mpc toy_backend toy_material [1] sample_binding (TssSessionId [])
     = Err (InsufficientShares 1 2)"
  using threshold_sign_guards [of "[1]" toy_material] by (simp add: toy_material_def)

text \<open>
  Claim C33. The low-\<open>s\<close> normalisation cannot work. The code loads the group order as a scalar to negate a
  high \<open>s\<close>, but the order is not a reduced scalar, so the \<open>unwrap\<close> panics: whenever the parties
  agree on a signature with a high \<open>s\<close>, signing panics instead of returning the low one.
\<close>

theorem high_s_panics:
  assumes "scalars_canonical E" and "signatures \<noteq> []"
    and "list_all (\<lambda>(v, x). fst (to_backend E x) = es) signatures"
    and "\<not> bytes_le (take 32 (drop 32 (es_to_bytes E es))) HALF_N"
  shows "finish_signature b E vk binding sid signatures = Panic"
proof -
  obtain w x rest where s: "signatures = (w, x) # rest" using assms(2) by (cases signatures) auto
  with assms(3) have x: "fst (to_backend E x) = es" by simp
  have a: "list_all (\<lambda>(v, x). fst (to_backend E x) = es) rest" using assms(3) s by simp
  show ?thesis
    unfolding finish_signature_def Let_def high_s_branch [OF assms(1)] s
    using x a assms(4)
    by (cases "add_u8 b (recovery_id_to_byte E (snd (to_backend E x))) 27 :: (tss_error, u8) res")
      (auto simp: add_u8_def split: if_splits build.splits)
qed

definition high_backend :: "(nat, bytes, u8, nat, nat) ecdsa_backend" where
  "high_backend = toy_backend\<lparr>to_backend := (\<lambda>n. (replicate 32 0 @ 0x80 # replicate 31 0, 0))\<rparr>"

theorem high_s_panics_witness:
  "finish_signature Release high_backend 42 sample_binding (TssSessionId []) [(0 :: nat, 7), (1, 7)] = Panic"
proof (rule high_s_panics [where es = "replicate 32 0 @ 0x80 # replicate 31 0"])
  show "scalars_canonical high_backend"
    using toy_backend_canonical by (simp add: scalars_canonical_def high_backend_def)
  have "\<not> bytes_le (0x80 # replicate 31 0) HALF_N" by code_simp
  then show "\<not> bytes_le (take 32 (drop 32 (es_to_bytes high_backend (replicate 32 0 @ 0x80 # replicate 31 0)))) HALF_N"
    by (simp add: high_backend_def toy_backend_def)
qed (simp_all add: high_backend_def)

text \<open>
  The recovery byte. Verification subtracts 27 from \<open>v\<close> without a check: for a matching
  digest and a well-formed \<open>r\<close> and \<open>s\<close>, a \<open>v\<close> below 27 panics in a debug build and is rejected in a
  release build; from 27 on, both builds give the same answer.
\<close>

theorem verify_signature_recovery_byte:
  assumes "sg_digest sg = digest" and "es_from_bytes E (sg_r sg @ sg_s sg) = Some es"
    and "\<forall>v. 3 < v \<longrightarrow> recovery_id_try_from E v = None"
  shows "(unat (sg_v sg) < 27 \<longrightarrow> verify_signature Debug E digest sg vk = Panic
      \<and> verify_signature Release E digest sg vk = Ok False)
    \<and> (27 \<le> unat (sg_v sg) \<longrightarrow>
      verify_signature Debug E digest sg vk = verify_signature Release E digest sg vk
      \<and> verify_signature Debug E digest sg vk \<noteq> Panic)"
proof (intro conjI impI)
  let ?v = "sg_v sg"
  have le: "27 \<le> ?v \<longleftrightarrow> 27 \<le> unat ?v" by (simp add: word_le_nat_alt)
  show "verify_signature Debug E digest sg vk = Panic" if "unat ?v < 27"
    using that assms(1,2) le by (simp add: verify_signature_def sub_u8_def)
  show "verify_signature Release E digest sg vk = Ok False" if "unat ?v < 27"
  proof -
    have "unat (?v - 27) = unat ?v + 229"
    proof -
      have eq: "?v - 27 = ?v + 229" by (simp add: diff_eq_eq add.assoc)
      have "unat (?v - 27) = (unat ?v + 229) mod 256"
        unfolding eq using unat_word_ariths(1) [of ?v 229] by simp
      then show ?thesis using that by simp
    qed
    then have "3 < ?v - 27" by (simp add: word_less_nat_alt)
    with assms that le show ?thesis by (simp add: verify_signature_def sub_u8_def)
  qed
  show "verify_signature Debug E digest sg vk = verify_signature Release E digest sg vk"
      "verify_signature Debug E digest sg vk \<noteq> Panic" if "27 \<le> unat ?v"
    using that le by (auto simp: verify_signature_def sub_u8_def split: option.split)
qed

theorem verify_signature_recovery_byte_witness:
  "verify_signature Debug toy_backend (sb_digest sample_binding) (toy_signature\<lparr>sg_v := 1\<rparr>) 42 = Panic"
  by (rule verify_signature_recovery_byte [where es = "replicate 32 0 @ replicate 31 0 @ [7]",
        THEN conjunct1, THEN mp, THEN conjunct1])
    (auto simp: toy_signature_def toy_backend_def)

text \<open>
  The provider. A signature that the threshold provider returns is for a binding on its own
  chain, from a threshold of distinct participants, and verifies with \<open>verify\<close>; and a provider
  for chain 1 exists only when the environment allows it.
\<close>

theorem provider_sign_sound:
  assumes "threshold_provider_new var material chain = Ok p"
    and "threshold_provider_sign b M E p binding idxs sid = Ok sg" and "scalars_canonical E"
  shows "sb_chain_id binding = chain \<and> (chain = 1 \<longrightarrow> var = Some ''true'')
    \<and> m_threshold material \<le> length idxs \<and> distinct idxs
    \<and> sg_digest sg = sb_digest binding \<and> s_is_low sg
    \<and> threshold_provider_verify b E p (sb_digest binding) sg = Ok True"
proof -
  have p: "tp_material p = material" "tp_chain_id p = chain" "chain = 1 \<longrightarrow> var = Some ''true''"
    using assms(1) by (auto simp: threshold_provider_new_def split: if_splits)
  from assms(2) have c: "sb_chain_id binding = chain"
      and s: "threshold_sign b M E material idxs binding sid = Ok sg"
    using p by (auto simp: threshold_provider_sign_def split: if_splits)
  from threshold_sign_Ok [OF s assms(3)] c p show ?thesis
    by (simp add: threshold_provider_verify_def)
qed

theorem provider_sign_sound_witness:
  "threshold_provider_verify Debug toy_backend
     \<lparr>tp_material = toy_material, tp_participant_set = participant_set_from_material toy_material, tp_chain_id = 1\<rparr>
     (sb_digest sample_binding) toy_signature = Ok True"
proof -
  let ?p = "\<lparr>tp_material = toy_material, tp_participant_set = participant_set_from_material toy_material,
      tp_chain_id = 1\<rparr>"
  have "threshold_provider_new (Some ''true'') toy_material 1 = Ok ?p"
    by (simp add: threshold_provider_new_def)
  moreover have "threshold_provider_sign Debug toy_mpc toy_backend ?p sample_binding [0, 2]
      (derive_session_id (mpc_keccak toy_mpc) sample_binding) = Ok toy_signature"
    using toy_threshold_sign
    by (simp add: threshold_provider_sign_def participant_set_from_material_def toy_material_def
        sample_binding_def del: res_bind_Ok_iff)
  ultimately show ?thesis using provider_sign_sound [OF _ _ toy_backend_canonical] by blast
qed

end
