(* ===== verification/Honest_Protocols.thy ===== *)
theory Honest_Protocols
  imports Resharing Tss_Signing
begin

text \<open>
  What the documentation promises of the protocols when every party follows them
  (\<open>docs/protocol/tss-key-lifecycle.md\<close>: resharing among a quorum of honest old holders preserves the
  verifying key), stated over the parameters \<open>mpc\<close>, and what the code of \<open>dkg.rs\<close>, \<open>lifecycle.rs\<close> and
  \<open>signing.rs\<close> then achieves: key generation, refresh, rotation and signing succeed. None of the
  guards and checks of the code gets in the way of an honest run.

  A sharing is genuine for a set of holders, a threshold and a verifying key; which shares are
  genuine is not visible to the code, so it is a ghost parameter, the record \<open>dealing\<close>.
\<close>

section \<open>Honest protocols\<close>

record ('v, 'sh, 'ax, 'vk) dealing =
  genuine :: "'v set \<Rightarrow> nat \<Rightarrow> 'vk \<Rightarrow> ('v \<Rightarrow> 'sh) \<Rightarrow> bool"
  genuine_aux :: "'v set \<Rightarrow> ('v \<Rightarrow> 'ax) \<Rightarrow> bool"

text \<open>A run that returns one result for each of the parties, the value of \<open>f\<close> at it.\<close>

definition returns :: "('v \<times> 'a) list run_outcome \<Rightarrow> 'v set \<Rightarrow> ('v \<Rightarrow> 'a) \<Rightarrow> bool" where
  "returns r vs f \<longleftrightarrow> (\<exists>vl. distinct vl \<and> set vl = vs \<and> r = Ok (Ok (map (\<lambda>v. (v, f v)) vl)))"

text \<open>Entry points of exactly the given parties, one each.\<close>

definition run_by ::
  "('sn, 'v, 'sh, 'ax, 'vk, 'ep, 'ks, 'sg) mpc \<Rightarrow> ('sn \<times> 'ep) list \<Rightarrow> 'v set \<Rightarrow> bool" where
  "run_by M eps vs \<longleftrightarrow>
     distinct (map (signer_verifier M \<circ> fst) eps) \<and> set (map (signer_verifier M \<circ> fst) eps) = vs"

definition honest_shares ::
  "('sn, 'v, 'sh, 'ax, 'vk, 'ep, 'ks, 'sg) mpc \<Rightarrow> ('v, 'sh, 'ax, 'vk) dealing \<Rightarrow> bool" where
  "honest_shares M G \<longleftrightarrow> (\<forall>vs t vk f. genuine G vs t vk f \<longrightarrow>
     finite vs \<and> 0 < t \<and> t \<le> card vs
     \<and> (\<forall>v \<in> vs. share_verifying_key M (f v) = Ok vk \<and> share_threshold M (f v) = t))"

text \<open>Key generation shares a new key among all its parties.\<close>

definition honest_key_init ::
  "('sn, 'v, 'sh, 'ax, 'vk, 'ep, 'ks, 'sg) mpc \<Rightarrow> ('v, 'sh, 'ax, 'vk) dealing \<Rightarrow> bool" where
  "honest_key_init M G \<longleftrightarrow> (\<forall>vs. finite vs \<and> vs \<noteq> {} \<longrightarrow>
     (\<exists>ep. key_init_new M vs = Ok ep)
     \<and> (\<forall>eps. run_by M eps vs \<and> (\<forall>(s, ep) \<in> set eps. key_init_new M vs = Ok ep) \<longrightarrow>
         (\<exists>ks vk. returns (run_key_init M eps) vs ks
           \<and> genuine G vs (card vs) vk (\<lambda>v. from_key_share M (ks v)))))"

text \<open>Resharing by all holders of a genuine sharing, and the newcomers, shares the same key anew.\<close>

definition honest_resharing ::
  "('sn, 'v, 'sh, 'ax, 'vk, 'ep, 'ks, 'sg) mpc \<Rightarrow> ('v, 'sh, 'ax, 'vk) dealing \<Rightarrow> bool" where
  "honest_resharing M G \<longleftrightarrow> (\<forall>old t vk f new t' eps.
     genuine G old t vk f \<and> finite new \<and> 0 < t' \<and> t' \<le> card new \<and> run_by M eps (old \<union> new)
     \<and> (\<forall>(s, ep) \<in> set eps. ep = resharing_new M
          (if signer_verifier M s \<in> old then Some (f (signer_verifier M s)) else None)
          (if signer_verifier M s \<in> new
           then Some \<lparr>nh_verifying_key = vk, nh_old_threshold = t, nh_old_holders = old\<rparr> else None)
          new t') \<longrightarrow>
     (\<exists>g. returns (run_resharing M eps) (old \<union> new) (\<lambda>v. if v \<in> new then Some (g v) else None)
       \<and> genuine G new t' vk g))"

definition honest_aux_gen ::
  "('sn, 'v, 'sh, 'ax, 'vk, 'ep, 'ks, 'sg) mpc \<Rightarrow> ('v, 'sh, 'ax, 'vk) dealing \<Rightarrow> bool" where
  "honest_aux_gen M G \<longleftrightarrow> (\<forall>vs. finite vs \<and> vs \<noteq> {} \<longrightarrow>
     (\<exists>ep. aux_gen_new M vs = Ok ep)
     \<and> (\<forall>eps. run_by M eps vs \<and> (\<forall>(s, ep) \<in> set eps. aux_gen_new M vs = Ok ep) \<longrightarrow>
         (\<exists>a. returns (run_aux_gen M eps) vs a \<and> genuine_aux G vs a)))"

definition honest_protocols ::
  "('sn, 'v, 'sh, 'ax, 'vk, 'ep, 'ks, 'sg) mpc \<Rightarrow> ('v, 'sh, 'ax, 'vk) dealing \<Rightarrow> bool" where
  "honest_protocols M G \<longleftrightarrow>
     honest_shares M G \<and> honest_key_init M G \<and> honest_resharing M G \<and> honest_aux_gen M G"

text \<open>
  A signature as \<open>k256\<close> and \<open>synedrion\<close> document it: 64 bytes that parse back, a recovery id of at
  most 3, a low \<open>s\<close>, and the verifying key is what recovers from it.
\<close>

definition good_signature ::
  "('sg, 'es, 'rid, 'sc, 'vk) ecdsa_backend \<Rightarrow> 'vk \<Rightarrow> bytes \<Rightarrow> 'es \<times> 'rid \<Rightarrow> bool" where
  "good_signature E vk digest x \<longleftrightarrow>
     (let es = fst x; rid = snd x in
       length (es_to_bytes E es) = 64 \<and> es_from_bytes E (es_to_bytes E es) = Some es
       \<and> unat (recovery_id_to_byte E rid) \<le> 3
       \<and> recovery_id_try_from E (recovery_id_to_byte E rid) = Some rid
       \<and> recover_from_prehash E digest es rid = Some vk
       \<and> bytes_le (take 32 (drop 32 (es_to_bytes E es))) HALF_N)"

text \<open>Signing by exactly a threshold of the holders gives them all one good signature.\<close>

definition honest_signing ::
  "('sn, 'v, 'sh, 'ax, 'vk, 'ep, 'ks, 'sg) mpc \<Rightarrow> ('v, 'sh, 'ax, 'vk) dealing
     \<Rightarrow> ('sg, 'es, 'rid, 'sc, 'vk) ecdsa_backend \<Rightarrow> bool" where
  "honest_signing M G E \<longleftrightarrow> (\<forall>vs t vk f a S digest.
     genuine G vs t vk f \<and> genuine_aux G vs a \<and> S \<subseteq> vs \<and> card S = t \<and> length digest = 32 \<longrightarrow>
     (\<exists>ks ax ep.
       (\<forall>v \<in> S. to_key_share M (f v) S = Ok (ks v) \<and> aux_subset M (a v) S = Ok (ax v)
          \<and> signing_new M digest (ks v) (ax v) = Ok (ep v))
       \<and> (\<forall>eps. run_by M eps S \<and> (\<forall>(s, e) \<in> set eps. e = ep (signer_verifier M s)) \<longrightarrow>
            (\<exists>sg es. returns (run_signing M eps) S sg
              \<and> (\<forall>v \<in> S. fst (to_backend E (sg v)) = es \<and> good_signature E vk digest (to_backend E (sg v)))))))"

section \<open>Material that can go on\<close>

text \<open>
  Well-formed material of distinct parties that hold the shares of one genuine sharing of the
  group key and its auxiliary data.
\<close>

definition material_live ::
  "('sn, 'v, 'sh, 'ax, 'vk, 'ep, 'ks, 'sg) mpc \<Rightarrow> ('v, 'sh, 'ax, 'vk) dealing
     \<Rightarrow> ('sn, 'v, 'sh, 'ax, 'vk) key_material \<Rightarrow> bool" where
  "material_live M G m \<longleftrightarrow>
     length (m_participants m) = m_total m
     \<and> map p_index (m_participants m) = map word_of_nat [0..<m_total m]
     \<and> g_ethereum_address (m_group_key m)
         = ethereum_address_from_verifying_key M (g_verifying_key (m_group_key m))
     \<and> distinct (map p_verifier (m_participants m))
     \<and> list_all (\<lambda>p. p_verifier p = signer_verifier M (p_signer p)) (m_participants m)
     \<and> (\<exists>f a. genuine G (set (map p_verifier (m_participants m))) (m_threshold m)
            (g_verifying_key (m_group_key m)) f
          \<and> genuine_aux G (set (map p_verifier (m_participants m))) a
          \<and> list_all (\<lambda>p. p_share p = f (p_verifier p) \<and> p_aux p = a (p_verifier p)) (m_participants m))"

lemma collect_res_map: "collect_res f (map h xs) = collect_res (\<lambda>x. f (h x)) xs"
  by (induction xs) auto

lemma map_of_returns [simp]: "v \<in> set vl \<Longrightarrow> map_of (map (\<lambda>v. (v, f v)) vl) v = Some (f v)"
  by (induction vl) auto

lemma genuine_facts:
  assumes "honest_protocols M G" and "genuine G vs t vk f"
  shows "finite vs" "0 < t" "t \<le> card vs" "v \<in> vs \<Longrightarrow> share_verifying_key M (f v) = Ok vk"
    "v \<in> vs \<Longrightarrow> share_threshold M (f v) = t"
  using assms unfolding honest_protocols_def honest_shares_def by blast+

lemma material_live_wf:
  assumes "honest_protocols M G" and "material_live M G m"
  shows "material_wf M m"
proof -
  let ?vs = "map p_verifier (m_participants m)" and ?vk = "g_verifying_key (m_group_key m)"
  from assms(2) obtain f a where g: "genuine G (set ?vs) (m_threshold m) ?vk f"
      and sh: "list_all (\<lambda>p. p_share p = f (p_verifier p) \<and> p_aux p = a (p_verifier p)) (m_participants m)"
      and m: "length (m_participants m) = m_total m" "distinct ?vs"
        "map p_index (m_participants m) = map word_of_nat [0..<m_total m]"
        "g_ethereum_address (m_group_key m) = ethereum_address_from_verifying_key M ?vk"
    by (auto simp: material_live_def)
  have "card (set ?vs) = m_total m" unfolding distinct_card [OF m(2)] using m(1) by simp
  then show ?thesis
    using genuine_facts [OF assms(1) g] m sh by (auto simp: material_wf_def list_all_iff)
qed

lemma assemble_complete:
  assumes "\<And>i s v. (i, s, v) \<in> set who \<Longrightarrow> map_of shares v = Some (f v) \<and> map_of auxs v = Some (a v)"
  shows "assemble who shares auxs
    = Ok (map (\<lambda>(i, s, v). \<lparr>p_index = i, p_signer = s, p_verifier = v, p_share = f v, p_aux = a v\<rparr>) who)"
  unfolding assemble_def
proof (rule collect_res_all_Ok)
  fix x assume "x \<in> set who"
  with assms show "(case x of (i, s, v) \<Rightarrow>
       res_bind (unwrap (map_of shares v)) (\<lambda>sh.
         res_bind (unwrap (map_of auxs v)) (\<lambda>ax.
           Ok \<lparr>p_index = i, p_signer = s, p_verifier = v, p_share = sh, p_aux = ax\<rparr>)))
    = Ok ((\<lambda>(i, s, v). \<lparr>p_index = i, p_signer = s, p_verifier = v, p_share = f v, p_aux = a v\<rparr>) x)"
    by (cases x) (simp del: res_bind_Ok_iff)
qed

lemma aux_gen_complete:
  assumes "honest_protocols M G" and "signers \<noteq> []" and "distinct (map (signer_verifier M) signers)"
    and "vs = set (map (signer_verifier M) signers)"
  obtains auxs a where "aux_gen_for err M vs signers = Ok auxs" "genuine_aux G vs a"
    "\<And>v. v \<in> vs \<Longrightarrow> map_of auxs v = Some (a v)"
proof -
  have h: "honest_aux_gen M G" using assms(1) by (simp add: honest_protocols_def)
  have vs: "finite vs" "vs \<noteq> {}" using assms(2,4) by auto
  with h obtain ep where ep: "aux_gen_new M vs = Ok ep" unfolding honest_aux_gen_def by blast
  let ?eps = "map (\<lambda>s. (s, ep)) signers"
  have eps: "collect_res (\<lambda>s. res_bind (map_err (\<lambda>e. err (''AuxGen new: '' @ e)) (aux_gen_new M vs))
      (\<lambda>ep. Ok (s, ep))) signers = Ok ?eps"
    by (rule collect_res_all_Ok) (simp add: ep)
  have "run_by M ?eps vs" using assms(3,4) by (simp add: run_by_def comp_def)
  moreover have "\<forall>(s, e) \<in> set ?eps. aux_gen_new M vs = Ok e" using ep by auto
  ultimately obtain a where "returns (run_aux_gen M ?eps) vs a" and a: "genuine_aux G vs a"
    using h vs unfolding honest_aux_gen_def by blast
  then obtain vl where vl: "set vl = vs" "run_aux_gen M ?eps = Ok (Ok (map (\<lambda>v. (v, a v)) vl))"
    by (auto simp: returns_def)
  show thesis
  proof (rule that [OF _ a])
    show "aux_gen_for err M vs signers = Ok (map (\<lambda>v. (v, a v)) vl)"
      by (simp only: aux_gen_for_def eps res_bind.simps run_results_def vl map_err.simps)
    show "map_of (map (\<lambda>v. (v, a v)) vl) v = Some (a v)" if "v \<in> vs" for v using that vl(1) by simp
  qed
qed

lemma resharing_complete:
  assumes "honest_protocols M G" and "genuine G old t vk f" and "finite new" "0 < t'" "t' \<le> card new"
    and "run_by M eps (old \<union> new)"
    and "\<And>s ep. (s, ep) \<in> set eps \<Longrightarrow> ep = resharing_new M
          (if signer_verifier M s \<in> old then Some (f (signer_verifier M s)) else None)
          (if signer_verifier M s \<in> new
           then Some \<lparr>nh_verifying_key = vk, nh_old_threshold = t, nh_old_holders = old\<rparr> else None)
          new t'"
  obtains g vl where "distinct vl" "set vl = old \<union> new" "genuine G new t' vk g"
    "run_resharing M eps = Ok (Ok (map (\<lambda>v. (v, if v \<in> new then Some (g v) else None)) vl))"
proof -
  have "honest_resharing M G" using assms(1) by (simp add: honest_protocols_def)
  moreover have "\<forall>(s, ep) \<in> set eps. ep = resharing_new M
          (if signer_verifier M s \<in> old then Some (f (signer_verifier M s)) else None)
          (if signer_verifier M s \<in> new
           then Some \<lparr>nh_verifying_key = vk, nh_old_threshold = t, nh_old_holders = old\<rparr> else None)
          new t'" using assms(7) by blast
  ultimately show thesis
    using assms(2-6) that unfolding honest_resharing_def returns_def by blast
qed

section \<open>Refresh\<close>

lemma material_live_parties:
  assumes "honest_protocols M G" and "material_live M G m"
  shows "m_participants m \<noteq> []"
  using material_live_wf [OF assms] by (auto simp: material_wf_def)

lemma material_live_sharing:
  assumes "material_live M G m"
  obtains f a where "genuine G (set (map p_verifier (m_participants m))) (m_threshold m)
      (g_verifying_key (m_group_key m)) f" "genuine_aux G (set (map p_verifier (m_participants m))) a"
    "\<And>p. p \<in> set (m_participants m) \<Longrightarrow> p_share p = f (p_verifier p)"
    "\<And>p. p \<in> set (m_participants m) \<Longrightarrow> p_aux p = a (p_verifier p)"
  using assms unfolding material_live_def list_all_iff by blast

lemma material_live_signers:
  assumes "material_live M G m"
  shows "distinct (map p_verifier (m_participants m))"
    and "map (signer_verifier M) (map p_signer (m_participants m)) = map p_verifier (m_participants m)"
    and "p \<in> set (m_participants m) \<Longrightarrow> signer_verifier M (p_signer p) = p_verifier p"
  using assms by (auto simp: material_live_def list_all_iff)

text \<open>The first participant, whose share tells the old threshold.\<close>

lemma material_live_first:
  assumes h: "honest_protocols M G" and live: "material_live M G m"
  obtains p0 where "(case m_participants m of [] \<Rightarrow> Panic | p # ps \<Rightarrow> Ok p) = (Ok p0 :: (tss_error, _) res)"
    "p0 \<in> set (m_participants m)" "share_threshold M (p_share p0) = m_threshold m"
proof -
  obtain f a where g: "genuine G (set (map p_verifier (m_participants m))) (m_threshold m)
        (g_verifying_key (m_group_key m)) f"
      and sh: "\<And>p. p \<in> set (m_participants m) \<Longrightarrow> p_share p = f (p_verifier p)"
    using material_live_sharing [OF live] by metis
  obtain p0 rest where ps: "m_participants m = p0 # rest"
    using material_live_parties [OF h live] by (cases "m_participants m") auto
  then have "share_threshold M (p_share p0) = m_threshold m"
    using genuine_facts(5) [OF h g, of "p_verifier p0"] sh [of p0] by simp
  with ps show thesis by (intro that [of p0]) simp_all
qed

definition refresh_points ::
  "('sn, 'v, 'sh, 'ax, 'vk, 'ep, 'ks, 'sg) mpc \<Rightarrow> ('sn, 'v, 'sh, 'ax, 'vk) key_material
     \<Rightarrow> ('v, 'vk) new_holder \<Rightarrow> ('sn \<times> 'ep) list" where
  "refresh_points M m holder = map (\<lambda>p. (p_signer p, resharing_new M (Some (p_share p)) (Some holder)
     (set (map p_verifier (m_participants m))) (m_threshold m))) (m_participants m)"

lemma refresh_resharing:
  assumes h: "honest_protocols M G" and live: "material_live M G m" and vs: "vs = set (map p_verifier (m_participants m))"
    and holder: "holder = \<lparr>nh_verifying_key = g_verifying_key (m_group_key m),
      nh_old_threshold = m_threshold m, nh_old_holders = vs\<rparr>"
  obtains vl g where "distinct vl" "set vl = vs" "genuine G vs (m_threshold m) (g_verifying_key (m_group_key m)) g"
    "run_resharing M (refresh_points M m holder) = Ok (Ok (map (\<lambda>v. (v, if v \<in> vs then Some (g v) else None)) vl))"
proof -
  let ?ps = "m_participants m" and ?eps = "refresh_points M m holder"
  obtain f a where g: "genuine G vs (m_threshold m) (g_verifying_key (m_group_key m)) f"
      and sh: "\<And>p. p \<in> set ?ps \<Longrightarrow> p_share p = f (p_verifier p)"
    using material_live_sharing [OF live] vs by metis
  note live_signers = material_live_signers [OF live]
  have "map (signer_verifier M \<circ> fst) ?eps = map p_verifier ?ps"
    unfolding live_signers(2) [symmetric] by (simp add: refresh_points_def comp_def)
  then have by_all: "run_by M ?eps vs" unfolding run_by_def using live_signers(1) by (simp only: vs)
  show thesis
  proof (rule resharing_complete [OF h g genuine_facts(1-3) [OF h g], of ?eps, unfolded Un_absorb, OF by_all])
    fix s ep assume "(s, ep) \<in> set ?eps"
    then show "ep = resharing_new M
          (if signer_verifier M s \<in> vs then Some (f (signer_verifier M s)) else None)
          (if signer_verifier M s \<in> vs then Some \<lparr>nh_verifying_key = g_verifying_key (m_group_key m),
             nh_old_threshold = m_threshold m, nh_old_holders = vs\<rparr> else None) vs (m_threshold m)"
      using live_signers(3) sh by (auto simp: refresh_points_def holder vs)
  qed (rule that)
qed

text \<open>New auxiliary data for the parties of the material.\<close>

lemma same_parties_aux:
  assumes h: "honest_protocols M G" and live: "material_live M G m" and vs: "vs = set (map p_verifier (m_participants m))"
  obtains auxs b where "aux_gen_for err M vs (map p_signer (m_participants m)) = Ok auxs" "genuine_aux G vs b"
    "\<And>v. v \<in> vs \<Longrightarrow> map_of auxs v = Some (b v)"
proof (rule aux_gen_complete [OF h, of "map p_signer (m_participants m)" vs err])
  note live_signers = material_live_signers [OF live]
  show "map p_signer (m_participants m) \<noteq> []" using material_live_parties [OF h live] by simp
  show "distinct (map (signer_verifier M) (map p_signer (m_participants m)))"
    unfolding live_signers(2) by (rule live_signers(1))
  show "vs = set (map (signer_verifier M) (map p_signer (m_participants m)))"
    unfolding live_signers(2) by (rule vs)
qed (rule that)

text \<open>The participants after a refresh: the same seats with new shares and auxiliary data.\<close>

definition with_shares ::
  "('v \<Rightarrow> 'sh) \<Rightarrow> ('v \<Rightarrow> 'ax) \<Rightarrow> ('sn, 'v, 'sh, 'ax) participant list \<Rightarrow> ('sn, 'v, 'sh, 'ax) participant list" where
  "with_shares g b = map (\<lambda>p. p\<lparr>p_share := g (p_verifier p), p_aux := b (p_verifier p)\<rparr>)"

lemma material_live_with_shares:
  assumes "material_live M G m" and "genuine G (set (map p_verifier (m_participants m))) (m_threshold m)
      (g_verifying_key (m_group_key m)) g" "genuine_aux G (set (map p_verifier (m_participants m))) b"
  shows "material_live M G \<lparr>m_participants = with_shares g b (m_participants m),
    m_group_key = make_group_key M (g_verifying_key (m_group_key m)), m_threshold = m_threshold m, m_total = m_total m\<rparr>"
proof -
  have v: "map p_verifier (with_shares g b (m_participants m)) = map p_verifier (m_participants m)"
    by (simp add: with_shares_def)
  show ?thesis
    unfolding material_live_def key_material.simps v using assms
    by (auto simp: material_live_def make_group_key_def with_shares_def list_all_iff comp_def
        intro!: exI [of _ g] exI [of _ b])
qed

lemma refresh_complete:
  assumes h: "honest_protocols M G" and live: "material_live M G m"
  obtains new where "do_refresh_via_resharing M m = Ok new" "material_live M G new"
proof -
  let ?ps = "m_participants m" and ?vk = "g_verifying_key (m_group_key m)" and ?t = "m_threshold m"
  define vs where "vs = set (map p_verifier ?ps)"
  let ?holder = "\<lparr>nh_verifying_key = ?vk, nh_old_threshold = ?t, nh_old_holders = vs\<rparr>"
  obtain p0 where first: "(case ?ps of [] \<Rightarrow> Panic | p # ps \<Rightarrow> Ok p) = (Ok p0 :: (tss_error, _) res)"
      and p0: "p0 \<in> set ?ps" "share_threshold M (p_share p0) = ?t"
    by (rule material_live_first [OF h live])
  obtain vl g where vl: "distinct vl" "set vl = vs" and g: "genuine G vs ?t ?vk g"
      and run: "run_resharing M (refresh_points M m ?holder)
        = Ok (Ok (map (\<lambda>v. (v, if v \<in> vs then Some (g v) else None)) vl))"
    by (rule refresh_resharing [OF h live vs_def refl])
  obtain auxs b where aux: "aux_gen_for RefreshFailed M vs (map p_signer ?ps) = Ok auxs"
      and b: "genuine_aux G vs b" "\<And>v. v \<in> vs \<Longrightarrow> map_of auxs v = Some (b v)"
    by (rule same_parties_aux [OF h live vs_def, of RefreshFailed]) (rule that)
  note vk = genuine_facts(4) [OF h g]
  let ?new_shares = "map (\<lambda>v. (v, g v)) vl"
  have asm: "assemble (map (\<lambda>p. (p_index p, p_signer p, p_verifier p)) ?ps) ?new_shares auxs
      = Ok (with_shares g b ?ps)"
    using assemble_complete [of "map (\<lambda>p. (p_index p, p_signer p, p_verifier p)) ?ps" ?new_shares g auxs b] vl b(2)
    by (force simp: vs_def with_shares_def comp_def)
  have c1: "collect_res (\<lambda>(v, opt).
          res_bind (ok_or (RefreshFailed ''missing share for refresh'') opt) (\<lambda>ks. Ok (v, ks)))
          (map (\<lambda>v. (v, if v \<in> vs then Some (g v) else None)) vl) = Ok ?new_shares"
    unfolding collect_res_map by (rule collect_res_all_Ok) (simp add: vl del: res_bind_Ok_iff)
  have c2: "collect_res (\<lambda>(v, s). res_bind (map_err RefreshFailed (share_verifying_key M s)) (\<lambda>vk.
          if vk \<noteq> ?vk then Err (RefreshFailed (''VK mismatch for '' @ debug_verifier M v)) else Ok ()))
          ?new_shares = Ok (map (\<lambda>v. ()) ?new_shares)"
    by (rule collect_res_all_Ok) (auto simp: vk vl simp del: res_bind_Ok_iff map_err_Ok_iff)
  obtain v0 rest where v0: "vl = v0 # rest" "v0 \<in> vs" using vl p0(1) vs_def by (cases vl) auto
  have "do_refresh_via_resharing M m = Ok \<lparr>m_participants = with_shares g b ?ps,
      m_group_key = make_group_key M ?vk, m_threshold = ?t, m_total = m_total m\<rparr>"
    unfolding do_refresh_via_resharing_def Let_def first res_bind.simps(1) p0(2) vs_def [symmetric]
      refresh_points_def [of M m ?holder, folded vs_def, symmetric] run run_results_def map_err.simps c1
    using c2 vk [OF v0(2)] aux asm by (simp add: v0(1) del: res_bind_Ok_iff map_err_Ok_iff)
  then show thesis
    by (rule that) (rule material_live_with_shares [OF live g [unfolded vs_def] b(1) [unfolded vs_def]])
qed

section \<open>Rotation\<close>

lemma name_to_old_idx_bound: "name_to_old_idx n x = Some i \<Longrightarrow> i < n"
proof (induction n)
  case 0
  then show ?case by (simp add: name_to_old_idx_def)
next
  case (Suc n)
  then show ?case
    by (cases "participant_alias n") (auto simp: name_to_old_idx_Suc Let_def split: if_splits)
qed

lemma assign_signers_facts:
  assumes "material_live M G m" and "(s, v, fresh) \<in> set (assign_signers M (m_participants m) names)"
  shows "signer_verifier M s = v" and "\<not> fresh \<Longrightarrow> v \<in> set (map p_verifier (m_participants m))"
proof -
  from assms(2) obtain pos where pos: "assign_signer M (m_participants m) pos = (s, v, fresh)"
    by (auto simp: assign_signers_def)
  have "signer_verifier M s = v \<and> (\<not> fresh \<longrightarrow> v \<in> set (map p_verifier (m_participants m)))"
  proof (cases "name_to_old_idx (length (m_participants m)) (snd pos)")
    case None
    with pos show ?thesis by (auto simp: assign_signer_def Let_def)
  next
    case (Some i)
    then have "m_participants m ! i \<in> set (m_participants m)"
      using name_to_old_idx_bound by (intro nth_mem) blast
    with pos Some material_live_signers(3) [OF assms(1)] show ?thesis by (auto simp: assign_signer_def)
  qed
  then show "signer_verifier M s = v" "\<not> fresh \<Longrightarrow> v \<in> set (map p_verifier (m_participants m))" by blast+
qed

text \<open>The entry points of a rotation: every old party once, and the newcomers that are no old parties.\<close>

definition rotation_points ::
  "('sn, 'v, 'sh, 'ax, 'vk, 'ep, 'ks, 'sg) mpc \<Rightarrow> ('sn, 'v, 'sh, 'ax, 'vk) key_material
     \<Rightarrow> ('sn \<times> 'v \<times> bool) list \<Rightarrow> ('v, 'vk) new_holder \<Rightarrow> nat \<Rightarrow> ('sn \<times> 'ep) list" where
  "rotation_points M m assigned holder t =
     map (\<lambda>p. (p_signer p, resharing_new M (Some (p_share p))
         (if p_verifier p \<in> set (map (fst \<circ> snd) assigned) then Some holder else None)
         (set (map (fst \<circ> snd) assigned)) t)) (m_participants m)
     @ map (\<lambda>(s, v, fresh). (s, resharing_new M None (Some holder) (set (map (fst \<circ> snd) assigned)) t))
         (filter (\<lambda>(s, v, fresh). fresh \<and> v \<notin> set (map p_verifier (m_participants m))) assigned)"

lemma rotation_points_run_by:
  assumes live: "material_live M G m" and a: "assigned = assign_signers M (m_participants m) names"
    and d: "distinct (map (fst \<circ> snd) assigned)"
  shows "run_by M (rotation_points M m assigned holder t)
    (set (map p_verifier (m_participants m)) \<union> set (map (fst \<circ> snd) assigned))"
proof -
  let ?old = "set (map p_verifier (m_participants m))"
  let ?new = "filter (\<lambda>(s, v, fresh). fresh \<and> v \<notin> ?old) assigned"
  have v: "fst (snd x) = signer_verifier M (fst x)" "\<not> snd (snd x) \<Longrightarrow> fst (snd x) \<in> ?old"
    if "x \<in> set assigned" for x
  proof -
    have "(fst x, fst (snd x), snd (snd x)) \<in> set (assign_signers M (m_participants m) names)"
      using that by (simp add: a)
    from assign_signers_facts [OF live this]
    show "fst (snd x) = signer_verifier M (fst x)" "\<not> snd (snd x) \<Longrightarrow> fst (snd x) \<in> ?old" by simp_all
  qed
  have n: "map (signer_verifier M \<circ> fst) (map (\<lambda>(s, v, fresh). (s, f)) ?new) = map (fst \<circ> snd) ?new" for f
    by (auto simp: a comp_def dest: assign_signers_facts(1) [OF live])
  have e: "map (signer_verifier M \<circ> fst) (rotation_points M m assigned holder t)
      = map p_verifier (m_participants m) @ map (fst \<circ> snd) ?new"
    unfolding rotation_points_def map_append n using material_live_signers(2) [OF live] by (simp add: comp_def)
  have dn: "distinct (map (fst \<circ> snd) ?new)" using d by (rule distinct_map_filter)
  have "v \<in> ?old \<or> v \<in> set (map (fst \<circ> snd) ?new)" if m: "v \<in> set (map (fst \<circ> snd) assigned)" for v
  proof -
    from m obtain x where x: "x \<in> set assigned" "v = fst (snd x)" by auto
    show ?thesis
    proof (cases "v \<in> ?old")
      case False
      with x(1,2) v(2) [OF x(1)] have "x \<in> set ?new" by (auto simp: case_prod_beta)
      with x(2) show ?thesis by simp
    qed simp
  qed
  moreover have "set (map (fst \<circ> snd) ?new) \<subseteq> set (map (fst \<circ> snd) assigned)" by auto
  ultimately have "?old \<union> set (map (fst \<circ> snd) ?new) = ?old \<union> set (map (fst \<circ> snd) assigned)" by blast
  moreover have "?old \<inter> set (map (fst \<circ> snd) ?new) = {}" by auto
  ultimately show ?thesis
    unfolding run_by_def e using material_live_signers(1) [OF live] dn by (simp only: distinct_append set_append simp_thms)
qed

lemma foldl_bt_insert:
  "map_of (foldl (\<lambda>m (v, s). bt_insert v s m) m0 (map (\<lambda>v. (v, g v)) vs)) v
     = (if v \<in> set vs then Some (g v) else map_of m0 v)"
  by (induction vs arbitrary: m0) auto

lemma collect_new_shares_complete:
  assumes "\<And>v. v \<in> set vs \<Longrightarrow> reshared v = Some (Some (g v))" and "vs \<noteq> []"
  obtains v0 rest where "collect_new_shares M vs reshared = Ok ((v0, g v0) # rest)" "v0 \<in> set vs"
    "\<And>v. v \<in> set vs \<Longrightarrow> map_of ((v0, g v0) # rest) v = Some (g v)"
proof -
  let ?shares = "foldl (\<lambda>m (v, s). bt_insert v s m) [] (map (\<lambda>v. (v, g v)) vs)"
  have "collect_res (\<lambda>v.
          res_bind (ok_or (RotationFailed (''missing resharing result for verifier '' @ debug_verifier M v))
              (reshared v)) (\<lambda>opt.
          res_bind (ok_or (RotationFailed (''expected Some share for new holder '' @ debug_verifier M v))
              opt) (\<lambda>share. Ok (v, share)))) vs = Ok (map (\<lambda>v. (v, g v)) vs)"
    by (rule collect_res_all_Ok) (simp add: assms(1) del: res_bind_Ok_iff)
  then have c: "collect_new_shares M vs reshared = Ok ?shares" by (simp add: collect_new_shares_def)
  obtain v0 s rest where sh: "?shares = (v0, s) # rest"
  proof (cases "?shares")
    case Nil
    then show thesis using foldl_bt_insert [of "[]" g vs "hd vs"] assms(2) by simp
  qed (metis that surj_pair)
  moreover have "v0 \<in> set vs \<and> s = g v0"
    using foldl_bt_insert [of "[]" g vs v0] by (auto simp: sh split: if_splits)
  ultimately show thesis using c foldl_bt_insert [of "[]" g vs] by (intro that [of v0 rest]) auto
qed

text \<open>What \<open>rotation_finish\<close> makes of an honest resharing.\<close>

lemma rotation_finish_complete:
  assumes h: "honest_protocols M G" and g: "genuine G (set vs) t vk g" and vs: "vs = map (fst \<circ> snd) assigned"
    and reshared: "\<And>v. v \<in> set vs \<Longrightarrow> map_of reshared v = Some (Some (g v))"
    and d: "distinct vs" and sv: "map (signer_verifier M) (map fst assigned) = vs"
  obtains b where "genuine_aux G (set vs) b" "rotation_finish M vk assigned t reshared
    = Ok \<lparr>m_participants = map (\<lambda>(i, s, v, fresh). \<lparr>p_index = word_of_nat i, p_signer = s, p_verifier = v,
            p_share = g v, p_aux = b v\<rparr>) (enumerate 0 assigned),
          m_group_key = make_group_key M vk, m_threshold = t, m_total = length assigned\<rparr>"
proof -
  note facts = genuine_facts [OF h g]
  have ne: "vs \<noteq> []" using facts(2,3) by auto
  obtain v0 rest where c: "collect_new_shares M vs (map_of reshared) = Ok ((v0, g v0) # rest)"
      and v0: "v0 \<in> set vs" and shares: "\<And>v. v \<in> set vs \<Longrightarrow> map_of ((v0, g v0) # rest) v = Some (g v)"
    by (rule collect_new_shares_complete [where M = M and vs = vs and reshared = "map_of reshared" and g = g])
      (use reshared ne in auto)
  obtain auxs b where aux: "aux_gen_for RotationFailed M (set vs) (map fst assigned) = Ok auxs"
      and b: "genuine_aux G (set vs) b" "\<And>v. v \<in> set vs \<Longrightarrow> map_of auxs v = Some (b v)"
  proof (rule aux_gen_complete [OF h, of "map fst assigned" "set vs" RotationFailed])
    show "map fst assigned \<noteq> []" using ne vs by simp
    show "distinct (map (signer_verifier M) (map fst assigned))" unfolding sv by (rule d)
    show "set vs = set (map (signer_verifier M) (map fst assigned))" unfolding sv ..
  qed (rule that)
  let ?who = "map (\<lambda>(idx, s, v, fresh). (word_of_nat idx, s, v)) (enumerate 0 assigned)"
  have "v \<in> set vs" if "(i, s, v) \<in> set ?who" for i s v
    using that unfolding vs by (auto simp: enumerate_eq_zip dest!: set_zip_rightD intro!: rev_image_eqI)
  then have "assemble ?who ((v0, g v0) # rest) auxs = Ok (map (\<lambda>(i, s, v).
      \<lparr>p_index = i, p_signer = s, p_verifier = v, p_share = g v, p_aux = b v\<rparr>) ?who)"
    using shares b(2) by (intro assemble_complete conjI) blast+
  moreover have "map (\<lambda>(i, s, v). \<lparr>p_index = i, p_signer = s, p_verifier = v, p_share = g v, p_aux = b v\<rparr>) ?who
      = map (\<lambda>(i, s, v, fresh). \<lparr>p_index = word_of_nat i, p_signer = s, p_verifier = v,
            p_share = g v, p_aux = b v\<rparr>) (enumerate 0 assigned)" by auto
  ultimately show thesis
    using facts(4) [OF v0] aux
    by (intro that [OF b(1)])
      (simp add: rotation_finish_def Let_def vs [symmetric] c del: res_bind_Ok_iff map_err_Ok_iff)
qed

lemma material_live_enumerate:
  assumes "vs = map (fst \<circ> snd) assigned" and "genuine G (set vs) t vk g" and "genuine_aux G (set vs) b"
    and "distinct vs" and "map (signer_verifier M) (map fst assigned) = vs"
  shows "material_live M G \<lparr>m_participants = map (\<lambda>(i, s, v, fresh). \<lparr>p_index = word_of_nat i, p_signer = s,
        p_verifier = v, p_share = g v, p_aux = b v\<rparr>) (enumerate 0 assigned),
      m_group_key = make_group_key M vk, m_threshold = t, m_total = length assigned\<rparr>"
proof -
  let ?ps = "map (\<lambda>(i, s, v, fresh). \<lparr>p_index = word_of_nat i, p_signer = s,
        p_verifier = v, p_share = g v, p_aux = b v\<rparr>) (enumerate 0 assigned)"
  have "map p_verifier ?ps = map (fst \<circ> snd) (map snd (enumerate 0 assigned))"
    unfolding map_map by (auto simp: comp_def)
  also have "\<dots> = vs" unfolding map_snd_enumerate assms(1) ..
  finally have v: "map p_verifier ?ps = vs" .
  have "map p_index ?ps = map word_of_nat (map fst (enumerate 0 assigned))"
    unfolding map_map by (auto simp: comp_def)
  then have i: "map p_index ?ps = map word_of_nat [0..<length assigned]" unfolding map_fst_enumerate by simp
  have "fst (snd (snd x)) = signer_verifier M (fst (snd x))"
    if "x \<in> set (enumerate 0 assigned)" for x
  proof -
    have "snd x \<in> set assigned" using that by (metis image_eqI list.set_map map_snd_enumerate)
    with assms(1,5) show ?thesis by auto
  qed
  then have s: "list_all (\<lambda>p. p_verifier p = signer_verifier M (p_signer p)) ?ps"
    by (auto simp: list_all_iff)
  show ?thesis
    unfolding material_live_def key_material.simps v i
    using assms(2-4) s by (auto simp: make_group_key_def list_all_iff intro!: exI [of _ g] exI [of _ b])
qed

lemma rotation_point_cases:
  assumes "(s, ep) \<in> set (rotation_points M m assigned holder t)"
    and "vs = map (fst \<circ> snd) assigned" and "old = set (map p_verifier (m_participants m))"
  obtains p where "p \<in> set (m_participants m)" "s = p_signer p" "ep = resharing_new M (Some (p_share p))
      (if p_verifier p \<in> set vs then Some holder else None) (set vs) t"
  | v where "(s, v, True) \<in> set assigned" "v \<notin> old" "ep = resharing_new M None (Some holder) (set vs) t"
  using assms unfolding rotation_points_def by auto

lemma rotation_resharing:
  assumes h: "honest_protocols M G" and live: "material_live M G m"
    and a: "assigned = assign_signers M (m_participants m) names" and vs: "vs = map (fst \<circ> snd) assigned"
    and old: "old = set (map p_verifier (m_participants m))"
    and d: "distinct vs" and t: "0 < t" "t \<le> card (set vs)"
    and holder: "holder = \<lparr>nh_verifying_key = g_verifying_key (m_group_key m),
      nh_old_threshold = m_threshold m, nh_old_holders = old\<rparr>"
  obtains vl g where "set vl = old \<union> set vs" "genuine G (set vs) t (g_verifying_key (m_group_key m)) g"
    "run_resharing M (rotation_points M m assigned holder t)
      = Ok (Ok (map (\<lambda>v. (v, if v \<in> set vs then Some (g v) else None)) vl))"
proof -
  obtain f b where g: "genuine G old (m_threshold m) (g_verifying_key (m_group_key m)) f"
      and sh: "\<And>p. p \<in> set (m_participants m) \<Longrightarrow> p_share p = f (p_verifier p)"
    using material_live_sharing [OF live] old by metis
  have by_all: "run_by M (rotation_points M m assigned holder t) (old \<union> set vs)"
    unfolding old vs by (rule rotation_points_run_by [OF live a]) (use d in \<open>simp only: vs\<close>)
  show thesis
  proof (rule resharing_complete [OF h g finite_set t by_all])
    fix s ep assume "(s, ep) \<in> set (rotation_points M m assigned holder t)"
    then show "ep = resharing_new M
          (if signer_verifier M s \<in> old then Some (f (signer_verifier M s)) else None)
          (if signer_verifier M s \<in> set vs then Some \<lparr>nh_verifying_key = g_verifying_key (m_group_key m),
             nh_old_threshold = m_threshold m, nh_old_holders = old\<rparr> else None) (set vs) t"
    proof (rule rotation_point_cases)
      fix p assume p: "p \<in> set (m_participants m)" "s = p_signer p" "ep = resharing_new M (Some (p_share p))
          (if p_verifier p \<in> set vs then Some holder else None) (set vs) t"
      have "signer_verifier M s = p_verifier p" "p_verifier p \<in> old" "p_share p = f (p_verifier p)"
        using material_live_signers(3) [OF live p(1)] sh [OF p(1)] p(1,2) by (simp_all add: old)
      with p(3) show ?thesis by (simp add: holder)
    next
      fix v assume v: "(s, v, True) \<in> set assigned" "v \<notin> old" "ep = resharing_new M None (Some holder) (set vs) t"
      have "signer_verifier M s = v" using assign_signers_facts(1) [OF live] v(1) by (simp add: a)
      moreover have "v \<in> set vs" using v(1) by (force simp: vs)
      ultimately show ?thesis using v(2,3) by (simp add: holder)
    qed (simp_all add: vs old)
  qed (rule that)
qed

lemma rotation_complete:
  assumes h: "honest_protocols M G" and live: "material_live M G m"
    and d: "distinct (map (fst \<circ> snd) (assign_signers M (m_participants m) names))"
    and t: "0 < t" "t \<le> length names"
  obtains new where "do_rotation_via_resharing M m names t = Ok new" "material_live M G new"
proof -
  let ?ps = "m_participants m" and ?vk = "g_verifying_key (m_group_key m)"
  define assigned where "assigned = assign_signers M ?ps names"
  define vs where "vs = map (fst \<circ> snd) assigned"
  define old where "old = set (map p_verifier ?ps)"
  let ?holder = "\<lparr>nh_verifying_key = ?vk, nh_old_threshold = m_threshold m, nh_old_holders = old\<rparr>"
  have dvs: "distinct vs" using d by (simp only: vs_def assigned_def)
  have t': "t \<le> card (set vs)" using t distinct_card [OF dvs] by (simp add: vs_def assigned_def)
  obtain p0 where first: "(case ?ps of [] \<Rightarrow> Panic | p # ps \<Rightarrow> Ok p) = (Ok p0 :: (tss_error, _) res)"
      and t0: "share_threshold M (p_share p0) = m_threshold m"
    by (rule material_live_first [OF h live])
  obtain vl g where vl: "set vl = old \<union> set vs" and g: "genuine G (set vs) t ?vk g"
      and run: "run_resharing M (rotation_points M m assigned ?holder t)
        = Ok (Ok (map (\<lambda>v. (v, if v \<in> set vs then Some (g v) else None)) vl))"
    by (rule rotation_resharing [OF h live assigned_def vs_def old_def dvs t(1) t' refl])
  have sv: "map (signer_verifier M) (map fst assigned) = vs"
    using assign_signers_facts(1) [OF live] by (fastforce simp: vs_def assigned_def)
  have reshared: "map_of (map (\<lambda>v. (v, if v \<in> set vs then Some (g v) else None)) vl) v = Some (Some (g v))"
    if "v \<in> set vs" for v using that vl by simp
  obtain b where b: "genuine_aux G (set vs) b" and fin: "rotation_finish M ?vk assigned t
      (map (\<lambda>v. (v, if v \<in> set vs then Some (g v) else None)) vl)
    = Ok \<lparr>m_participants = map (\<lambda>(i, s, v, fresh). \<lparr>p_index = word_of_nat i, p_signer = s, p_verifier = v,
            p_share = g v, p_aux = b v\<rparr>) (enumerate 0 assigned),
          m_group_key = make_group_key M ?vk, m_threshold = t, m_total = length assigned\<rparr>" (is "_ = Ok ?new")
    using rotation_finish_complete [OF h g vs_def reshared dvs sv] by blast
  have "do_rotation_via_resharing M m names t = res_bind (run_results (\<lambda>e. RotationFailed (''KeyResharing run_sync: '' @ e))
          (\<lambda>e. RotationFailed (''results: '' @ e)) (run_resharing M (rotation_points M m assigned ?holder t)))
        (rotation_finish M ?vk assigned t)"
    unfolding do_rotation_via_resharing_def Let_def first res_bind.simps(1) t0 assigned_def old_def
      rotation_points_def
    using t by (auto simp del: res_bind_Ok_iff)
  also have "\<dots> = Ok ?new" by (simp add: run run_results_def fin del: res_bind_Ok_iff)
  finally have "do_rotation_via_resharing M m names t = Ok ?new" .
  moreover have "material_live M G ?new"
    by (rule material_live_enumerate [OF _ g b]) (use vs_def dvs sv in auto)
  ultimately show thesis by (rule that)
qed

section \<open>Key generation\<close>

lemma key_init_complete:
  assumes "honest_protocols M G" and "finite vs" "vs \<noteq> {}" and "map (signer_verifier M) signers = vl0"
    and "distinct vl0" "set vl0 = vs"
  obtains ep vl ks vk where "key_init_new M vs = Ok ep" "set vl = vs"
    "run_key_init M (map (\<lambda>s. (s, ep)) signers) = Ok (Ok (map (\<lambda>v. (v, ks v)) vl))"
    "genuine G vs (card vs) vk (\<lambda>v. from_key_share M (ks v))"
proof -
  have h: "honest_key_init M G" using assms(1) by (simp add: honest_protocols_def)
  with assms(2,3) obtain ep where ep: "key_init_new M vs = Ok ep" unfolding honest_key_init_def by blast
  let ?eps = "map (\<lambda>s. (s, ep)) signers"
  have "run_by M ?eps vs" using assms(4-6) by (simp add: run_by_def comp_def)
  moreover have "\<forall>(s, e) \<in> set ?eps. key_init_new M vs = Ok e" using ep by auto
  ultimately obtain ks vk where "returns (run_key_init M ?eps) vs ks"
      "genuine G vs (card vs) vk (\<lambda>v. from_key_share M (ks v))"
    using h assms(2,3) unfolding honest_key_init_def by blast
  with ep that show thesis unfolding returns_def by blast
qed

text \<open>The resharing of a set-up: two holders of a 2-of-2 sharing deal to three.\<close>

definition setup_points ::
  "('sn, 'v, 'sh, 'ax, 'vk, 'ep, 'ks, 'sg) mpc \<Rightarrow> ('v \<Rightarrow> 'sh) \<Rightarrow> 'vk \<Rightarrow> 'sn \<Rightarrow> 'sn \<Rightarrow> 'sn \<Rightarrow> ('sn \<times> 'ep) list" where
  "setup_points M f vk s0 s1 s2 =
     (let v = signer_verifier M;
          holder = Some \<lparr>nh_verifying_key = vk, nh_old_threshold = 2, nh_old_holders = {v s0, v s1}\<rparr>;
          point = (\<lambda>s sh. (s, resharing_new M sh holder {v s0, v s1, v s2} 2))
      in [point s0 (Some (f (v s0))), point s1 (Some (f (v s1))), point s2 None])"

lemma setup_resharing:
  assumes h: "honest_protocols M G" and v: "v0 = signer_verifier M s0" "v1 = signer_verifier M s1" "v2 = signer_verifier M s2"
    and dist: "v0 \<noteq> v1" "v0 \<noteq> v2" "v1 \<noteq> v2" and g: "genuine G {v0, v1} 2 vk f"
  obtains vl g where "set vl = {v0, v1, v2}" "genuine G {v0, v1, v2} 2 vk g"
    "run_resharing M (setup_points M f vk s0 s1 s2)
      = Ok (Ok (map (\<lambda>v. (v, if v \<in> {v0, v1, v2} then Some (g v) else None)) vl))"
proof (rule resharing_complete [OF h g, of "{v0, v1, v2}" 2 "setup_points M f vk s0 s1 s2"])
  show "run_by M (setup_points M f vk s0 s1 s2) ({v0, v1} \<union> {v0, v1, v2})"
    using dist by (auto simp: run_by_def setup_points_def Let_def v)
  show "2 \<le> card {v0, v1, v2}" using dist by simp
next
  fix s e assume "(s, e) \<in> set (setup_points M f vk s0 s1 s2)"
  then show "e = resharing_new M
      (if signer_verifier M s \<in> {v0, v1} then Some (f (signer_verifier M s)) else None)
      (if signer_verifier M s \<in> {v0, v1, v2} then Some \<lparr>nh_verifying_key = vk, nh_old_threshold = 2,
         nh_old_holders = {v0, v1}\<rparr> else None) {v0, v1, v2} 2"
    using dist by (auto simp: setup_points_def Let_def v)
qed (auto intro: that)

lemma setup_evaluates:
  assumes ms: "make_signers M 3 = ([s0, s1, s2], [v0, v1, v2])"
    and v: "v0 = signer_verifier M s0" "v1 = signer_verifier M s1" "v2 = signer_verifier M s2"
    and init: "key_init_new M {v0, v1} = Ok ep"
      "run_key_init M [(s0, ep), (s1, ep)] = Ok (Ok (map (\<lambda>v. (v, ks v)) vl))" "set vl = {v0, v1}"
    and first: "share_verifying_key M (from_key_share M (ks v0)) = Ok vk" "share_threshold M (from_key_share M (ks v0)) = 2"
    and run: "run_resharing M (setup_points M (\<lambda>v. from_key_share M (ks v)) vk s0 s1 s2)
      = Ok (Ok (map (\<lambda>v. (v, if v \<in> {v0, v1, v2} then Some (g v) else None)) vl'))" "set vl' = {v0, v1, v2}"
    and vk: "\<And>v. v \<in> {v0, v1, v2} \<Longrightarrow> share_verifying_key M (g v) = Ok vk"
    and aux: "aux_gen_for DkgFailed M {v0, v1, v2} [s0, s1, s2] = Ok auxs"
      "\<And>v. v \<in> {v0, v1, v2} \<Longrightarrow> map_of auxs v = Some (b v)"
  shows "setup_2of3 M = Ok \<lparr>m_participants = map (\<lambda>(i, s, v, fresh). \<lparr>p_index = word_of_nat i, p_signer = s,
        p_verifier = v, p_share = g v, p_aux = b v\<rparr>) (enumerate 0 [(s0, v0, True), (s1, v1, True), (s2, v2, True)]),
      m_group_key = make_group_key M vk, m_threshold = 2, m_total = 3\<rparr>"
proof -
  let ?new_shares = "map (\<lambda>v. (v, g v)) vl'" and ?all = "{v0, v1, v2}"
  let ?who = "map (\<lambda>idx. (word_of_nat idx, [s0, s1, s2] ! idx, [v0, v1, v2] ! idx)) [0..<3]"
  have in_all: "v0 \<in> ?all" "v1 \<in> ?all" "v2 \<in> ?all" by simp_all
  have shares: "map_of ?new_shares v = Some (g v)" if "v \<in> ?all" for v using that run(2) by simp
  have who: "v \<in> ?all" if "(i, s, v) \<in> set ?who" for i s v using that by (auto simp: upt_rec)
  have asm: "assemble ?who ?new_shares auxs = Ok (map (\<lambda>(i, s, v).
      \<lparr>p_index = i, p_signer = s, p_verifier = v, p_share = g v, p_aux = b v\<rparr>) ?who)"
    by (rule assemble_complete) (blast dest: who intro: shares aux(2))
  have c1: "collect_res (\<lambda>(v, opt). res_bind (unwrap opt) (\<lambda>ks. Ok (v, ks)))
      (map (\<lambda>v. (v, if v \<in> ?all then Some (g v) else None)) vl') = (Ok ?new_shares :: (tss_error, _) res)"
    unfolding collect_res_map using run(2) by (intro collect_res_all_Ok) (auto simp del: res_bind_Ok_iff)
  have lists: "take 2 [x, y, z] = [x, y]" "[0..<2] = [0, Suc 0]" "[2..<3] = [2 :: nat]" for x y z :: 'c
    by (simp_all add: upt_rec numeral_2_eq_2)
  have keys: "map_of (map (\<lambda>x. (x, from_key_share M (ks x))) vl) v0 = Some (from_key_share M (ks v0))"
      "map_of (map (\<lambda>x. (x, from_key_share M (ks x))) vl) v1 = Some (from_key_share M (ks v1))"
    using init(3) by simp_all
  note at = shares [OF in_all(1)] shares [OF in_all(2)] shares [OF in_all(3)]
      vk [OF in_all(1)] vk [OF in_all(2)] vk [OF in_all(3)]
  show ?thesis
    unfolding setup_2of3_def Let_def ms prod.case
    by (simp add: init(1,2) run(1) [unfolded setup_points_def Let_def, folded v] c1 first keys lists at aux(1)
        asm run_results_def comp_def del: res_bind_Ok_iff map_err_Ok_iff insert_iff)
      (simp add: enumerate_eq_zip upt_rec)
qed

lemma setup_complete:
  assumes h: "honest_protocols M G"
    and d: "distinct (map (\<lambda>i. signer_verifier M (signer_new M i)) [0, 1, 2])"
  obtains m where "setup_2of3 M = Ok m" "material_live M G m"
proof -
  define s0 s1 s2 where "s0 = signer_new M 0" and "s1 = signer_new M 1" and "s2 = signer_new M 2"
  define v0 v1 v2 where v: "v0 = signer_verifier M s0" "v1 = signer_verifier M s1" "v2 = signer_verifier M s2"
  have ms: "make_signers M 3 = ([s0, s1, s2], [v0, v1, v2])"
    by (simp add: make_signers_def Let_def upt_rec v s0_def s1_def s2_def)
  have dist: "v0 \<noteq> v1" "v0 \<noteq> v2" "v1 \<noteq> v2" using d by (simp_all add: v s0_def s1_def s2_def)
  obtain ep vl ks vk where init: "key_init_new M {v0, v1} = Ok ep" "set vl = {v0, v1}"
      "run_key_init M (map (\<lambda>s. (s, ep)) [s0, s1]) = Ok (Ok (map (\<lambda>v. (v, ks v)) vl))"
      and g: "genuine G {v0, v1} (card {v0, v1}) vk (\<lambda>v. from_key_share M (ks v))"
    by (rule key_init_complete [OF h, of "{v0, v1}" "[s0, s1]" "[v0, v1]"]) (use dist v in auto)
  have two: "card {v0, v1} = 2" using dist(1) by simp
  obtain vl' g' where vl': "set vl' = {v0, v1, v2}" and g': "genuine G {v0, v1, v2} 2 vk g'"
      and run: "run_resharing M (setup_points M (\<lambda>v. from_key_share M (ks v)) vk s0 s1 s2)
        = Ok (Ok (map (\<lambda>v. (v, if v \<in> {v0, v1, v2} then Some (g' v) else None)) vl'))"
    by (rule setup_resharing [OF h v dist g [unfolded two]])
  obtain auxs b where aux: "aux_gen_for DkgFailed M {v0, v1, v2} [s0, s1, s2] = Ok auxs"
      "\<And>v. v \<in> {v0, v1, v2} \<Longrightarrow> map_of auxs v = Some (b v)" and b: "genuine_aux G {v0, v1, v2} b"
    by (rule aux_gen_complete [OF h, of "[s0, s1, s2]" "{v0, v1, v2}" DkgFailed]) (use dist v in auto)
  let ?assigned = "[(s0, v0, True), (s1, v1, True), (s2, v2, True)]"
  have init': "run_key_init M [(s0, ep), (s1, ep)] = Ok (Ok (map (\<lambda>v. (v, ks v)) vl))" using init(3) by simp
  have first: "share_verifying_key M (from_key_share M (ks v0)) = Ok vk"
      "share_threshold M (from_key_share M (ks v0)) = 2"
    using genuine_facts(4,5) [OF h g [unfolded two], of v0] by simp_all
  show thesis
  proof (rule that)
    show "setup_2of3 M = Ok \<lparr>m_participants = map (\<lambda>(i, s, v, fresh). \<lparr>p_index = word_of_nat i, p_signer = s,
          p_verifier = v, p_share = g' v, p_aux = b v\<rparr>) (enumerate 0 ?assigned),
        m_group_key = make_group_key M vk, m_threshold = 2, m_total = 3\<rparr>"
      by (rule setup_evaluates [OF ms v init(1) init' init(2) first run vl' genuine_facts(4) [OF h g'] aux])
    have "material_live M G \<lparr>m_participants = map (\<lambda>(i, s, v, fresh). \<lparr>p_index = word_of_nat i, p_signer = s,
          p_verifier = v, p_share = g' v, p_aux = b v\<rparr>) (enumerate 0 ?assigned),
        m_group_key = make_group_key M vk, m_threshold = 2, m_total = length ?assigned\<rparr>"
      by (rule material_live_enumerate [of "[v0, v1, v2]"]) (use g' b v dist in simp_all)
    then show "material_live M G \<lparr>m_participants = map (\<lambda>(i, s, v, fresh). \<lparr>p_index = word_of_nat i, p_signer = s,
          p_verifier = v, p_share = g' v, p_aux = b v\<rparr>) (enumerate 0 ?assigned),
        m_group_key = make_group_key M vk, m_threshold = 2, m_total = 3\<rparr>"
      by (simp add: numeral_3_eq_3)
  qed
qed

section \<open>Signing\<close>

lemma recovery_byte_arith:
  assumes "unat (x :: u8) \<le> 3"
  shows "add_u8 b x 27 = (Ok (x + 27) :: (tss_error, u8) res)"
    and "sub_u8 b (x + 27) 27 = (Ok x :: (tss_error, u8) res)"
proof -
  show "add_u8 b x 27 = (Ok (x + 27) :: (tss_error, u8) res)" using assms by (simp add: add_u8_def)
  have "unat (x + 27) = unat x + 27" using assms by (simp add: unat_word_ariths)
  then have "27 \<le> x + 27" by (simp add: word_le_nat_alt)
  then show "sub_u8 b (x + 27) 27 = (Ok x :: (tss_error, u8) res)" by (simp add: sub_u8_def)
qed

lemma finish_signature_complete:
  assumes "signatures \<noteq> []"
    and "\<And>v x. (v, x) \<in> set signatures \<Longrightarrow> fst (to_backend E x) = es
      \<and> good_signature E vk (sb_digest binding) (to_backend E x)"
  obtains sg where "finish_signature b E vk binding sid signatures = Ok sg"
proof -
  obtain w x rest where s: "signatures = (w, x) # rest" using assms(1) by (cases signatures) auto
  let ?rid = "snd (to_backend E x)" and ?bs = "es_to_bytes E es"
  have es: "fst (to_backend E x) = es" and good: "good_signature E vk (sb_digest binding) (to_backend E x)"
    using assms(2) [of w x] by (simp_all add: s)
  have all: "list_all (\<lambda>(v, x). fst (to_backend E x) = es) signatures"
    using assms(2) by (auto simp: list_all_iff)
  note good = good [unfolded good_signature_def Let_def es]
  have bytes: "take 32 ?bs @ take 32 (drop 32 ?bs) = ?bs"
    using good append_take_drop_id [of 32 ?bs] by simp
  have low: "bytes_le (drop 32 ?bs) HALF_N" using good by (auto simp: take_all)
  let ?sg = "\<lparr>sg_r = take 32 ?bs, sg_s = take 32 (drop 32 ?bs), sg_v = recovery_id_to_byte E ?rid + 27,
      sg_digest = sb_digest binding, sg_session_id = sid\<rparr>"
  have "verify_signature b E (sb_digest binding) ?sg vk = Ok True"
    using good recovery_byte_arith(2) [of "recovery_id_to_byte E ?rid" b]
    by (simp add: verify_signature_def bytes del: res_bind_Ok_iff)
  then have "finish_signature b E vk binding sid signatures = Ok ?sg"
    using good low recovery_byte_arith(1) [of "recovery_id_to_byte E ?rid" b] all es
    by (simp add: finish_signature_def Let_def s del: res_bind_Ok_iff)
  then show thesis by (rule that)
qed

text \<open>The participants at distinct indices of live material.\<close>

lemma quorum_selected:
  assumes live: "material_live M G m" and "distinct idxs" "\<forall>i \<in> set idxs. i < length (m_participants m)"
    and sel: "selected = map (\<lambda>i. m_participants m ! i) idxs"
  shows "set selected \<subseteq> set (m_participants m)" "distinct (map p_verifier selected)"
    "card (set (map p_verifier selected)) = length idxs"
proof -
  show "set selected \<subseteq> set (m_participants m)" using assms(3) by (auto simp: sel)
  have "map p_verifier selected = map ((!) (map p_verifier (m_participants m))) idxs"
    using assms(3) by (simp add: sel)
  moreover have "distinct (map ((!) (map p_verifier (m_participants m))) idxs)"
    using assms(2,3) material_live_signers(1) [OF live]
    by (auto simp: distinct_map inj_on_def nth_eq_iff_index_eq simp del: nth_map)
  ultimately show d: "distinct (map p_verifier selected)" by simp
  show "card (set (map p_verifier selected)) = length idxs"
    using distinct_card [OF d] by (simp add: sel)
qed

lemma signing_complete:
  assumes "honest_signing M G E" "genuine G vs t vk f" "genuine_aux G vs a" "S \<subseteq> vs" "card S = t" "length digest = 32"
  obtains ks xs ep where "\<And>v. v \<in> S \<Longrightarrow> to_key_share M (f v) S = Ok (ks v) \<and> aux_subset M (a v) S = Ok (xs v)
      \<and> signing_new M digest (ks v) (xs v) = Ok (ep v)"
    "\<And>eps. run_by M eps S \<Longrightarrow> \<forall>(s, e) \<in> set eps. e = ep (signer_verifier M s) \<Longrightarrow>
      \<exists>vl sg es. set vl = S \<and> run_signing M eps = Ok (Ok (map (\<lambda>v. (v, sg v)) vl))
        \<and> (\<forall>v \<in> S. fst (to_backend E (sg v)) = es \<and> good_signature E vk digest (to_backend E (sg v)))"
proof -
  have c: "genuine G vs t vk f \<and> genuine_aux G vs a \<and> S \<subseteq> vs \<and> card S = t \<and> length digest = 32"
    using assms(2-6) by blast
  note run = assms(1) [unfolded honest_signing_def returns_def, THEN spec, THEN spec, THEN spec, THEN spec,
      THEN spec, THEN spec, THEN spec, THEN mp, OF c]
  then obtain ks xs ep where ready: "\<forall>v \<in> S. to_key_share M (f v) S = Ok (ks v) \<and> aux_subset M (a v) S = Ok (xs v)
          \<and> signing_new M digest (ks v) (xs v) = Ok (ep v)"
      and runs: "\<And>eps. run_by M eps S \<and> (\<forall>(s, e) \<in> set eps. e = ep (signer_verifier M s)) \<Longrightarrow>
            (\<exists>sg es. (\<exists>vl. distinct vl \<and> set vl = S \<and> run_signing M eps = Ok (Ok (map (\<lambda>v. (v, sg v)) vl)))
              \<and> (\<forall>v \<in> S. fst (to_backend E (sg v)) = es \<and> good_signature E vk digest (to_backend E (sg v))))"
    by blast
  show thesis
  proof (rule that)
    fix eps assume "run_by M eps S" "\<forall>(s, e) \<in> set eps. e = ep (signer_verifier M s)"
    then show "\<exists>vl sg es. set vl = S \<and> run_signing M eps = Ok (Ok (map (\<lambda>v. (v, sg v)) vl))
        \<and> (\<forall>v \<in> S. fst (to_backend E (sg v)) = es \<and> good_signature E vk digest (to_backend E (sg v)))"
      using runs [of eps] by blast
  qed (use ready in blast)
qed

lemma sign_complete:
  fixes M :: "('sn, 'v, 'sh, 'ax, 'vk, 'ep, 'ks, 'sg) mpc"
  assumes h: "honest_protocols M G" and hs: "honest_signing M G E" and live: "material_live M G m"
    and idxs: "distinct idxs" "\<forall>i \<in> set idxs. i < length (m_participants m)" "length idxs = m_threshold m"
    and digest: "length (sb_digest binding) = 32"
  obtains sg where "threshold_sign b M E m idxs binding (derive_session_id (mpc_keccak M) binding) = Ok sg"
proof -
  let ?ps = "m_participants m" and ?vk = "g_verifying_key (m_group_key m)" and ?n = "length idxs"
  define selected where "selected = map (\<lambda>i. ?ps ! i) idxs"
  define S where "S = set (map p_verifier selected)"
  note quorum = quorum_selected [OF live idxs(1,2) selected_def]
  obtain f a where g: "genuine G (set (map p_verifier ?ps)) (m_threshold m) ?vk f"
      "genuine_aux G (set (map p_verifier ?ps)) a"
    and sh: "\<And>p. p \<in> set ?ps \<Longrightarrow> p_share p = f (p_verifier p)"
    and ax: "\<And>p. p \<in> set ?ps \<Longrightarrow> p_aux p = a (p_verifier p)"
    using material_live_sharing [OF live] by metis
  have S: "S \<subseteq> set (map p_verifier ?ps)" "card S = m_threshold m" "finite S"
    using quorum idxs(3) by (auto simp: S_def)
  obtain ks xs ep where ready: "\<And>v. v \<in> S \<Longrightarrow> to_key_share M (f v) S = Ok (ks v) \<and> aux_subset M (a v) S = Ok (xs v)
          \<and> signing_new M (sb_digest binding) (ks v) (xs v) = Ok (ep v)"
    and run: "\<And>eps. run_by M eps S \<Longrightarrow> \<forall>(s, e) \<in> set eps. e = ep (signer_verifier M s) \<Longrightarrow>
          \<exists>vl sg es. set vl = S \<and> run_signing M eps = Ok (Ok (map (\<lambda>v. (v, sg v)) vl))
            \<and> (\<forall>v \<in> S. fst (to_backend E (sg v)) = es \<and> good_signature E ?vk (sb_digest binding) (to_backend E (sg v)))"
    by (rule signing_complete [OF hs g S(1,2) digest]) (rule that)
  have len: "length selected = ?n" by (simp add: selected_def)
  have sel: "p \<in> set ?ps" and inS: "p_verifier p \<in> S" if "p \<in> set selected" for p
    using that quorum(1) by (auto simp: S_def)
  have shares: "collect_res (\<lambda>p. map_err (\<lambda>e. SigningFailed (''to_key_share: '' @ e))
      (to_key_share M (p_share p) S)) selected = Ok (map (\<lambda>p. ks (p_verifier p)) selected)"
    by (rule collect_res_all_Ok) (simp add: sh [OF sel] ready [OF inS])
  have auxs: "collect_res (\<lambda>p. map_err (\<lambda>e. SigningFailed (''aux subset: '' @ e))
      (aux_subset M (p_aux p) S)) selected = Ok (map (\<lambda>p. xs (p_verifier p)) selected)"
    by (rule collect_res_all_Ok) (simp add: ax [OF sel] ready [OF inS])
  define eps where "eps = map (\<lambda>idx. (p_signer (selected ! idx), ep (p_verifier (selected ! idx)))) [0..<?n]"
  have points: "collect_res (\<lambda>idx. res_bind (map_err (\<lambda>e. SigningFailed (''InteractiveSigning new: '' @ e))
          (signing_new M (sb_digest binding) (map (\<lambda>p. ks (p_verifier p)) selected ! idx)
            (map (\<lambda>p. xs (p_verifier p)) selected ! idx)))
        (\<lambda>ep. Ok (p_signer (selected ! idx), ep))) [0..<?n] = Ok eps"
    unfolding eps_def
    by (rule collect_res_all_Ok) (simp add: len ready [OF inS] del: res_bind_Ok_iff map_err_Ok_iff)
  have signer: "signer_verifier M (p_signer (selected ! i)) = p_verifier (selected ! i)" if "i < ?n" for i
    using that len by (intro material_live_signers(3) [OF live] sel) simp
  have "map (signer_verifier M \<circ> fst) eps = map p_verifier (map ((!) selected) [0..<?n])"
    using signer by (simp add: eps_def)
  then have ev: "map (signer_verifier M \<circ> fst) eps = map p_verifier selected"
    unfolding map_nth [of selected, unfolded len] .
  have "run_by M eps S" using quorum(2) by (simp only: run_by_def ev S_def)
  moreover have "\<forall>(s, e) \<in> set eps. e = ep (signer_verifier M s)" using signer by (auto simp: eps_def)
  ultimately obtain vl sg es where vl: "set vl = S" "run_signing M eps = Ok (Ok (map (\<lambda>v. (v, sg v)) vl))"
      and good: "\<forall>v \<in> S. fst (to_backend E (sg v)) = es \<and> good_signature E ?vk (sb_digest binding) (to_backend E (sg v))"
    using run by blast
  have ne: "vl \<noteq> []" using S(2) vl(1) genuine_facts(2) [OF h g(1)] by auto
  obtain sign where fin: "finish_signature b E ?vk binding (derive_session_id (mpc_keccak M) binding)
      (map (\<lambda>v. (v, sg v)) vl) = Ok sign"
    by (rule finish_signature_complete [of "map (\<lambda>v. (v, sg v)) vl" E es ?vk binding])
      (use ne good vl(1) in auto)
  have "check_subset (length ?ps) {} idxs = Ok ()" using idxs by (simp add: check_subset_Ok list_all_iff)
  then have "threshold_sign b M E m idxs binding (derive_session_id (mpc_keccak M) binding) = Ok sign"
    unfolding threshold_sign_def Let_def selected_def [symmetric] S_def [symmetric]
    using shares auxs points vl(2) fin idxs(3)
    by (simp add: run_results_def del: res_bind_Ok_iff map_err_Ok_iff)
  then show thesis by (rule that)
qed

end
