(* ===== verification/Availability.thy ===== *)
theory Availability
  imports Honest_Protocols Lifecycle_Safety
begin

text \<open>
  Liveness of the key lifecycle. With protocols that behave as documented (theory
  Honest_Protocols), key generation succeeds, and from then on every refresh and every admissible
  rotation does, in any order and number, and in between any quorum of seats can sign.
\<close>

section \<open>A key that can go on\<close>

text \<open>Outcomes of the protocols that differ in their randomness only.\<close>

definition same_world ::
  "('sn, 'v, 'sh, 'ax, 'vk, 'ep, 'ks, 'sg) mpc \<Rightarrow> ('sn, 'v, 'sh, 'ax, 'vk, 'ep, 'ks, 'sg) mpc \<Rightarrow> bool" where
  "same_world M N \<longleftrightarrow> same_codec M N \<and> signer_new M = signer_new N \<and> signer_verifier M = signer_verifier N"

lemma same_world_material: "same_world M N \<Longrightarrow> material_live N G m = material_live M G m"
  using same_codec_simps(2) [of M N] by (simp add: material_live_def same_world_def)

definition lifecycle_live ::
  "('sn, 'v, 'sh, 'ax, 'vk, 'ep, 'ks, 'sg) mpc \<Rightarrow> ('v, 'sh, 'ax, 'vk) dealing
     \<Rightarrow> ('sn, 'v, 'sh, 'ax, 'vk) key_lifecycle \<Rightarrow> bool" where
  "lifecycle_live M G s \<longleftrightarrow> kl_state s = KsActive \<and> \<not> kl_locked s
     \<and> (\<exists>m. kl_material s = Some m \<and> material_live M G m)"

text \<open>
  When a rotation is admissible: the request is executable, for this version and this key, has a
  threshold that its seats can meet, gives its seats to different parties, and the version has room.
\<close>

primrec event_admissible ::
  "('sn, 'v, 'sh, 'ax, 'vk) key_lifecycle \<Rightarrow> ('sn, 'v, 'sh, 'ax, 'vk, 'ep, 'ks, 'sg) mpc lifecycle_event \<Rightarrow> bool" where
  "event_admissible s (EvDkg N) = False"
| "event_admissible s (EvRefresh N) = True"
| "event_admissible s (EvBegin r now) = False"
| "event_admissible s (EvApply N r t) = False"
| "event_admissible s (EvRotate N r now) =
     (ro_old_version r = kl_version s \<and> kl_group_key_bytes s = Some (ro_group_public_key r)
      \<and> rotation_is_executable r now \<and> 0 < ro_threshold r \<and> ro_threshold r \<le> length (ro_new_set r)
      \<and> unat (kl_version s) + 1 < 2 ^ 64
      \<and> (case kl_material s of None \<Rightarrow> False
         | Some m \<Rightarrow> distinct (map (fst \<circ> snd) (assign_signers N (m_participants m) (ro_new_set r)))))"
| "event_admissible s EvRetire = False"

primrec event_succeeds ::
  "build \<Rightarrow> ('sn, 'v::linorder, 'sh, 'ax, 'vk) key_lifecycle
     \<Rightarrow> ('sn, 'v, 'sh, 'ax, 'vk, 'ep, 'ks, 'sg) mpc lifecycle_event \<Rightarrow> bool" where
  "event_succeeds b s (EvDkg N) = is_ok (snd (lifecycle_dkg N s))"
| "event_succeeds b s (EvRefresh N) = is_ok (snd (lifecycle_refresh N s))"
| "event_succeeds b s (EvBegin r now) = is_ok (snd (begin_rotation s r now))"
| "event_succeeds b s (EvApply N r t) = is_ok (snd (apply_rotation b N s r t))"
| "event_succeeds b s (EvRotate N r now) = is_ok (snd (snd (rotate_with_request b N s r now)))"
| "event_succeeds b s EvRetire = is_ok (snd (lifecycle_retire s))"

fun event_outcomes :: "'m lifecycle_event \<Rightarrow> 'm list" where
  "event_outcomes (EvDkg N) = [N]"
| "event_outcomes (EvRefresh N) = [N]"
| "event_outcomes (EvApply N r t) = [N]"
| "event_outcomes (EvRotate N r now) = [N]"
| "event_outcomes ev = []"

text \<open>A whole run: each event is admissible where it happens; each event succeeds.\<close>

primrec admissible_run ::
  "build \<Rightarrow> ('sn, 'v::linorder, 'sh, 'ax, 'vk) key_lifecycle
     \<Rightarrow> ('sn, 'v, 'sh, 'ax, 'vk, 'ep, 'ks, 'sg) mpc lifecycle_event list \<Rightarrow> bool" where
  "admissible_run b s [] = True"
| "admissible_run b s (ev # evs) \<longleftrightarrow> event_admissible s ev \<and> admissible_run b (lifecycle_step b s ev) evs"

primrec run_succeeds ::
  "build \<Rightarrow> ('sn, 'v::linorder, 'sh, 'ax, 'vk) key_lifecycle
     \<Rightarrow> ('sn, 'v, 'sh, 'ax, 'vk, 'ep, 'ks, 'sg) mpc lifecycle_event list \<Rightarrow> bool" where
  "run_succeeds b s [] = True"
| "run_succeeds b s (ev # evs) \<longleftrightarrow> event_succeeds b s ev \<and> run_succeeds b (lifecycle_step b s ev) evs"

definition rotations :: "'m lifecycle_event list \<Rightarrow> nat" where
  "rotations evs = length (filter (\<lambda>ev. \<exists>N r now. ev = EvRotate N r now) evs)"

section \<open>Each operation goes through\<close>

lemma dkg_complete:
  assumes "honest_protocols M G" and "distinct (map (\<lambda>i. signer_verifier M (signer_new M i)) [0, 1, 2])"
    and "\<forall>vk. length (vk_compressed M vk) = 33"
  shows "is_ok (snd (lifecycle_dkg M lifecycle_new)) \<and> lifecycle_live M G (fst (lifecycle_dkg M lifecycle_new))
    \<and> kl_version (fst (lifecycle_dkg M lifecycle_new)) = 1"
proof -
  obtain m where m: "setup_2of3 M = Ok m" "material_live M G m" by (rule setup_complete [OF assms(1,2)])
  then show ?thesis
    using assms(3) by (simp add: lifecycle_dkg_def lifecycle_new_def Let_def compressed_verifying_key_def
        lifecycle_live_def)
qed

lemma live_group_key: "material_live M G m \<Longrightarrow> make_group_key M (g_verifying_key (m_group_key m)) = m_group_key m"
  by (cases "m_group_key m") (simp add: material_live_def make_group_key_def)

lemma lifecycle_refresh_complete:
  assumes "honest_protocols N G" and w: "same_world M N" and live: "lifecycle_live M G s"
  shows "is_ok (snd (lifecycle_refresh N s)) \<and> lifecycle_live M G (fst (lifecycle_refresh N s))
    \<and> kl_version (fst (lifecycle_refresh N s)) = kl_version s"
proof -
  from live obtain m where s: "kl_state s = KsActive" "\<not> kl_locked s" "kl_material s = Some m"
      and m: "material_live N G m" by (auto simp: lifecycle_live_def same_world_material [OF w])
  obtain new where new: "do_refresh_via_resharing N m = Ok new" "material_live N G new"
    by (rule refresh_complete [OF assms(1) m])
  moreover have "m_group_key new = m_group_key m"
    using refresh_Ok [OF new(1)] live_group_key [OF m] by simp
  ultimately show ?thesis
    using s by (simp add: lifecycle_refresh_def ks_can_mutate_def Let_def lifecycle_live_def
        same_world_material [OF w])
qed

lemma lifecycle_rotate_complete:
  assumes "honest_protocols N G" and w: "same_world M N" and live: "lifecycle_live M G s"
    and adm: "event_admissible s (EvRotate N r now)"
  shows "is_ok (snd (snd (rotate_with_request b N s r now)))
    \<and> lifecycle_live M G (fst (rotate_with_request b N s r now))
    \<and> kl_version (fst (rotate_with_request b N s r now)) = kl_version s + 1"
proof -
  from live obtain m where s: "kl_state s = KsActive" "\<not> kl_locked s" "kl_material s = Some m"
      and m: "material_live N G m" by (auto simp: lifecycle_live_def same_world_material [OF w])
  from adm s(3) have r: "ro_old_version r = kl_version s" "kl_group_key_bytes s = Some (ro_group_public_key r)"
      "rotation_is_executable r now" "0 < ro_threshold r" "ro_threshold r \<le> length (ro_new_set r)"
      "unat (kl_version s) + 1 < 2 ^ 64"
      "distinct (map (fst \<circ> snd) (assign_signers N (m_participants m) (ro_new_set r)))"
    by simp_all
  obtain new where new: "do_rotation_via_resharing N m (ro_new_set r) (ro_threshold r) = Ok new"
      "material_live N G new"
    by (rule rotation_complete [OF assms(1) m r(7,4,5)])
  have gk: "m_group_key new = m_group_key m" "m_threshold new = ro_threshold r"
    using rotation_Ok [OF new(1)] live_group_key [OF m] by simp_all
  let ?s1 = "s\<lparr>kl_state := KsRotating, kl_locked := True\<rparr>" and ?r1 = "r\<lparr>ro_status := RotResharing\<rparr>"
  have bg: "begin_rotation s r now = (?s1, Ok ())"
    using s r by (simp add: begin_rotation_def ks_can_mutate_def)
  have mark: "mark_resharing_with_time r now = (?r1, Ok ())"
    using r(3) by (simp add: mark_resharing_with_time_def rotation_is_executable_def Let_def)
  have "fst (apply_rotation b N ?s1 ?r1 (ro_threshold r)) = s\<lparr>kl_material := Some new,
        kl_version := kl_version s + 1, kl_key_id := derive_key_id N (m_group_key new)
          (word_of_nat (m_threshold new)) (kl_version s + 1), kl_state := KsActive, kl_locked := False\<rparr>
      \<and> snd (apply_rotation b N ?s1 ?r1 (ro_threshold r)) = Ok ()"
    using s r(4,5,6) new(1) gk by (simp add: apply_rotation_def Let_def add_u64_fits)
  then show ?thesis
    using bg mark new(2)
    by (cases "apply_rotation b N ?s1 ?r1 (ro_threshold r)")
      (simp add: rotate_with_request_def mark_completed_def Let_def lifecycle_live_def same_world_material [OF w])
qed

lemma event_complete:
  assumes "\<forall>N \<in> set (event_outcomes ev). same_world M N \<and> honest_protocols N G"
    and "lifecycle_live M G s" and "event_admissible s ev"
  shows "event_succeeds b s ev \<and> lifecycle_live M G (lifecycle_step b s ev)
    \<and> unat (kl_version (lifecycle_step b s ev)) = unat (kl_version s) + rotations [ev]"
proof (cases ev)
  case (EvRefresh N)
  with assms lifecycle_refresh_complete [of N G M s] show ?thesis by (simp add: rotations_def)
next
  case (EvRotate N r now)
  with assms lifecycle_rotate_complete [of N G M s r now b]
  show ?thesis by (simp add: rotations_def unat_add_fits)
qed (use assms(3) in simp_all)

lemma run_complete:
  assumes "\<forall>N \<in> set (concat (map event_outcomes evs)). same_world M N \<and> honest_protocols N G"
    and "lifecycle_live M G s" and "admissible_run b s evs"
  shows "run_succeeds b s evs \<and> lifecycle_live M G (lifecycle_run b s evs)
    \<and> unat (kl_version (lifecycle_run b s evs)) = unat (kl_version s) + rotations evs"
  using assms
proof (induction evs arbitrary: s)
  case Nil
  then show ?case by (simp add: rotations_def)
next
  case (Cons ev evs)
  have e: "event_succeeds b s ev \<and> lifecycle_live M G (lifecycle_step b s ev)
      \<and> unat (kl_version (lifecycle_step b s ev)) = unat (kl_version s) + rotations [ev]"
    using Cons.prems by (intro event_complete) auto
  moreover have "rotations (ev # evs) = rotations [ev] + rotations evs" by (simp add: rotations_def)
  ultimately show ?case using Cons.IH [of "lifecycle_step b s ev"] Cons.prems by simp
qed

section \<open>The whole life of a key\<close>

text \<open>
  Claim C6. A key that is run honestly never gets stuck. If the protocols behave as documented,
  key generation succeeds; then every refresh and every admissible rotation succeeds, in any
  order and number; the version counts the rotations; and at every point signing is allowed for
  the current version and any threshold of distinct seats obtains a signature that verifies.
\<close>

theorem key_life_completes:
  assumes honest: "\<forall>N \<in> set (M # concat (map event_outcomes evs)). same_world M N \<and> honest_protocols N G"
    and signers: "distinct (map (\<lambda>i. signer_verifier M (signer_new M i)) [0, 1, 2])"
    and keys: "\<forall>vk. length (vk_compressed M vk) = 33"
    and start: "lifecycle_dkg M lifecycle_new = (s0, x)"
    and adm: "admissible_run b s0 evs" and s: "s = lifecycle_run b s0 evs"
  shows "is_ok x \<and> run_succeeds b s0 evs \<and> unat (kl_version s) = 1 + rotations evs
    \<and> check_signing_allowed s (kl_version s) = Ok ()
    \<and> (\<exists>m. kl_material s = Some m \<and> (\<forall>N E idxs binding. same_world M N \<and> honest_protocols N G
          \<and> honest_signing N G E \<and> scalars_canonical E \<and> distinct idxs
          \<and> (\<forall>i \<in> set idxs. i < length (m_participants m)) \<and> length idxs = m_threshold m
          \<and> length (sb_digest binding) = 32 \<longrightarrow>
        (\<exists>sg. threshold_sign b N E m idxs binding (derive_session_id (mpc_keccak N) binding) = Ok sg
          \<and> verify_signature b E (sb_digest binding) sg (g_verifying_key (m_group_key m)) = Ok True)))"
proof -
  have d: "is_ok x \<and> lifecycle_live M G s0 \<and> kl_version s0 = 1"
    using dkg_complete [OF _ signers keys, of G] honest start by simp
  then have run: "run_succeeds b s0 evs \<and> lifecycle_live M G s \<and> unat (kl_version s) = 1 + rotations evs"
    using run_complete [of evs M G s0 b] honest adm s by simp
  then obtain m where m: "kl_state s = KsActive" "kl_material s = Some m" "material_live M G m"
    by (auto simp: lifecycle_live_def)
  have "\<exists>sg. threshold_sign b N E m idxs binding (derive_session_id (mpc_keccak N) binding) = Ok sg
      \<and> verify_signature b E (sb_digest binding) sg (g_verifying_key (m_group_key m)) = Ok True"
    if "same_world M N" "honest_protocols N G" "honest_signing N G E" "scalars_canonical E" "distinct idxs"
      "\<forall>i \<in> set idxs. i < length (m_participants m)" "length idxs = m_threshold m" "length (sb_digest binding) = 32"
    for N E idxs binding
  proof (rule sign_complete [OF that(2,3) _ that(5-8)])
    show "material_live N G m" using m(3) that(1) by (simp add: same_world_material)
  next
    fix sg assume "threshold_sign b N E m idxs binding (derive_session_id (mpc_keccak N) binding) = Ok sg"
    with threshold_sign_Ok [OF this that(4)] show ?thesis by blast
  qed
  then show ?thesis using d run m
    by (auto simp: check_signing_allowed_def ks_can_sign_def is_stale_def)
qed

section \<open>A fair world\<close>

text \<open>
  Protocols that do what is documented, in miniature: a share is its threshold, every key is 42,
  an entry point is the share that its party will get.
\<close>

definition fair_mpc :: "(nat, nat, nat, unit, nat, nat option, nat, nat) mpc" where
  "fair_mpc = \<lparr>signer_new = unat, signer_verifier = (\<lambda>s. s),
     key_init_new = (\<lambda>vs. Ok (Some (card vs))),
     run_key_init = (\<lambda>eps. Ok (Ok (map (\<lambda>(s, e). (s, case e of None \<Rightarrow> 0 | Some t \<Rightarrow> t)) eps))),
     from_key_share = (\<lambda>ks. ks),
     resharing_new = (\<lambda>sh nh hs t. case nh of None \<Rightarrow> None | Some _ \<Rightarrow> Some t),
     run_resharing = (\<lambda>eps. Ok (Ok eps)),
     aux_gen_new = (\<lambda>_. Ok None), run_aux_gen = (\<lambda>eps. Ok (Ok (map (\<lambda>(s, _). (s, ())) eps))),
     share_verifying_key = (\<lambda>_. Ok 42), share_threshold = (\<lambda>t. t),
     to_key_share = (\<lambda>sh _. Ok sh), aux_subset = (\<lambda>a _. Ok a), signing_new = (\<lambda>_ _ _. Ok None),
     run_signing = (\<lambda>eps. Ok (Ok (map (\<lambda>(s, _). (s, 7)) eps))),
     vk_uncompressed = (\<lambda>_. 4 # replicate 64 1), vk_compressed = (\<lambda>_. 2 # replicate 32 1),
     mpc_keccak = (\<lambda>_. replicate 32 0), debug_verifier = show_nat\<rparr>"

lemma fair_simps:
  "signer_new fair_mpc = unat" "signer_verifier fair_mpc = (\<lambda>s. s)"
  "key_init_new fair_mpc vs = Ok (Some (card vs))"
  "run_key_init fair_mpc eps = Ok (Ok (map (\<lambda>(s, e). (s, case e of None \<Rightarrow> 0 | Some t \<Rightarrow> t)) eps))"
  "from_key_share fair_mpc ks = ks"
  "resharing_new fair_mpc sh nh hs t = (case nh of None \<Rightarrow> None | Some _ \<Rightarrow> Some t)"
  "run_resharing fair_mpc eps2 = Ok (Ok eps2)" "aux_gen_new fair_mpc vs = Ok None"
  "run_aux_gen fair_mpc eps = Ok (Ok (map (\<lambda>(s, _). (s, ())) eps))"
  "share_verifying_key fair_mpc sh' = Ok 42" "share_threshold fair_mpc n = n"
  "to_key_share fair_mpc n vs = Ok n" "aux_subset fair_mpc a vs = Ok a" "signing_new fair_mpc d ks a = Ok None"
  "run_signing fair_mpc eps = Ok (Ok (map (\<lambda>(s, _). (s, 7)) eps))"
  "vk_compressed fair_mpc vk = 2 # replicate 32 1" "mpc_keccak fair_mpc bs = replicate 32 0"
  by (simp_all add: fair_mpc_def)

definition fair_dealing :: "(nat, nat, unit, nat) dealing" where
  "fair_dealing = \<lparr>genuine = (\<lambda>vs t vk f. finite vs \<and> 0 < t \<and> t \<le> card vs \<and> vk = 42 \<and> (\<forall>v \<in> vs. f v = t)),
     genuine_aux = (\<lambda>vs a. True)\<rparr>"

lemma fair_returns:
  assumes "run_by fair_mpc eps vs" and "\<And>s e. (s, e) \<in> set eps \<Longrightarrow> h (s, e) = (s, f s)"
  shows "returns (Ok (Ok (map h eps))) vs f"
proof -
  have "map h eps = map (\<lambda>v. (v, f v)) (map fst eps)" using assms(2) by (induction eps) auto
  moreover have "distinct (map fst eps) \<and> set (map fst eps) = vs"
    using assms(1) by (simp add: run_by_def fair_simps comp_def)
  ultimately show ?thesis unfolding returns_def by metis
qed

lemma fair_key_init: "honest_key_init fair_mpc fair_dealing"
  unfolding honest_key_init_def fair_simps
proof (intro allI impI conjI)
  fix vs :: "nat set" and eps :: "(nat \<times> nat option) list"
  assume vs: "finite vs \<and> vs \<noteq> {}"
    and e: "run_by fair_mpc eps vs \<and> (\<forall>(s, ep) \<in> set eps. Ok (Some (card vs)) = (Ok ep :: (string, _) res))"
  have "returns (Ok (Ok (map (\<lambda>(s, e). (s, case e of None \<Rightarrow> 0 | Some t \<Rightarrow> t)) eps))) vs (\<lambda>_. card vs)"
    by (rule fair_returns) (use e in auto)
  then show "\<exists>ks vk. returns (Ok (Ok (map (\<lambda>(s, e). (s, case e of None \<Rightarrow> 0 | Some t \<Rightarrow> t)) eps))) vs ks
      \<and> genuine fair_dealing vs (card vs) vk ks"
    using vs by (intro exI [of _ "\<lambda>_. card vs"] exI [of _ 42]) (simp add: fair_dealing_def card_gt_0_iff)
qed simp

lemma fair_resharing: "honest_resharing fair_mpc fair_dealing"
  unfolding honest_resharing_def fair_simps
proof (intro allI impI)
  fix old t vk f new t' and eps :: "(nat \<times> nat option) list"
  assume a: "genuine fair_dealing old t vk f \<and> finite new \<and> 0 < t' \<and> t' \<le> card new \<and> run_by fair_mpc eps (old \<union> new)
   \<and> (\<forall>(s, ep) \<in> set eps. ep = (case if s \<in> new
         then Some \<lparr>nh_verifying_key = vk, nh_old_threshold = t, nh_old_holders = old\<rparr> else None of
         None \<Rightarrow> None | Some _ \<Rightarrow> Some t'))"
  have "returns (Ok (Ok (map (\<lambda>x. x) eps))) (old \<union> new) (\<lambda>v. if v \<in> new then Some t' else None)"
    by (rule fair_returns) (use a in \<open>auto split: if_splits\<close>)
  then show "\<exists>g. returns (Ok (Ok eps)) (old \<union> new) (\<lambda>v. if v \<in> new then Some (g v) else None)
      \<and> genuine fair_dealing new t' vk g"
    using a by (intro exI [of _ "\<lambda>_. t'"]) (simp add: fair_dealing_def)
qed

lemma fair_protocols: "honest_protocols fair_mpc fair_dealing"
proof -
  have "honest_shares fair_mpc fair_dealing" by (simp add: honest_shares_def fair_simps fair_dealing_def)
  moreover have "honest_aux_gen fair_mpc fair_dealing"
    unfolding honest_aux_gen_def fair_simps
    by (auto simp: fair_dealing_def intro!: exI [of _ "\<lambda>_. ()"] fair_returns)
  ultimately show ?thesis by (simp add: honest_protocols_def fair_key_init fair_resharing)
qed

lemma fair_signing: "honest_signing fair_mpc fair_dealing toy_backend"
proof -
  have good: "good_signature toy_backend 42 digest (to_backend toy_backend 7)" for digest
    using toy_low by (simp add: good_signature_def toy_backend_def)
  have runs: "returns (run_signing fair_mpc eps) S (\<lambda>_. 7)" if "run_by fair_mpc eps S" for eps S
    unfolding fair_simps by (rule fair_returns [OF that]) simp
  show ?thesis
    unfolding honest_signing_def
  proof (intro allI impI)
    fix vs t vk and f :: "nat \<Rightarrow> nat" and a S and digest :: bytes
    assume "genuine fair_dealing vs t vk f \<and> genuine_aux fair_dealing vs a \<and> S \<subseteq> vs \<and> card S = t \<and> length digest = 32"
    then have "vk = 42" by (simp add: fair_dealing_def)
    with good runs show "\<exists>ks ax ep.
       (\<forall>v \<in> S. to_key_share fair_mpc (f v) S = Ok (ks v) \<and> aux_subset fair_mpc (a v) S = Ok (ax v)
          \<and> signing_new fair_mpc digest (ks v) (ax v) = Ok (ep v))
       \<and> (\<forall>eps. run_by fair_mpc eps S \<and> (\<forall>(s, e) \<in> set eps. e = ep (signer_verifier fair_mpc s)) \<longrightarrow>
            (\<exists>sg es. returns (run_signing fair_mpc eps) S sg \<and> (\<forall>v \<in> S. fst (to_backend toy_backend (sg v)) = es
              \<and> good_signature toy_backend vk digest (to_backend toy_backend (sg v)))))"
      by (intro exI [of _ f] exI [of _ a] exI [of _ "\<lambda>_. None"] conjI allI impI exI [of _ "\<lambda>_. 7"]
          exI [of _ "fst (to_backend toy_backend 7)"]) (simp_all add: fair_simps)
  qed
qed

definition fair_material :: "(nat, nat, nat, unit, nat) key_material" where
  "fair_material = toy_material\<lparr>m_participants := map (\<lambda>p. p\<lparr>p_share := 2\<rparr>) (m_participants toy_material)\<rparr>"

lemma fair_setup: "setup_2of3 fair_mpc = Ok fair_material"
proof -
  have "make_signers fair_mpc 3 = ([0, 1, 2], [0, 1, 2])"
    by (simp add: make_signers_def fair_mpc_def Let_def upt_rec)
  then show ?thesis
    by (simp add: setup_2of3_def Let_def run_results_def aux_gen_for_def assemble_def
        make_group_key_def ethereum_address_from_verifying_key_def upt_rec
        fair_mpc_def fair_material_def toy_material_def del: res_bind_Ok_iff map_err_Ok_iff)
qed

definition fair_active :: "(nat, nat, nat, unit, nat) key_lifecycle" where
  "fair_active = toy_active\<lparr>kl_material := Some fair_material\<rparr>"

lemma fair_dkg: "lifecycle_dkg fair_mpc lifecycle_new = (fair_active, Ok fair_material)"
  by (simp add: lifecycle_dkg_def lifecycle_new_def fair_setup compressed_verifying_key_def
      derive_key_id_def fair_active_def toy_active_def fair_simps Let_def)

lemma fair_assign: "assign_signers fair_mpc (m_participants fair_material) [''A'', ''C'', ''Zoe'']
    = [(0, 0, False), (2, 2, False), (102, 102, True)]"
  by (simp add: assign_signers_def assign_signer_def fair_material_def name_to_old_idx_3 Let_def
      enumerate_eq_zip upt_rec)
    (simp add: toy_material_def fair_simps)

theorem key_life_completes_witness:
  "let s = lifecycle_run Debug fair_active [EvRotate fair_mpc toy_request 5000, EvRefresh fair_mpc] in
     run_succeeds Debug fair_active [EvRotate fair_mpc toy_request 5000, EvRefresh fair_mpc]
     \<and> unat (kl_version s) = 2
     \<and> (\<exists>m sg. kl_material s = Some m \<and> threshold_sign Debug fair_mpc toy_backend m [0..<m_threshold m]
          sample_binding (derive_session_id (mpc_keccak fair_mpc) sample_binding) = Ok sg)"
proof -
  let ?evs = "[EvRotate fair_mpc toy_request 5000, EvRefresh fair_mpc]"
  let ?s = "lifecycle_run Debug fair_active ?evs"
  have adm: "admissible_run Debug fair_active ?evs"
    by (simp add: fair_active_def toy_active_def toy_request_def sample_rotation_def
        rotation_is_executable_def rotation_effective_status_def fair_assign)
  have honest: "\<forall>N \<in> set (fair_mpc # concat (map event_outcomes ?evs)).
      same_world fair_mpc N \<and> honest_protocols N fair_dealing"
    by (simp add: same_world_def fair_protocols)
  have signers: "distinct (map (\<lambda>i. signer_verifier fair_mpc (signer_new fair_mpc i)) [0, 1, 2])"
      and keys: "\<forall>vk. length (vk_compressed fair_mpc vk) = 33" by (simp_all add: fair_simps)
  have world: "same_world fair_mpc fair_mpc" by (simp add: same_world_def)
  have rot: "rotations ?evs = 1" by (simp add: rotations_def)
  note life = key_life_completes [OF honest signers keys fair_dkg adm refl, unfolded rot one_add_one]
  obtain m where m: "kl_material ?s = Some m" and sign: "\<And>idxs binding. distinct idxs \<Longrightarrow>
      \<forall>i \<in> set idxs. i < length (m_participants m) \<Longrightarrow> length idxs = m_threshold m \<Longrightarrow>
      length (sb_digest binding) = 32 \<Longrightarrow> \<exists>sg. threshold_sign Debug fair_mpc toy_backend m idxs binding
        (derive_session_id (mpc_keccak fair_mpc) binding) = Ok sg"
    using life world fair_protocols fair_signing toy_backend_canonical by blast
  have "lifecycle_live fair_mpc fair_dealing fair_active"
    using dkg_complete [OF fair_protocols signers keys] by (simp add: fair_dkg)
  then have "lifecycle_live fair_mpc fair_dealing ?s"
    using run_complete [of ?evs fair_mpc fair_dealing fair_active Debug] honest adm by simp
  then have "m_threshold m \<le> length (m_participants m)"
    using m material_live_wf [OF fair_protocols] by (auto simp: lifecycle_live_def material_wf_def)
  then have "\<exists>sg. threshold_sign Debug fair_mpc toy_backend m [0..<m_threshold m] sample_binding
        (derive_session_id (mpc_keccak fair_mpc) sample_binding) = Ok sg"
    by (intro sign) (auto simp: sample_binding_def)
  with life m show ?thesis unfolding Let_def by blast
qed

end
