(* ===== verification/Proto_Shamir.thy ===== *)
theory Proto_Shamir
  imports Prelude
begin

text \<open>
  Secret sharing and key generation of the prototype crate
  (\<open>crates/keymesh-tss-proto/src/shamir.rs\<close>, \<open>dkg.rs\<close>). The scalars of \<open>k256\<close> are any field: the
  elements of the type variable \<open>'a\<close>, with \<open>Scalar::from\<close> as \<open>of_nat\<close>. That the 256 possible
  indices are distinct scalars is a hypothesis where it matters. Inverting zero is \<open>None\<close> in the
  code, whose \<open>unwrap\<close> then panics.
\<close>

section \<open>Lagrange interpolation at zero\<close>

record 'a participant_share =
  sh_index :: u8
  sh_secret :: 'a

definition scalar_of :: "u8 \<Rightarrow> 'a::field" where
  "scalar_of i = of_nat (unat i)"

text \<open>The inner loop for share \<open>i\<close>: numerator and denominator of its basis polynomial at zero.\<close>

fun basis_loop :: "nat \<Rightarrow> 'a::field \<Rightarrow> nat \<Rightarrow> 'a participant_share list \<Rightarrow> 'a \<Rightarrow> 'a \<Rightarrow> 'a \<times> 'a" where
  "basis_loop i xi j [] numerator denominator = (numerator, denominator)"
| "basis_loop i xi j (other # rest) numerator denominator =
     (if i = j then basis_loop i xi (Suc j) rest numerator denominator
      else let xj = scalar_of (sh_index other)
        in basis_loop i xi (Suc j) rest (numerator * (- xj)) (denominator * (xi - xj)))"

definition scalar_invert :: "'a::field \<Rightarrow> 'a option" where
  "scalar_invert d = (if d = 0 then None else Some (inverse d))"

text \<open>The outer loop, from share \<open>i\<close> on, over the rest of the shares.\<close>

fun lagrange_loop ::
  "'a::field participant_share list \<Rightarrow> nat \<Rightarrow> 'a participant_share list \<Rightarrow> 'a \<Rightarrow> ('e, 'a) res" where
  "lagrange_loop shares i [] result = Ok result"
| "lagrange_loop shares i (share # rest) result =
     (let xi = scalar_of (sh_index share);
          (numerator, denominator) = basis_loop i xi 0 shares 1 1
      in res_bind (unwrap (scalar_invert denominator)) (\<lambda>inv.
         let lagrange = numerator * inv
         in lagrange_loop shares (Suc i) rest (result + lagrange * sh_secret share)))"

definition lagrange_interpolate_at_zero :: "'a::field participant_share list \<Rightarrow> ('e, 'a) res" where
  "lagrange_interpolate_at_zero shares = lagrange_loop shares 0 shares 0"

section \<open>The interpolation theorem\<close>

text \<open>The value at zero of the polynomial of least degree through the points \<open>(x, g x)\<close>, \<open>x \<in> X\<close>.\<close>

definition lag :: "'a::field set \<Rightarrow> ('a \<Rightarrow> 'a) \<Rightarrow> 'a" where
  "lag X g = (\<Sum>x\<in>X. g x * (\<Prod>y\<in>X - {x}. - y / (x - y)))"

lemma lag_linear:
  "lag X (\<lambda>x. g x + h x) = lag X g + lag X h" "lag X (\<lambda>x. c * g x) = c * lag X g"
  "lag X (\<lambda>x. g x - h x) = lag X g - lag X h"
  by (simp_all add: lag_def sum.distrib sum_distrib_left algebra_simps sum_subtractf)

lemma lag_remove:
  assumes "finite X" and "a \<in> X"
  shows "lag X (\<lambda>x. (x - a) * h x) = - a * lag (X - {a}) h"
proof -
  have 1: "(x - a) * h x * (\<Prod>y\<in>X - {x}. - y / (x - y))
      = - a * (h x * (\<Prod>y\<in>X - {a} - {x}. - y / (x - y)))" if "x \<in> X - {a}" for x
  proof -
    have "X - {x} = insert a (X - {a} - {x})" using that assms(2) by auto
    moreover have "a \<notin> X - {a} - {x}" by simp
    ultimately have "(\<Prod>y\<in>X - {x}. - y / (x - y))
        = (- a / (x - a)) * (\<Prod>y\<in>X - {a} - {x}. - y / (x - y))"
      using assms(1) by simp
    then show ?thesis using that by simp
  qed
  have "lag X (\<lambda>x. (x - a) * h x)
      = (\<Sum>x\<in>X - {a}. (x - a) * h x * (\<Prod>y\<in>X - {x}. - y / (x - y)))"
    unfolding lag_def using assms by (simp add: sum.remove [of X a])
  also have "\<dots> = - a * lag (X - {a}) h"
    unfolding lag_def sum_distrib_left by (rule sum.cong [OF refl], rule 1)
  finally show ?thesis .
qed

lemma lag_one:
  assumes "finite X" and "X \<noteq> {}"
  shows "lag X (\<lambda>_. 1) = (1 :: 'a::field)"
  using assms
proof (induction "card X" arbitrary: X rule: less_induct)
  case less
  from less.prems(2) obtain a where a: "a \<in> X" by blast
  show ?case
  proof (cases "X = {a}")
    case False
    with a obtain b where b: "b \<in> X" "b \<noteq> a" by blast
    have ih: "lag (X - {c}) (\<lambda>_. 1) = (1 :: 'a)" if "c \<in> X" "X - {c} \<noteq> {}" for c
      using that less.prems by (intro less.hyps card_Diff1_less) auto
    have "lag X (\<lambda>x. x - a) = - a" "lag X (\<lambda>x. x - b) = - b"
      using lag_remove [OF less.prems(1) a, of "\<lambda>_. 1"] lag_remove [OF less.prems(1) b(1), of "\<lambda>_. 1"]
        ih [OF a] ih [OF b(1)] a b by auto
    then have "lag X (\<lambda>x. (x - a) - (x - b)) = b - a"
      using lag_linear(3) [of X "\<lambda>x. x - a" "\<lambda>x. x - b"] by simp
    moreover have "(\<lambda>x. (x - a) - (x - b)) = (\<lambda>x. (b - a) * (1 :: 'a))" by auto
    ultimately have "(b - a) * lag X (\<lambda>_. 1) = (b - a) * 1" using lag_linear(2) [of X "b - a" "\<lambda>_. 1"] by simp
    with b(2) show ?thesis by simp
  qed (simp add: lag_def)
qed

lemma lag_power:
  assumes "finite X" and "0 < m" and "m < card X"
  shows "lag X (\<lambda>x. x ^ m) = (0 :: 'a::field)"
  using assms
proof (induction m arbitrary: X)
  case (Suc m)
  from Suc.prems obtain a where a: "a \<in> X" by fastforce
  have c: "card (X - {a}) = card X - 1" using a Suc.prems(1) by simp
  have "0 < card (X - {a})" using c Suc.prems(3) by simp
  then have n: "X \<noteq> {}" "X - {a} \<noteq> {}" using a by (auto simp only: card.empty)
  have "lag X (\<lambda>x. x ^ m) = lag (X - {a}) (\<lambda>x. x ^ m)"
  proof (cases "m = 0")
    case True then show ?thesis
      using lag_one [OF Suc.prems(1) n(1)] lag_one [OF _ n(2)] Suc.prems(1) by simp
  next
    case False then show ?thesis using Suc.IH [of X] Suc.IH [of "X - {a}"] Suc.prems c by simp
  qed
  then have "lag X (\<lambda>x. (x - a) * x ^ m + a * x ^ m) = 0"
    unfolding lag_linear lag_remove [OF Suc.prems(1) a] by simp
  then show ?case by (simp add: algebra_simps)
qed simp

text \<open>Polynomials, as coefficient lists from the constant one up.\<close>

definition poly_at :: "'a::field list \<Rightarrow> 'a \<Rightarrow> 'a" where
  "poly_at cs x = (\<Sum>m<length cs. cs ! m * x ^ m)"

lemma lag_sum: "lag X (\<lambda>x. \<Sum>m\<in>S. g m x) = (\<Sum>m\<in>S. lag X (g m))"
  unfolding lag_def by (simp add: sum_distrib_right sum.swap [of _ X])

lemma lag_poly:
  assumes "finite X" and "length cs \<le> card X"
  shows "lag X (poly_at cs) = poly_at cs 0"
proof -
  have "lag X (poly_at cs) = (\<Sum>m<length cs. cs ! m * lag X (\<lambda>x. x ^ m))"
    unfolding poly_at_def lag_sum lag_linear by simp
  also have "\<dots> = (\<Sum>m<length cs. cs ! m * 0 ^ m)"
  proof (rule sum.cong)
    fix m assume "m \<in> {..<length cs}"
    then have "m < card X" "X \<noteq> {}" using assms(2) by auto
    then show "cs ! m * lag X (\<lambda>x. x ^ m) = cs ! m * 0 ^ m"
      using lag_power [OF assms(1), of m] lag_one [OF assms(1)] by (cases m) simp_all
  qed simp
  finally show ?thesis by (simp add: poly_at_def)
qed

section \<open>The loops compute it\<close>

lemma basis_loop_eq:
  "basis_loop i xi j shares num den =
     (num * (\<Prod>k<length shares. if j + k = i then 1 else - scalar_of (sh_index (shares ! k))),
      den * (\<Prod>k<length shares. if j + k = i then 1 else xi - scalar_of (sh_index (shares ! k))))"
proof (induction shares arbitrary: i j num den)
  case (Cons s shares)
  show ?case
    by (simp add: Cons.IH Let_def prod.lessThan_Suc_shift mult.assoc cong: if_cong del: prod.lessThan_Suc)
qed simp

lemma prod_skip:
  "finite S \<Longrightarrow> (\<Prod>k\<in>S. if k = i then 1 else g k) = (\<Prod>k\<in>S - {i}. g k :: 'a::field)"
  by (intro prod.mono_neutral_cong_right) auto

definition node :: "'a::field participant_share list \<Rightarrow> nat \<Rightarrow> 'a" where
  "node shares k = scalar_of (sh_index (shares ! k))"

lemma basis_loop_node:
  "basis_loop i xi 0 shares 1 1 =
     (\<Prod>k\<in>{..<length shares} - {i}. - node shares k, \<Prod>k\<in>{..<length shares} - {i}. xi - node shares k)"
  by (simp add: basis_loop_eq prod_skip node_def)

lemma lagrange_loop_eq:
  "lagrange_loop shares i rest result =
     (if \<exists>k<length rest. snd (basis_loop (i + k) (node rest k) 0 shares 1 1) = 0 then Panic
      else Ok (result + (\<Sum>k<length rest. fst (basis_loop (i + k) (node rest k) 0 shares 1 1)
        / snd (basis_loop (i + k) (node rest k) 0 shares 1 1) * sh_secret (rest ! k))))"
proof (induction rest arbitrary: i result)
  case (Cons s rest)
  have ex: "(\<exists>k<Suc n. P k) \<longleftrightarrow> P 0 \<or> (\<exists>k<n. P (Suc k))" for n and P :: "nat \<Rightarrow> bool"
    by (auto simp: less_Suc_eq_0_disj)
  obtain p q where pq: "basis_loop i (scalar_of (sh_index s)) 0 shares 1 1 = (p, q)"
    by (cases "basis_loop i (scalar_of (sh_index s)) 0 shares 1 1") blast
  have nd: "node (s # rest) 0 = scalar_of (sh_index s)" "node (s # rest) (Suc k) = node rest k" for k
    by (simp_all add: node_def)
  show ?case
    by (simp add: Cons.IH Let_def pq ex nd scalar_invert_def sum.lessThan_Suc_shift
        divide_inverse add.assoc del: sum.lessThan_Suc)
qed simp

text \<open>Interpolation panics exactly when an index is repeated, and otherwise gives \<open>lag\<close>.\<close>

lemma lagrange_loop_spec:
  assumes "inj (scalar_of :: u8 \<Rightarrow> 'a::field)"
  shows "(lagrange_interpolate_at_zero shares :: ('e, 'a) res) =
     (if distinct (map sh_index shares)
      then Ok (\<Sum>k<length shares. sh_secret (shares ! k)
        * (\<Prod>l\<in>{..<length shares} - {k}. - node shares l / (node shares k - node shares l)))
      else Panic)"
proof -
  let ?n = "length shares"
  have "(\<exists>k<?n. snd (basis_loop k (node shares k) 0 shares 1 1) = 0)
      \<longleftrightarrow> (\<exists>k<?n. \<exists>l<?n. l \<noteq> k \<and> sh_index (shares ! k) = sh_index (shares ! l))"
    using inj_eq [OF assms] by (auto simp: basis_loop_node node_def)
  also have "\<dots> \<longleftrightarrow> \<not> distinct (map sh_index shares)" by (auto simp: distinct_conv_nth)
  finally show ?thesis unfolding lagrange_interpolate_at_zero_def lagrange_loop_eq
    by (simp add: basis_loop_node mult.commute flip: prod_dividef)
qed

lemma lagrange_recovers_facts:
  fixes shares :: "'a::field participant_share list"
  assumes inj: "inj (scalar_of :: u8 \<Rightarrow> 'a)" and d: "distinct (map sh_index shares)"
    and on: "list_all (\<lambda>s. sh_secret s = poly_at cs (scalar_of (sh_index s))) shares"
    and len: "length cs \<le> length shares"
  shows "(lagrange_interpolate_at_zero shares :: ('e, 'a) res) = Ok (poly_at cs 0)"
proof -
  let ?n = "length shares" and ?x = "node shares"
  have inj_x: "inj_on ?x {..<?n}"
    using d inj_eq [OF inj] by (auto simp: inj_on_def node_def distinct_conv_nth)
  have "(\<Sum>k<?n. sh_secret (shares ! k) * (\<Prod>l\<in>{..<?n} - {k}. - ?x l / (?x k - ?x l)))
      = (\<Sum>k<?n. poly_at cs (?x k) * (\<Prod>y\<in>?x ` {..<?n} - {?x k}. - y / (?x k - y)))"
  proof (rule sum.cong)
    fix k assume k: "k \<in> {..<?n}"
    have "?x ` {..<?n} - {?x k} = ?x ` ({..<?n} - {k})" using inj_x k by (auto simp: inj_on_def)
    moreover have "inj_on ?x ({..<?n} - {k})" using inj_x by (rule inj_on_subset) blast
    moreover have "sh_secret (shares ! k) = poly_at cs (?x k)"
      using on k by (simp add: list_all_length node_def)
    ultimately show "sh_secret (shares ! k) * (\<Prod>l\<in>{..<?n} - {k}. - ?x l / (?x k - ?x l))
      = poly_at cs (?x k) * (\<Prod>y\<in>?x ` {..<?n} - {?x k}. - y / (?x k - y))"
      by (simp add: prod.reindex)
  qed simp
  also have "\<dots> = lag (?x ` {..<?n}) (poly_at cs)" unfolding lag_def by (simp add: sum.reindex [OF inj_x])
  also have "\<dots> = poly_at cs 0" using len by (intro lag_poly) (simp_all add: card_image [OF inj_x])
  finally show ?thesis using d by (simp add: lagrange_loop_spec [OF inj])
qed

text \<open>
  Claim C27. Interpolation recovers the secret. Shares with distinct indices that lie on a polynomial, at
  least as many as it has coefficients, interpolate to its constant coefficient without a panic;
  a list with a repeated index makes the inversion panic. Assumes that distinct
  indices are distinct scalars.
\<close>

theorem lagrange_recovers:
  assumes "inj (scalar_of :: u8 \<Rightarrow> 'a::field)"
    and "list_all (\<lambda>s. sh_secret s = poly_at cs (scalar_of (sh_index s))) (shares :: 'a participant_share list)"
    and "length cs \<le> length shares"
  shows "(lagrange_interpolate_at_zero shares :: ('e, 'a) res)
    = (if distinct (map sh_index shares) then Ok (poly_at cs 0) else Panic)"
proof (cases "distinct (map sh_index shares)")
  case True then show ?thesis by (simp add: lagrange_recovers_facts [OF assms(1) _ assms(2,3)])
qed (simp add: lagrange_loop_spec [OF assms(1)])

lemma scalar_of_inj_rat: "inj (scalar_of :: u8 \<Rightarrow> rat)"
  by (metis injI scalar_of_def of_nat_eq_iff word_unat_eq_iff)

theorem lagrange_recovers_witness:
  "(lagrange_interpolate_at_zero
     [\<lparr>sh_index = 1, sh_secret = 49\<rparr>, \<lparr>sh_index = 3, sh_secret = 63 :: rat\<rparr>] :: (unit, rat) res) = Ok 42"
  by (rule lagrange_recovers [where cs = "[42, 7]", OF scalar_of_inj_rat, THEN trans])
    (simp_all add: poly_at_def scalar_of_def)

end
