(* ===== verification/Proto_Dkg.thy ===== *)
theory Proto_Dkg
  imports Proto_Shamir
begin

text \<open>
  Key generation of the prototype (\<open>crates/keymesh-tss-proto/src/dkg.rs\<close>, with the address
  derivation of \<open>lib.rs\<close>). The random scalars are an argument: participant \<open>i\<close> draws the pair
  \<open>draws i\<close>. The key types of \<open>k256\<close> and Keccak are the parameter record \<open>key_backend\<close>.
\<close>

record ('a, 'vk) key_backend =
  public_of :: "'a \<Rightarrow> 'vk option"
  encode_uncompressed :: "'vk \<Rightarrow> bytes"
  kb_keccak :: "bytes \<Rightarrow> bytes"

text \<open>\<open>public_of\<close> is \<open>SecretKey::from_bytes\<close> with \<open>public_key\<close>: documented to fail for zero only.\<close>

definition public_key_law :: "('a::field, 'vk) key_backend \<Rightarrow> bool" where
  "public_key_law K \<longleftrightarrow> (\<forall>x. public_of K x = None \<longleftrightarrow> x = 0)"

definition proto_ethereum_address :: "('a, 'vk) key_backend \<Rightarrow> 'vk \<Rightarrow> bytes" where
  "proto_ethereum_address K vk = drop 12 (kb_keccak K (drop 1 (encode_uncompressed K vk)))"

record ('a, 'vk) proto_key_material =
  pk_shares :: "'a participant_share list"
  pk_group_verifying_key :: 'vk
  pk_ethereum_address :: bytes
  pk_threshold :: nat
  pk_total :: nat

definition group_public_key_bytes :: "('a, 'vk) key_backend \<Rightarrow> ('a, 'vk) proto_key_material \<Rightarrow> bytes" where
  "group_public_key_bytes K m = encode_uncompressed K (pk_group_verifying_key m)"

definition nonzero_scalar :: "'a::field \<Rightarrow> 'a" where
  "nonzero_scalar s = (if s = 0 then 1 else s)"

definition contributions :: "nat \<Rightarrow> (nat \<Rightarrow> 'a::field \<times> 'a) \<Rightarrow> 'a list \<times> 'a list" where
  "contributions n draws =
     (map (\<lambda>i. nonzero_scalar (fst (draws i))) [0..<n], map (\<lambda>i. nonzero_scalar (snd (draws i))) [0..<n])"

definition share_scalar :: "nat \<Rightarrow> 'a::field list \<Rightarrow> 'a list \<Rightarrow> nat \<Rightarrow> 'a" where
  "share_scalar n a b j = foldl (\<lambda>s i. s + (a ! i + b ! i * of_nat j)) 0 [0..<n]"

definition keygen_shares :: "nat \<Rightarrow> 'a::field list \<Rightarrow> 'a list \<Rightarrow> 'a participant_share list" where
  "keygen_shares n a b =
     map (\<lambda>j. \<lparr>sh_index = word_of_nat j, sh_secret = share_scalar n a b j\<rparr>) [1..<Suc n]"

text \<open>\<open>check\<close> is the debug assertion at the end of \<open>distributed_keygen\<close>.\<close>

definition keygen_core ::
  "('a::field participant_share list \<Rightarrow> 'a \<Rightarrow> ('e, unit) res) \<Rightarrow> ('a, 'vk) key_backend
     \<Rightarrow> (nat \<Rightarrow> 'a \<times> 'a) \<Rightarrow> nat \<Rightarrow> nat \<Rightarrow> ('e, ('a, 'vk) proto_key_material) res" where
  "keygen_core check K draws n t =
     (if \<not> (2 \<le> t \<and> t \<le> n) then Panic
      else if \<not> (n = 3 \<and> t = 2) then Panic
      else
      let (a, b) = contributions n draws;
          x = foldl (+) 0 a
      in res_bind (unwrap (public_of K x)) (\<lambda>group_verifying_key.
         let ethereum_address = proto_ethereum_address K group_verifying_key;
             shares = keygen_shares n a b
         in res_bind (check shares x) (\<lambda>_.
            Ok \<lparr>pk_shares = shares, pk_group_verifying_key = group_verifying_key,
                pk_ethereum_address = ethereum_address, pk_threshold = t, pk_total = n\<rparr>)))"

definition distributed_keygen_seeded ::
  "('a::field, 'vk) key_backend \<Rightarrow> (u64 \<Rightarrow> nat \<Rightarrow> 'a \<times> 'a) \<Rightarrow> nat \<Rightarrow> nat \<Rightarrow> u64
     \<Rightarrow> ('e, ('a, 'vk) proto_key_material) res" where
  "distributed_keygen_seeded K chacha n t seed = keygen_core (\<lambda>_ _. Ok ()) K (chacha seed) n t"

definition distributed_keygen ::
  "build \<Rightarrow> ('a::field, 'vk) key_backend \<Rightarrow> (nat \<Rightarrow> 'a \<times> 'a) \<Rightarrow> nat \<Rightarrow> nat
     \<Rightarrow> ('e, ('a, 'vk) proto_key_material) res" where
  "distributed_keygen b K draws n t =
     keygen_core (\<lambda>shares x. res_bind (lagrange_interpolate_at_zero (take 2 shares)) (\<lambda>check.
       if b = Debug \<and> check \<noteq> x then Panic else Ok ())) K draws n t"

section \<open>Shares of the group secret\<close>

definition group_secret :: "(nat \<Rightarrow> 'a::field \<times> 'a) \<Rightarrow> 'a" where
  "group_secret draws = (\<Sum>i<3. nonzero_scalar (fst (draws i)))"

definition group_slope :: "(nat \<Rightarrow> 'a::field \<times> 'a) \<Rightarrow> 'a" where
  "group_slope draws = (\<Sum>i<3. nonzero_scalar (snd (draws i)))"

lemma upt3: "[0..<3] = [0, 1, 2 :: nat]" "[Suc 0..<4] = [1, 2, 3 :: nat]" "{..<3} = {0, 1, 2 :: nat}"
  by (auto simp: upt_rec)

lemma keygen_values:
  assumes "contributions 3 draws = (a, b)"
  shows "foldl (+) 0 a = group_secret draws"
    and "keygen_shares 3 a b = map (\<lambda>j. \<lparr>sh_index = word_of_nat j,
      sh_secret = group_secret draws + group_slope draws * of_nat j\<rparr>) [1, 2, 3]"
  using assms by (auto simp: contributions_def upt3 group_secret_def group_slope_def keygen_shares_def
      share_scalar_def algebra_simps)

lemma keygen_shares_line:
  assumes "contributions 3 draws = (a, b)" and "s \<in> set (keygen_shares 3 a b)"
  shows "sh_secret s = poly_at [group_secret draws, group_slope draws] (scalar_of (sh_index s))"
  using assms(2) unfolding keygen_values(2) [OF assms(1)]
  by (auto simp: poly_at_def scalar_of_def lessThan_Suc mult.commute)

lemma keygen_shares_recover:
  fixes draws :: "nat \<Rightarrow> 'a::field \<times> 'a"
  assumes "inj (scalar_of :: u8 \<Rightarrow> 'a)" and "contributions 3 draws = (a, b)"
    and "set ss \<subseteq> set (keygen_shares 3 a b)" and "distinct (map sh_index ss)" and "2 \<le> length ss"
  shows "(lagrange_interpolate_at_zero ss :: ('e, 'a) res) = Ok (group_secret draws)"
proof -
  have "(lagrange_interpolate_at_zero ss :: ('e, 'a) res)
      = Ok (poly_at [group_secret draws, group_slope draws] 0)"
    using assms(3-5) keygen_shares_line [OF assms(2)]
    by (intro lagrange_recovers_facts assms(1)) (auto simp: list_all_iff)
  then show ?thesis by (simp add: poly_at_def lessThan_Suc)
qed

lemma distributed_keygen_eq:
  fixes draws :: "nat \<Rightarrow> 'a::field \<times> 'a"
  assumes "inj (scalar_of :: u8 \<Rightarrow> 'a)" and "contributions 3 draws = (a, b)"
  shows "(distributed_keygen bd K draws n t :: ('e, ('a, 'vk) proto_key_material) res) =
    (if n = 3 \<and> t = 2 then res_bind (unwrap (public_of K (group_secret draws))) (\<lambda>vk.
        Ok \<lparr>pk_shares = keygen_shares 3 a b, pk_group_verifying_key = vk,
            pk_ethereum_address = proto_ethereum_address K vk, pk_threshold = 2, pk_total = 3\<rparr>)
     else Panic)"
proof -
  have "set (take 2 (keygen_shares 3 a b)) \<subseteq> set (keygen_shares 3 a b)" by (rule set_take_subset)
  moreover have "distinct (map sh_index (take 2 (keygen_shares 3 a b)))"
      "2 \<le> length (take 2 (keygen_shares 3 a b))"
    by (simp_all add: keygen_values(2) [OF assms(2)])
  ultimately have "(lagrange_interpolate_at_zero (take 2 (keygen_shares 3 a b)) :: ('e, 'a) res)
      = Ok (group_secret draws)"
    by (rule keygen_shares_recover [OF assms])
  then show ?thesis
    by (cases "public_of K (group_secret draws)")
      (auto simp: distributed_keygen_def keygen_core_def assms(2) keygen_values(1) [OF assms(2)])
qed

lemma contributions_pair: obtains a b where "contributions n draws = (a, b)"
  by (cases "contributions n draws") blast

lemma distributed_keygen_Ok:
  fixes draws :: "nat \<Rightarrow> 'a::field \<times> 'a"
  assumes "inj (scalar_of :: u8 \<Rightarrow> 'a)" and "contributions 3 draws = (a, b)"
    and "(distributed_keygen bd K draws n t :: ('e, ('a, 'vk) proto_key_material) res) = Ok m"
  shows "n = 3" and "t = 2" and "pk_shares m = keygen_shares 3 a b" and "pk_threshold m = 2" and "pk_total m = 3"
    and "public_of K (group_secret draws) = Some (pk_group_verifying_key m)"
    and "pk_ethereum_address m = proto_ethereum_address K (pk_group_verifying_key m)"
  using assms(3) unfolding distributed_keygen_eq [OF assms(1,2)]
  by (auto split: if_splits option.splits)

text \<open>
  Any two shares are the key. Key generation succeeds exactly for 2 of 3 with a non-zero group
  secret, and then it returns three shares numbered 1, 2, 3 such that every list of at least
  two distinct shares interpolates to the one secret whose public key is the group key; its
  debug assertion never fires, so debug and release builds agree. Assumes that distinct indices are
  distinct scalars and that a secret key is any non-zero scalar.
\<close>

theorem keygen_any_two_recover:
  fixes draws :: "nat \<Rightarrow> 'a::field \<times> 'a"
  assumes "inj (scalar_of :: u8 \<Rightarrow> 'a)" and "public_key_law K"
  shows "if n = 3 \<and> t = 2 \<and> group_secret draws \<noteq> 0
    then \<exists>m. \<forall>bd. (distributed_keygen bd K draws n t :: ('e, ('a, 'vk) proto_key_material) res) = Ok m
      \<and> public_of K (group_secret draws) = Some (pk_group_verifying_key m)
      \<and> map sh_index (pk_shares m) = [1, 2, 3]
      \<and> (\<forall>ss. set ss \<subseteq> set (pk_shares m) \<and> distinct (map sh_index ss) \<and> pk_threshold m \<le> length ss
          \<longrightarrow> (lagrange_interpolate_at_zero ss :: ('e, 'a) res) = Ok (group_secret draws))
    else \<forall>bd. (distributed_keygen bd K draws n t :: ('e, ('a, 'vk) proto_key_material) res) = Panic"
proof -
  obtain a b where ab: "contributions 3 draws = (a, b)" by (rule contributions_pair)
  note eq = distributed_keygen_eq [OF assms(1) ab]
  show ?thesis
  proof (cases "n = 3 \<and> t = 2 \<and> group_secret draws \<noteq> 0")
    case True
    then obtain vk where vk: "public_of K (group_secret draws) = Some vk"
      using assms(2) by (auto simp: public_key_law_def)
    show ?thesis using True vk keygen_shares_recover [OF assms(1) ab, where 'e = 'e]
      by (simp add: eq keygen_values(2) [OF ab])
  next
    case False
    moreover have "public_of K 0 = None" using assms(2) by (simp add: public_key_law_def)
    ultimately show ?thesis by (auto simp: eq)
  qed
qed

text \<open>Keys of a toy backend: a public key is its secret.\<close>

definition toy_keys :: "(rat, rat) key_backend" where
  "toy_keys = \<lparr>public_of = (\<lambda>x. if x = 0 then None else Some x), encode_uncompressed = (\<lambda>_. replicate 65 4),
     kb_keccak = (\<lambda>_. replicate 32 0)\<rparr>"

lemma toy_keys_law: "public_key_law toy_keys"
  by (simp add: public_key_law_def toy_keys_def)

definition toy_draws :: "nat \<Rightarrow> rat \<times> rat" where
  "toy_draws i = (of_nat i + 5, 2)"

lemma toy_secret: "group_secret toy_draws = 18" "group_slope toy_draws = 6"
  by (simp_all add: group_secret_def group_slope_def upt3 toy_draws_def nonzero_scalar_def)

theorem keygen_any_two_recover_witness:
  "\<exists>m. (distributed_keygen Debug toy_keys toy_draws 3 2 :: (unit, (rat, rat) proto_key_material) res) = Ok m
    \<and> pk_group_verifying_key m = 18"
proof -
  have "public_of toy_keys (group_secret toy_draws) = Some 18" by (simp add: toy_keys_def toy_secret)
  with keygen_any_two_recover [OF scalar_of_inj_rat toy_keys_law, where draws = toy_draws and n = 3 and t = 2
      and 'e = unit] toy_secret
  show ?thesis by auto
qed

text \<open>
  Claim C28. One share hides the key. If key generation gives a participant a share, then shifting the first
  participant's draws by \<open>d\<close> times the index and by \<open>- d\<close> gives the same share and a group
  secret larger by \<open>d\<close> times the index: for every \<open>d\<close> (as long as no draw becomes zero,
  which the code would replace by one) there is an equally consistent other key.
\<close>

theorem keygen_share_hides:
  fixes draws :: "nat \<Rightarrow> 'a::field \<times> 'a"
  assumes "inj (scalar_of :: u8 \<Rightarrow> 'a)"
    and "(distributed_keygen bd K draws 3 2 :: ('e, ('a, 'vk) proto_key_material) res) = Ok m"
    and "s \<in> set (pk_shares m)" and "draws 0 = (u, w)" and "u \<noteq> 0" and "w \<noteq> 0"
    and "draws' = draws(0 := (u + d * scalar_of (sh_index s), w - d))"
    and "u + d * scalar_of (sh_index s) \<noteq> 0" and "w \<noteq> d"
    and "(distributed_keygen bd K draws' 3 2 :: ('e, ('a, 'vk) proto_key_material) res) = Ok m'"
  shows "s \<in> set (pk_shares m')
    \<and> public_of K (group_secret draws) = Some (pk_group_verifying_key m)
    \<and> public_of K (group_secret draws + d * scalar_of (sh_index s)) = Some (pk_group_verifying_key m')"
proof -
  obtain a b where ab: "contributions 3 draws = (a, b)" by (rule contributions_pair)
  obtain a' b' where ab': "contributions 3 draws' = (a', b')" by (rule contributions_pair)
  let ?x = "scalar_of (sh_index s) :: 'a"
  have sec: "group_secret draws' = group_secret draws + d * ?x" "group_slope draws' = group_slope draws - d"
    using assms(4-9) by (simp_all add: group_secret_def group_slope_def upt3 nonzero_scalar_def)
  note ok = distributed_keygen_Ok [OF assms(1) ab assms(2)]
  note ok' = distributed_keygen_Ok [OF assms(1) ab' assms(10)]
  have "s \<in> (\<lambda>j. \<lparr>sh_index = word_of_nat j, sh_secret = group_secret draws + group_slope draws * of_nat j\<rparr>)
      ` set [1, 2, 3]"
    using assms(3) unfolding ok(3) keygen_values(2) [OF ab] set_map .
  then obtain j where s: "s = \<lparr>sh_index = word_of_nat j,
      sh_secret = group_secret draws + group_slope draws * of_nat j\<rparr>" and j0: "j \<in> set [1, 2, 3]"
    by (rule imageE)
  from j0 have j: "j \<in> {1, 2, 3}" by simp
  with s have x: "?x = of_nat j" by (auto simp: scalar_of_def)
  have "group_secret draws' + group_slope draws' * of_nat j = sh_secret s"
    unfolding sec x using s by (simp add: algebra_simps)
  with j s have "s \<in> set (pk_shares m')"
    unfolding ok'(3) keygen_values(2) [OF ab'] by auto
  then show ?thesis using ok(6) ok'(6) sec(1) by simp
qed

theorem keygen_share_hides_witness:
  "public_of toy_keys (group_secret toy_draws + 1 * scalar_of 2) = Some 20"
proof -
  let ?e = "\<lambda>dr vk. Ok \<lparr>pk_shares = keygen_shares 3 (fst (contributions 3 dr)) (snd (contributions 3 dr)),
    pk_group_verifying_key = vk, pk_ethereum_address = proto_ethereum_address toy_keys vk,
    pk_threshold = 2, pk_total = 3\<rparr> :: (unit, (rat, rat) proto_key_material) res"
  let ?d = "toy_draws(0 := (7, 1))"
  have s': "group_secret ?d = 20"
    by (simp add: group_secret_def upt3 toy_draws_def nonzero_scalar_def scalar_of_def)
  have k: "distributed_keygen Debug toy_keys toy_draws 3 2 = ?e toy_draws 18"
      "distributed_keygen Debug toy_keys ?d 3 2 = ?e ?d 20"
    by (simp_all add: distributed_keygen_eq [OF scalar_of_inj_rat surjective_pairing] s' toy_secret toy_keys_def)
  have mem: "\<lparr>sh_index = 2, sh_secret = 30\<rparr>
      \<in> set (keygen_shares 3 (fst (contributions 3 toy_draws)) (snd (contributions 3 toy_draws)))"
    by (simp add: keygen_values(2) [OF surjective_pairing] toy_secret)
  have "public_of toy_keys (group_secret toy_draws + 1 * scalar_of (sh_index \<lparr>sh_index = 2, sh_secret = 30 :: rat\<rparr>))
      = Some 20"
    using keygen_share_hides [where s = "\<lparr>sh_index = 2, sh_secret = 30\<rparr>" and d = 1 and u = 5 and w = 2
        and draws' = ?d, OF scalar_of_inj_rat k(1) _ _ _ _ _ _ _ k(2)] mem
    by (simp add: toy_draws_def scalar_of_def)
  then show ?thesis by simp
qed

end
