(* ===== verification/Proto_Session.thy ===== *)
theory Proto_Session
  imports Tss_Session
begin

text \<open>
  Sessions and transcripts of the prototype crate (\<open>crates/keymesh-tss-proto/src/session.rs\<close>,
  \<open>transcript.rs\<close>). The crate declares its own copies of the session types, field for field those of
  \<open>keymesh-tss\<close>: the binding and the session id are shared here with \<open>Tss_Session\<close>, everything that
  computes is written out again and compared.
\<close>

definition proto_write_u256_be :: "bytes \<Rightarrow> u64 \<Rightarrow> bytes" where
  "proto_write_u256_be out v = out @ (replicate 24 0 @ u64_be v)"

definition proto_derive_session_id :: "(bytes \<Rightarrow> bytes) \<Rightarrow> session_binding \<Rightarrow> tss_session_id" where
  "proto_derive_session_id keccak b =
     (let preimage = [];
          preimage = preimage @ sb_wallet b;
          preimage = proto_write_u256_be preimage (sb_chain_id b);
          preimage = proto_write_u256_be preimage (sb_nonce b);
          preimage = preimage @ sb_digest b;
          preimage = proto_write_u256_be preimage (sb_policy_version b);
          preimage = preimage @ str_bytes (sb_protocol_version b);
          preimage = preimage @ sb_random b
      in TssSessionId (keccak preimage))"

datatype proto_session_status = ProtoStarted | ProtoCompleted | ProtoAborted | ProtoFailed

record proto_signing_session =
  pss_session_id :: tss_session_id
  pss_binding :: session_binding
  pss_participants :: "u8 list"
  pss_threshold :: nat
  pss_status :: proto_session_status

definition proto_session_new ::
  "(bytes \<Rightarrow> bytes) \<Rightarrow> session_binding \<Rightarrow> u8 list \<Rightarrow> nat \<Rightarrow> proto_signing_session" where
  "proto_session_new keccak binding participants threshold =
     \<lparr>pss_session_id = proto_derive_session_id keccak binding, pss_binding = binding,
      pss_participants = participants, pss_threshold = threshold, pss_status = ProtoStarted\<rparr>"

definition proto_transition ::
  "proto_signing_session \<Rightarrow> proto_session_status \<Rightarrow> proto_signing_session \<times> (string, unit) res" where
  "proto_transition s target =
     (if pss_status s \<noteq> ProtoStarted then (s, Err ''cannot transition from terminal'')
      else if target = ProtoStarted then (s, Err ''cannot transition back to Started'')
      else (s\<lparr>pss_status := target\<rparr>, Ok ()))"

interpretation proto_session: one_shot
    "\<lambda>s t. if is_ok (snd (proto_transition s t)) then Some (fst (proto_transition s t)) else None"
    pss_status ProtoStarted "\<lambda>s. s\<lparr>pss_status := ProtoStarted\<rparr>"
  by unfold_locales (auto simp: proto_transition_def)

section \<open>The two crates agree\<close>

text \<open>What a session of the prototype is in \<open>keymesh-tss\<close>.\<close>

primrec tss_status_of :: "proto_session_status \<Rightarrow> tss_session_status" where
  "tss_status_of ProtoStarted = TssStarted"
| "tss_status_of ProtoCompleted = TssCompleted"
| "tss_status_of ProtoAborted = TssAborted"
| "tss_status_of ProtoFailed = TssFailed"

definition tss_session_of :: "proto_signing_session \<Rightarrow> tss_signing_session" where
  "tss_session_of s = \<lparr>ts_session_id = pss_session_id s, ts_binding = pss_binding s,
     ts_participants = pss_participants s, ts_threshold = pss_threshold s,
     ts_status = tss_status_of (pss_status s)\<rparr>"

lemma tss_status_of_start [simp]: "tss_status_of t = TssStarted \<longleftrightarrow> t = ProtoStarted"
  by (cases t) simp_all

lemma proto_derive_session_id_eq: "proto_derive_session_id keccak b = derive_session_id keccak b"
  by (simp add: proto_derive_session_id_def proto_write_u256_be_def derive_session_id_def
      session_preimage_eq Let_def)

lemma proto_transition_sim:
  "tss_transition (tss_session_of s) (tss_status_of t)
    = (tss_session_of (fst (proto_transition s t)), snd (proto_transition s t))"
  by (simp add: proto_transition_def tss_transition_def tss_session_of_def)

text \<open>
  Claim C39. The prototype and the real crate agree on sessions. A session of the prototype for a binding has
  the id that \<open>keymesh-tss\<close> derives, and after any sequence of transitions, successful or refused, it
  is the session that \<open>keymesh-tss\<close> has after the same sequence.
\<close>

theorem proto_sessions_agree:
  "tss_session_of (foldl (\<lambda>s t. fst (proto_transition s t)) (proto_session_new keccak b ps n) ts)
    = foldl (\<lambda>s t. fst (tss_transition s t)) (tss_session_new keccak b ps n) (map tss_status_of ts)"
proof -
  have "tss_session_of (foldl (\<lambda>s t. fst (proto_transition s t)) s ts)
      = foldl (\<lambda>s t. fst (tss_transition s t)) (tss_session_of s) (map tss_status_of ts)" for s
    by (induction ts arbitrary: s) (simp_all add: proto_transition_sim)
  moreover have "tss_session_of (proto_session_new keccak b ps n) = tss_session_new keccak b ps n"
    by (simp add: tss_session_of_def proto_session_new_def tss_session_new_def proto_derive_session_id_eq)
  ultimately show ?thesis by simp
qed

end
