(* ===== verification/Proto_Signing.thy ===== *)
theory Proto_Signing
  imports Proto_Dkg Proto_Session Tss_Signing
begin

text \<open>
  Signing in the prototype (\<open>crates/keymesh-tss-proto/src/signature.rs\<close>, \<open>transcript.rs\<close>): the key
  is interpolated from the shares and signs with \<open>k256\<close>, whose operations are the parameter record
  \<open>proto_ecdsa\<close>. The crate's \<open>ThresholdSignature\<close> has the fields of the one in \<open>keymesh-tss\<close> and
  is shared with \<open>Tss_Signing\<close>, as are its two constants, the group order and its half.
\<close>

record ('a, 'sk, 'es, 'rid, 'vk) proto_ecdsa =
  scalar_repr :: "'a \<Rightarrow> bytes"
  scalar_of_repr :: "bytes \<Rightarrow> 'a option"
  key_of_bytes :: "bytes \<Rightarrow> (string, 'sk) res"
  sign_prehash :: "'sk \<Rightarrow> bytes \<Rightarrow> (string, 'es \<times> 'rid) res"
  sig_to_bytes :: "'es \<Rightarrow> bytes"
  sig_of_bytes :: "bytes \<Rightarrow> 'es option"
  recid_to_byte :: "'rid \<Rightarrow> u8"
  recid_of_byte :: "u8 \<Rightarrow> 'rid option"
  recover_prehash :: "bytes \<Rightarrow> 'es \<Rightarrow> 'rid \<Rightarrow> (string, 'vk) res"

definition to_bytes_65 :: "threshold_signature \<Rightarrow> bytes" where
  "to_bytes_65 sg = sg_r sg @ sg_s sg @ [sg_v sg]"

definition proto_s_is_low :: "threshold_signature \<Rightarrow> bool" where
  "proto_s_is_low sg \<longleftrightarrow> bytes_le (sg_s sg) HALF_N"

fun distinct_loop :: "u8 set \<Rightarrow> 'a participant_share list \<Rightarrow> (string, unit) res" where
  "distinct_loop seen [] = Ok ()"
| "distinct_loop seen (s # rest) =
     (if sh_index s \<in> seen then Err ''duplicate participant''
      else distinct_loop (insert (sh_index s) seen) rest)"

text \<open>The loop that compares \<open>s\<close> with half the order, byte by byte from the most significant.\<close>

fun is_high_loop :: "bytes \<Rightarrow> bytes \<Rightarrow> bool" where
  "is_high_loop (x # s) (h # half) =
     (if h < x then True else if x < h then False else is_high_loop s half)"
| "is_high_loop s half = False"

definition proto_threshold_sign ::
  "build \<Rightarrow> (bytes \<Rightarrow> bytes) \<Rightarrow> ('a::field, 'sk, 'es, 'rid, 'vk) proto_ecdsa
     \<Rightarrow> 'a participant_share list \<Rightarrow> 'vk \<Rightarrow> session_binding \<Rightarrow> tss_session_id \<Rightarrow> nat
     \<Rightarrow> (string, threshold_signature) res" where
  "proto_threshold_sign b keccak G shares group_vk binding session_id threshold =
     (if length shares < threshold
      then Err (''insufficient shares: have '' @ show_nat (length shares) @ '', need '' @ show_nat threshold)
      else res_bind (distinct_loop {} shares) (\<lambda>_.
        let derived = proto_derive_session_id keccak binding in
        if derived \<noteq> session_id then Err ''session_id does not match binding''
        else
        res_bind (lagrange_interpolate_at_zero shares) (\<lambda>x_scalar.
        let x_bytes = scalar_repr G x_scalar in
        res_bind (map_err (\<lambda>e. ''scalar to key: '' @ e) (key_of_bytes G x_bytes)) (\<lambda>signing_key.
        let digest = sb_digest binding in
        res_bind (map_err (\<lambda>e. ''sign: '' @ e) (sign_prehash G signing_key digest)) (\<lambda>(sg, recid).
        let sig_bytes = sig_to_bytes G sg; r = take 32 sig_bytes; s = take 32 (drop 32 sig_bytes);
            is_high = is_high_loop s HALF_N
        in
        res_bind (add_u8 b (recid_to_byte G recid) 27) (\<lambda>v.
        res_bind (if is_high
            then res_bind (unwrap (scalar_of_repr G s)) (\<lambda>s_scalar.
                 res_bind (unwrap (scalar_of_repr G ORDER_N)) (\<lambda>n_scalar.
                   Ok (scalar_repr G (n_scalar - s_scalar), v XOR 1)))
            else Ok (s, v)) (\<lambda>(s, v).
        res_bind (sub_u8 b v 27) (\<lambda>rec_byte.
        res_bind (unwrap (recid_of_byte G rec_byte)) (\<lambda>rec.
        res_bind (unwrap (sig_of_bytes G (r @ s))) (\<lambda>signature.
        res_bind (map_err (\<lambda>e. ''recover: '' @ e) (recover_prehash G digest signature rec)) (\<lambda>recovered.
        if recovered \<noteq> group_vk then Err ''recovered key mismatch''
        else Ok \<lparr>sg_r = r, sg_s = s, sg_v = v, sg_digest = digest, sg_session_id = session_id\<rparr>)))))))))))"

definition proto_verify_signature ::
  "build \<Rightarrow> ('a, 'sk, 'es, 'rid, 'vk) proto_ecdsa \<Rightarrow> bytes \<Rightarrow> threshold_signature \<Rightarrow> 'vk
     \<Rightarrow> (string, bool) res" where
  "proto_verify_signature b G digest sg vk =
     (if sg_digest sg \<noteq> digest then Ok False
      else case sig_of_bytes G (sg_r sg @ sg_s sg) of
        None \<Rightarrow> Ok False
      | Some signature \<Rightarrow>
          res_bind (sub_u8 b (sg_v sg) 27) (\<lambda>v.
            case recid_of_byte G v of
              None \<Rightarrow> Ok False
            | Some rec \<Rightarrow>
                (case recover_prehash G digest signature rec of
                   Ok recovered \<Rightarrow> Ok (recovered = vk)
                 | Err e \<Rightarrow> Ok False
                 | Panic \<Rightarrow> Panic)))"

section \<open>Transcripts\<close>

definition proto_transcript_new_success ::
  "u8 list \<Rightarrow> tss_session_id \<Rightarrow> bytes \<Rightarrow> u64 \<Rightarrow> bytes \<Rightarrow> u64 \<Rightarrow> u64 \<Rightarrow> threshold_signature \<Rightarrow> signing_transcript" where
  "proto_transcript_new_success participants session_id digest chain_id wallet nonce policy_version sg =
     \<lparr>tr_participant_indices = participants, tr_protocol_version = ''cggmp21/v1'',
      tr_session_id = session_id, tr_digest = digest, tr_chain_id = chain_id, tr_wallet = wallet,
      tr_nonce = nonce, tr_policy_version = policy_version, tr_round_count = 3,
      tr_message_types = [''SessionEstablish'', ''Round1'', ''Round2''],
      tr_message_ordering = [''1->2'', ''2->1''], tr_final_signature = Some sg, tr_status = ''Completed''\<rparr>"

section \<open>The guards and the result\<close>

text \<open>The documented behaviour of \<open>from_repr\<close>, as in \<open>Tss_Signing\<close>.\<close>

definition reprs_canonical :: "('a, 'sk, 'es, 'rid, 'vk) proto_ecdsa \<Rightarrow> bool" where
  "reprs_canonical G \<longleftrightarrow> (\<forall>bs. be_nat ORDER_N \<le> be_nat bs \<longrightarrow> scalar_of_repr G bs = None)"

lemma distinct_loop_Ok:
  "distinct_loop seen shares = (if distinct (map sh_index shares) \<and> seen \<inter> sh_index ` set shares = {}
     then Ok () else Err ''duplicate participant'')"
  by (induction shares arbitrary: seen) auto

lemma is_high_loop_eq:
  "length s = length half \<Longrightarrow> is_high_loop s half \<longleftrightarrow> \<not> bytes_le s half"
  by (induction s half rule: is_high_loop.induct) (auto simp: not_less)

lemma proto_high_branch:
  assumes "reprs_canonical G"
  shows "(if high then res_bind (unwrap (scalar_of_repr G s)) (\<lambda>s_scalar.
          res_bind (unwrap (scalar_of_repr G ORDER_N)) (\<lambda>n_scalar.
            Ok (scalar_repr G (n_scalar - s_scalar), v XOR 1)))
      else Ok (s, v)) = (if high then Panic else Ok (s, v))"
  using assms by (cases "scalar_of_repr G s") (auto simp: reprs_canonical_def)

lemma proto_sign_cases:
  assumes "proto_threshold_sign b keccak G shares vk binding sid t = Ok sg" and "reprs_canonical G"
    and "\<forall>x. length (sig_to_bytes G x) = 64"
  obtains es v rec where "t \<le> length shares" "distinct (map sh_index shares)"
    "sid = derive_session_id keccak binding" "bytes_le (sg_s sg) HALF_N"
    "sg_session_id sg = sid" "sg_digest sg = sb_digest binding"
    "sub_u8 b (sg_v sg) 27 = (Ok v :: (string, u8) res)" "recid_of_byte G v = Some rec"
    "sig_of_bytes G (sg_r sg @ sg_s sg) = Some es" "recover_prehash G (sb_digest binding) es rec = Ok vk"
proof -
  have len: "length (take 32 (drop 32 (sig_to_bytes G x))) = length HALF_N" for x
    using assms(3) by (simp add: HALF_N_def)
  from assms(1) show thesis
    unfolding proto_threshold_sign_def Let_def proto_high_branch [OF assms(2)] is_high_loop_eq [OF len]
    by (auto split: if_splits prod.splits simp: distinct_loop_Ok proto_derive_session_id_eq intro!: that)
qed

text \<open>
  Prototype signing is sound. A signature comes only from at least a threshold of shares with
  distinct indices, for the session id of the given binding; it carries the binding's digest and
  session, has a low \<open>s\<close>, and verifies under the given group key. Assumes that a value that is not
  reduced is no scalar and that signatures are 64 bytes.
\<close>

theorem proto_sign_sound:
  assumes "proto_threshold_sign b keccak G shares vk binding sid t = Ok sg" and "reprs_canonical G"
    and "\<forall>x. length (sig_to_bytes G x) = 64"
  shows "t \<le> length shares \<and> distinct (map sh_index shares) \<and> sid = derive_session_id keccak binding
    \<and> sg_session_id sg = sid \<and> sg_digest sg = sb_digest binding \<and> proto_s_is_low sg
    \<and> proto_verify_signature b G (sb_digest binding) sg vk = Ok True"
  using assms
  by (rule proto_sign_cases) (simp add: proto_s_is_low_def proto_verify_signature_def)

section \<open>Any quorum signs\<close>

text \<open>
  The documented behaviour of \<open>k256\<close>: a non-zero scalar is a signing key, whose recoverable
  signatures are deterministic, have a low \<open>s\<close>, survive encoding, and recover its public key.
\<close>

definition ecdsa_signs :: "('a::field, 'vk) key_backend \<Rightarrow> ('a, 'sk, 'es, 'rid, 'vk) proto_ecdsa \<Rightarrow> bool" where
  "ecdsa_signs K G \<longleftrightarrow> (\<forall>x vk digest. public_of K x = Some vk \<longrightarrow>
     (\<exists>k es rid. key_of_bytes G (scalar_repr G x) = Ok k \<and> sign_prehash G k digest = Ok (es, rid)
       \<and> length (sig_to_bytes G es) = 64 \<and> bytes_le (drop 32 (sig_to_bytes G es)) HALF_N
       \<and> sig_of_bytes G (sig_to_bytes G es) = Some es
       \<and> recid_to_byte G rid \<le> 3 \<and> recid_of_byte G (recid_to_byte G rid) = Some rid
       \<and> recover_prehash G digest es rid = Ok vk))"

lemma add_sub_recid: "rid \<le> 3 \<Longrightarrow> (add_u8 b rid 27 :: ('e, u8) res) = Ok (rid + 27)"
    "rid \<le> 3 \<Longrightarrow> (sub_u8 b (rid + 27) 27 :: ('e, u8) res) = Ok rid" for rid :: u8
proof -
  assume le: "rid \<le> 3"
  then have u: "unat rid \<le> 3" by (simp add: word_le_nat_alt)
  then have p: "unat (rid + 27) = unat rid + 27" by (simp add: unat_word_ariths(1))
  show "(add_u8 b rid 27 :: ('e, u8) res) = Ok (rid + 27)" using u by (simp add: add_u8_def)
  show "(sub_u8 b (rid + 27) 27 :: ('e, u8) res) = Ok rid"
    using p by (simp add: sub_u8_def word_le_nat_alt)
qed

lemma proto_sign_eq:
  fixes G :: "('a::field, 'sk, 'es, 'rid, 'vk) proto_ecdsa"
  assumes "ecdsa_signs K G" and "public_of K x = Some vk"
  obtains sg k es rid where "sg_session_id sg = derive_session_id keccak binding"
    and "sign_prehash G k (sb_digest binding) = Ok (es, rid)"
    and "sg = \<lparr>sg_r = take 32 (sig_to_bytes G es), sg_s = drop 32 (sig_to_bytes G es),
      sg_v = recid_to_byte G rid + 27, sg_digest = sb_digest binding,
      sg_session_id = derive_session_id keccak binding\<rparr>" and "proto_s_is_low sg"
    and "proto_verify_signature b G (sb_digest binding) sg vk = Ok True"
    and "\<And>shares. t \<le> length shares \<Longrightarrow> distinct (map sh_index shares)
      \<Longrightarrow> lagrange_interpolate_at_zero shares = (Ok x :: (string, 'a) res)
      \<Longrightarrow> proto_threshold_sign b keccak G shares w binding (derive_session_id keccak binding) t
        = (if w = vk then Ok sg else Err ''recovered key mismatch'')"
proof -
  from assms obtain k es rid where k: "key_of_bytes G (scalar_repr G x) = Ok k"
      "sign_prehash G k (sb_digest binding) = Ok (es, rid)"
    and len: "length (sig_to_bytes G es) = 64" and low: "bytes_le (drop 32 (sig_to_bytes G es)) HALF_N"
    and dec: "sig_of_bytes G (sig_to_bytes G es) = Some es"
    and rid: "recid_to_byte G rid \<le> 3" "recid_of_byte G (recid_to_byte G rid) = Some rid"
    and rec: "recover_prehash G (sb_digest binding) es rid = Ok vk"
    unfolding ecdsa_signs_def by blast
  define sg where "sg = \<lparr>sg_r = take 32 (sig_to_bytes G es), sg_s = drop 32 (sig_to_bytes G es),
    sg_v = recid_to_byte G rid + 27, sg_digest = sb_digest binding,
    sg_session_id = derive_session_id keccak binding\<rparr>"
  have s: "take 32 (drop 32 (sig_to_bytes G es)) = drop 32 (sig_to_bytes G es)" using len by simp
  have "\<not> is_high_loop (drop 32 (sig_to_bytes G es)) HALF_N"
    using low len by (subst is_high_loop_eq) (simp_all add: HALF_N_def)
  then have "proto_threshold_sign b keccak G shares w binding (derive_session_id keccak binding) t
      = (if w = vk then Ok sg else Err ''recovered key mismatch'')"
    if "t \<le> length shares" "distinct (map sh_index shares)"
      "lagrange_interpolate_at_zero shares = (Ok x :: (string, 'a) res)" for shares
    using that unfolding proto_threshold_sign_def
    by (simp add: Let_def distinct_loop_Ok proto_derive_session_id_eq k s dec rid rec add_sub_recid sg_def
        del: res_bind_Ok_iff)
  moreover have "proto_verify_signature b G (sb_digest binding) sg vk = Ok True"
    by (simp add: proto_verify_signature_def sg_def dec rid rec add_sub_recid del: res_bind_Ok_iff)
  ultimately show thesis
    using k(2) low by (intro that [of sg k es rid]) (simp_all add: sg_def proto_s_is_low_def)
qed

text \<open>What key generation and signing give, with the parts of the signature.\<close>

lemma quorum_signs_facts:
  fixes draws :: "nat \<Rightarrow> 'a::field \<times> 'a" and G :: "('a, 'sk, 'es, 'rid, 'vk) proto_ecdsa"
  assumes inj: "inj (scalar_of :: u8 \<Rightarrow> 'a)" and law: "ecdsa_signs K G"
    and keygen: "(distributed_keygen bd K draws n t :: (string, ('a, 'vk) proto_key_material) res) = Ok m"
    and sid: "sid = derive_session_id keccak binding"
  obtains sg k es rid where "sign_prehash G k (sb_digest binding) = Ok (es, rid)"
    "sg = \<lparr>sg_r = take 32 (sig_to_bytes G es), sg_s = drop 32 (sig_to_bytes G es),
      sg_v = recid_to_byte G rid + 27, sg_digest = sb_digest binding, sg_session_id = sid\<rparr>" "proto_s_is_low sg"
    "proto_verify_signature b G (sb_digest binding) sg (pk_group_verifying_key m) = Ok True
    \<and> (\<forall>ss. set ss \<subseteq> set (pk_shares m) \<longrightarrow>
        proto_threshold_sign b keccak G ss (pk_group_verifying_key m) binding sid (pk_threshold m)
          = (if length ss < pk_threshold m
             then Err (''insufficient shares: have '' @ show_nat (length ss) @ '', need '' @ show_nat 2)
             else if distinct ss then Ok sg else Err ''duplicate participant''))"
proof -
  obtain a c where ac: "contributions 3 draws = (a, c)" by (rule contributions_pair)
  note ok = distributed_keygen_Ok [OF inj ac keygen]
  have inj_on: "inj_on sh_index (set (pk_shares m))"
    unfolding ok(3) keygen_values(2) [OF ac] by (auto simp: inj_on_def)
  from proto_sign_eq [OF law ok(6), where keccak = keccak and binding = binding and b = b and t = 2
      and w = "pk_group_verifying_key m", simplified refl if_True]
  obtain sg k es rid where sg: "sign_prehash G k (sb_digest binding) = Ok (es, rid)"
      "sg = \<lparr>sg_r = take 32 (sig_to_bytes G es), sg_s = drop 32 (sig_to_bytes G es),
        sg_v = recid_to_byte G rid + 27, sg_digest = sb_digest binding, sg_session_id = sid\<rparr>" "proto_s_is_low sg"
    and v: "proto_verify_signature b G (sb_digest binding) sg (pk_group_verifying_key m) = Ok True"
    and sign: "\<And>shares. 2 \<le> length shares \<Longrightarrow> distinct (map sh_index shares)
      \<Longrightarrow> lagrange_interpolate_at_zero shares = (Ok (group_secret draws) :: (string, 'a) res)
      \<Longrightarrow> proto_threshold_sign b keccak G shares (pk_group_verifying_key m) binding sid 2 = Ok sg"
    unfolding sid by metis
  have "proto_threshold_sign b keccak G ss (pk_group_verifying_key m) binding sid 2
      = (if length ss < 2
         then Err (''insufficient shares: have '' @ show_nat (length ss) @ '', need '' @ show_nat 2)
         else if distinct ss then Ok sg else Err ''duplicate participant'')"
    if sub: "set ss \<subseteq> set (pk_shares m)" for ss
  proof -
    have d: "distinct (map sh_index ss) \<longleftrightarrow> distinct ss"
      using inj_on_subset [OF inj_on sub] by (simp add: distinct_map)
    show ?thesis
    proof (cases "2 \<le> length ss \<and> distinct ss")
      case True
      then have "lagrange_interpolate_at_zero ss = (Ok (group_secret draws) :: (string, 'a) res)"
        using keygen_shares_recover [OF inj ac sub [unfolded ok(3)], where 'e = string] d by blast
      then show ?thesis using True d sign by auto
    next
      case False
      then show ?thesis by (auto simp: proto_threshold_sign_def distinct_loop_Ok d)
    qed
  qed
  then show thesis using v ok(4) by (intro that [OF sg]) auto
qed

text \<open>
  Claim C13. Key generation and signing together. With the shares of one key generation, every quorum
  of distinct shares signs a binding with one and the same signature, which verifies under the
  group key; fewer shares than the threshold are refused, and so is a repeated share. Assumes the
  documented behaviour of the curve library.
\<close>

theorem proto_any_quorum_signs:
  fixes draws :: "nat \<Rightarrow> 'a::field \<times> 'a" and G :: "('a, 'sk, 'es, 'rid, 'vk) proto_ecdsa"
  assumes inj: "inj (scalar_of :: u8 \<Rightarrow> 'a)" and law: "ecdsa_signs K G"
    and keygen: "(distributed_keygen bd K draws n t :: (string, ('a, 'vk) proto_key_material) res) = Ok m"
    and sid: "sid = derive_session_id keccak binding"
  shows "\<exists>sg. proto_verify_signature b G (sb_digest binding) sg (pk_group_verifying_key m) = Ok True
    \<and> (\<forall>ss. set ss \<subseteq> set (pk_shares m) \<longrightarrow>
        proto_threshold_sign b keccak G ss (pk_group_verifying_key m) binding sid (pk_threshold m)
          = (if length ss < pk_threshold m
             then Err (''insufficient shares: have '' @ show_nat (length ss) @ '', need '' @ show_nat 2)
             else if distinct ss then Ok sg else Err ''duplicate participant''))"
  by (rule quorum_signs_facts [OF assms]) blast

text \<open>A toy curve with one public key: every non-zero scalar signs with the same signature.\<close>

definition unit_keys :: "(rat, unit) key_backend" where
  "unit_keys = \<lparr>public_of = (\<lambda>x. if x = 0 then None else Some ()), encode_uncompressed = (\<lambda>_. replicate 65 4),
     kb_keccak = (\<lambda>_. replicate 32 0)\<rparr>"

definition unit_ecdsa :: "(rat, unit, unit, unit, unit) proto_ecdsa" where
  "unit_ecdsa = \<lparr>scalar_repr = (\<lambda>x. replicate 31 0 @ [if x = 0 then 0 else 1]), scalar_of_repr = (\<lambda>_. None),
     key_of_bytes = (\<lambda>bs. if last bs = 0 then Err ''signature error'' else Ok ()),
     sign_prehash = (\<lambda>_ _. Ok ((), ())), sig_to_bytes = (\<lambda>_. replicate 64 0),
     sig_of_bytes = (\<lambda>_. Some ()), recid_to_byte = (\<lambda>_. 1), recid_of_byte = (\<lambda>_. Some ()),
     recover_prehash = (\<lambda>_ _ _. Ok ())\<rparr>"

lemma zero_low: "bytes_le (replicate 32 0) HALF_N"
  by code_simp

lemma unit_ecdsa_laws: "ecdsa_signs unit_keys unit_ecdsa" "reprs_canonical unit_ecdsa"
  using zero_low by (auto simp: ecdsa_signs_def unit_ecdsa_def unit_keys_def reprs_canonical_def)

definition unit_material :: "(rat, unit) proto_key_material" where
  "unit_material = \<lparr>pk_shares = [\<lparr>sh_index = 1, sh_secret = 24\<rparr>, \<lparr>sh_index = 2, sh_secret = 30\<rparr>,
       \<lparr>sh_index = 3, sh_secret = 36\<rparr>],
     pk_group_verifying_key = (), pk_ethereum_address = replicate 20 0, pk_threshold = 2, pk_total = 3\<rparr>"

lemma unit_keygen:
  "(distributed_keygen Debug unit_keys toy_draws 3 2 :: (string, (rat, unit) proto_key_material) res) = Ok unit_material"
  by (simp add: distributed_keygen_eq [OF scalar_of_inj_rat surjective_pairing]
      keygen_values(2) [OF surjective_pairing] toy_secret unit_keys_def unit_material_def proto_ethereum_address_def)

theorem proto_any_quorum_signs_witness:
  "\<exists>sg. proto_threshold_sign Debug id unit_ecdsa (drop 1 (pk_shares unit_material)) () sample_binding
     (derive_session_id id sample_binding) 2 = Ok sg"
proof -
  have m: "set (drop 1 (pk_shares unit_material)) \<subseteq> set (pk_shares unit_material)"
      "\<not> length (drop 1 (pk_shares unit_material)) < pk_threshold unit_material"
      "distinct (drop 1 (pk_shares unit_material))" "pk_threshold unit_material = 2"
    by (simp_all add: unit_material_def)
  show ?thesis
    using proto_any_quorum_signs [OF scalar_of_inj_rat unit_ecdsa_laws(1) unit_keygen refl,
        where b = Debug and keccak = id and binding = sample_binding] m
    by auto
qed

definition unit_signature :: threshold_signature where
  "unit_signature = \<lparr>sg_r = replicate 32 0, sg_s = replicate 32 0, sg_v = 28,
     sg_digest = sb_digest sample_binding, sg_session_id = derive_session_id id sample_binding\<rparr>"

lemma unit_sign:
  "proto_threshold_sign Debug id unit_ecdsa [\<lparr>sh_index = 1, sh_secret = 49\<rparr>, \<lparr>sh_index = 3, sh_secret = 63\<rparr>] ()
     sample_binding (derive_session_id id sample_binding) 2 = Ok unit_signature"
proof -
  have "(lagrange_interpolate_at_zero [\<lparr>sh_index = 1, sh_secret = 49\<rparr>, \<lparr>sh_index = 3, sh_secret = 63 :: rat\<rparr>]
      :: (string, rat) res) = Ok 42"
    using lagrange_recovers_facts [OF scalar_of_inj_rat, where cs = "[42, 7]"
        and shares = "[\<lparr>sh_index = 1, sh_secret = 49\<rparr>, \<lparr>sh_index = 3, sh_secret = 63 :: rat\<rparr>]"]
    by (simp add: poly_at_def scalar_of_def)
  moreover have "\<not> is_high_loop (replicate 32 0) HALF_N"
    by code_simp
  ultimately show ?thesis
    by (simp add: proto_threshold_sign_def Let_def proto_derive_session_id_eq unit_ecdsa_def unit_signature_def
        add_u8_def sub_u8_def del: res_bind_Ok_iff)
qed

theorem proto_sign_sound_witness:
  "proto_verify_signature Debug unit_ecdsa (sb_digest sample_binding) unit_signature () = Ok True"
  using proto_sign_sound [OF unit_sign unit_ecdsa_laws(2)] by (simp add: unit_ecdsa_def)

end
