(* ===== verification/Sim_Transport.thy ===== *)
theory Sim_Transport
  imports Prelude "HOL-Library.Multiset"
begin

text \<open>
  The simulated transport used for failure injection: \<open>crates/keymesh-tss/src/transport.rs\<close> and
  \<open>crates/keymesh-tss-proto/src/transport.rs\<close>, the same code with a different round limit.
\<close>

record transport_message =
  tm_session_id :: bytes
  tm_sender :: u8
  tm_round :: u8
  tm_payload :: bytes
  tm_digest :: bytes

record simulated_transport =
  sim_messages :: "transport_message list"

definition sim_new :: simulated_transport where
  "sim_new = \<lparr>sim_messages = []\<rparr>"

definition sim_send :: "simulated_transport \<Rightarrow> transport_message \<Rightarrow> simulated_transport" where
  "sim_send t m = t\<lparr>sim_messages := sim_messages t @ [m]\<rparr>"

definition drop_from :: "simulated_transport \<Rightarrow> u8 \<Rightarrow> simulated_transport" where
  "drop_from t sender = t\<lparr>sim_messages := filter (\<lambda>m. tm_sender m \<noteq> sender) (sim_messages t)\<rparr>"

definition duplicate_first :: "simulated_transport \<Rightarrow> simulated_transport" where
  "duplicate_first t =
     (case sim_messages t of
        [] \<Rightarrow> t
      | m # ms \<Rightarrow> t\<lparr>sim_messages := sim_messages t @ [m]\<rparr>)"

definition reorder :: "simulated_transport \<Rightarrow> simulated_transport" where
  "reorder t =
     (case sim_messages t of
        m0 # m1 # ms \<Rightarrow> t\<lparr>sim_messages := m1 # m0 # ms\<rparr>
      | _ \<Rightarrow> t)"

definition modify_first_digest :: "simulated_transport \<Rightarrow> bytes \<Rightarrow> simulated_transport" where
  "modify_first_digest t new_digest =
     (case sim_messages t of
        [] \<Rightarrow> t
      | m # ms \<Rightarrow> t\<lparr>sim_messages := m\<lparr>tm_digest := new_digest\<rparr> # ms\<rparr>)"

fun verify_binding_list ::
  "bytes \<Rightarrow> bytes \<Rightarrow> transport_message list \<Rightarrow> (string, unit) res" where
  "verify_binding_list sess dig [] = Ok ()"
| "verify_binding_list sess dig (m # ms) =
     (if tm_session_id m \<noteq> sess
      then Err (''session mismatch from '' @ show_nat (unat (tm_sender m)))
      else if tm_digest m \<noteq> dig
      then Err (''digest mismatch from '' @ show_nat (unat (tm_sender m)))
      else verify_binding_list sess dig ms)"

definition verify_binding :: "simulated_transport \<Rightarrow> bytes \<Rightarrow> bytes \<Rightarrow> (string, unit) res" where
  "verify_binding t sess dig = verify_binding_list sess dig (sim_messages t)"

fun no_duplicate_list ::
  "(u8 \<times> u8) set \<Rightarrow> transport_message list \<Rightarrow> (string, unit) res" where
  "no_duplicate_list seen [] = Ok ()"
| "no_duplicate_list seen (m # ms) =
     (if (tm_sender m, tm_round m) \<in> seen
      then Err (''duplicate round '' @ show_nat (unat (tm_round m)) @ '' from ''
        @ show_nat (unat (tm_sender m)))
      else no_duplicate_list (insert (tm_sender m, tm_round m) seen) ms)"

definition check_no_duplicate :: "simulated_transport \<Rightarrow> (string, unit) res" where
  "check_no_duplicate t = no_duplicate_list {} (sim_messages t)"

fun round_order_list :: "u8 \<Rightarrow> transport_message list \<Rightarrow> (string, unit) res" where
  "round_order_list limit [] = Ok ()"
| "round_order_list limit (m # ms) =
     (if tm_round m = 0 \<or> limit < tm_round m
      then Err (''invalid round '' @ show_nat (unat (tm_round m)))
      else round_order_list limit ms)"

definition check_round_order :: "simulated_transport \<Rightarrow> (string, unit) res" where
  "check_round_order t = round_order_list 5 (sim_messages t)"

definition proto_check_round_order :: "simulated_transport \<Rightarrow> (string, unit) res" where
  "proto_check_round_order t = round_order_list 3 (sim_messages t)"

section \<open>What the checks accept\<close>

lemma verify_binding_list_Ok:
  "verify_binding_list sess dig ms = Ok () \<longleftrightarrow>
     list_all (\<lambda>m. tm_session_id m = sess \<and> tm_digest m = dig) ms"
  by (induction ms) auto

lemma no_duplicate_list_Ok:
  "no_duplicate_list seen ms = Ok () \<longleftrightarrow>
     distinct (map (\<lambda>m. (tm_sender m, tm_round m)) ms)
       \<and> seen \<inter> set (map (\<lambda>m. (tm_sender m, tm_round m)) ms) = {}"
  by (induction ms arbitrary: seen) auto

lemma round_order_list_Ok:
  "round_order_list limit ms = Ok () \<longleftrightarrow>
     list_all (\<lambda>m. tm_round m \<noteq> 0 \<and> tm_round m \<le> limit) ms"
  by (induction ms) auto

lemmas sim_checks = verify_binding_def check_no_duplicate_def check_round_order_def
  proto_check_round_order_def verify_binding_list_Ok no_duplicate_list_Ok round_order_list_Ok

definition sim_accepts :: "bytes \<Rightarrow> bytes \<Rightarrow> simulated_transport \<Rightarrow> bool" where
  "sim_accepts sess dig t \<longleftrightarrow> verify_binding t sess dig = Ok () \<and> check_no_duplicate t = Ok ()
     \<and> check_round_order t = Ok ()"

text \<open>
  What the checks of the simulated transport detect. On an accepted, non-empty
  transcript, duplicating the first message and changing its digest are both detected. Reordering
  is not: acceptance depends only on which messages are there, not on their order, although one
  of the checks is called \<open>check_round_order\<close>. Dropping a sender's messages goes unnoticed too.
\<close>

theorem sim_faults_detected:
  assumes "sim_accepts sess dig t"
  shows "(sim_messages t \<noteq> [] \<longrightarrow> is_err (check_no_duplicate (duplicate_first t)))
    \<and> (sim_messages t \<noteq> [] \<and> dig' \<noteq> dig
        \<longrightarrow> is_err (verify_binding (modify_first_digest t dig') sess dig))
    \<and> sim_accepts sess dig (drop_from t sender) \<and> sim_accepts sess dig (reorder t)
    \<and> (mset (sim_messages u) = mset (sim_messages t) \<longrightarrow> sim_accepts sess dig u)"
proof (intro conjI impI)
  have perm: "sim_accepts sess dig u" if "mset (sim_messages u) = mset (sim_messages t)" for u
  proof -
    have "set (sim_messages u) = set (sim_messages t)" using that mset_eq_setD by blast
    moreover have "distinct (map f (sim_messages u)) = distinct (map f (sim_messages t))" for f
      :: "transport_message \<Rightarrow> u8 \<times> u8"
      using that by (metis mset_eq_imp_distinct_iff mset_map)
    ultimately show ?thesis using assms by (simp add: sim_accepts_def sim_checks list_all_iff)
  qed
  show "is_err (check_no_duplicate (duplicate_first t))" if ne: "sim_messages t \<noteq> []"
  proof -
    obtain m ms where "sim_messages t = m # ms" using ne by (cases "sim_messages t") auto
    then have "check_no_duplicate (duplicate_first t) \<noteq> Ok ()"
      by (simp add: check_no_duplicate_def no_duplicate_list_Ok duplicate_first_def)
    moreover have "no_duplicate_list seen ms \<noteq> Panic" for seen ms
      by (induction ms arbitrary: seen) auto
    ultimately show ?thesis
      by (cases "check_no_duplicate (duplicate_first t)") (auto simp: check_no_duplicate_def)
  qed
  show "is_err (verify_binding (modify_first_digest t dig') sess dig)"
    if "sim_messages t \<noteq> [] \<and> dig' \<noteq> dig"
    using that assms by (cases "sim_messages t")
      (auto simp: verify_binding_def modify_first_digest_def)
  show "sim_accepts sess dig (drop_from t sender)"
    using assms by (auto simp: sim_accepts_def sim_checks drop_from_def list_all_iff distinct_map
        inj_on_def)
  show "sim_accepts sess dig (reorder t)"
    by (rule perm) (simp add: reorder_def split: list.split)
  show "sim_accepts sess dig u" if "mset (sim_messages u) = mset (sim_messages t)"
    using that by (rule perm)
qed

definition sample_sim :: simulated_transport where
  "sample_sim = sim_send (sim_send sim_new
     \<lparr>tm_session_id = [1], tm_sender = 0, tm_round = 2, tm_payload = [], tm_digest = [7]\<rparr>)
     \<lparr>tm_session_id = [1], tm_sender = 0, tm_round = 1, tm_payload = [], tm_digest = [7]\<rparr>"

theorem sim_faults_detected_witness:
  "sim_accepts [1] [7] (reorder sample_sim)"
proof -
  have "sim_accepts [1] [7] sample_sim"
    by (simp add: sim_accepts_def sim_checks sample_sim_def sim_send_def sim_new_def)
  from sim_faults_detected [OF this] show ?thesis by blast
qed

text \<open>The proto crate's limit is tighter: what it accepts, the other accepts.\<close>

lemma proto_round_order_stricter:
  "proto_check_round_order t = Ok () \<Longrightarrow> check_round_order t = Ok ()"
  by (auto simp: sim_checks list_all_iff word_le_nat_alt)

end
