(* ===== verification/Proto_Transport.thy ===== *)
theory Proto_Transport
  imports Sim_Transport
begin

text \<open>
  The simulated transport of the prototype (\<open>crates/keymesh-tss-proto/src/transport.rs\<close>), written out as
  its own source has it, and its equivalence with the one of \<open>keymesh-tss\<close>: the two agree on every
  sequence of faults and on every check, except that the prototype allows fewer rounds.
\<close>

record proto_message =
  pm_session_id :: bytes
  pm_sender :: u8
  pm_round :: u8
  pm_payload :: bytes
  pm_digest :: bytes

record proto_transport =
  pt_messages :: "proto_message list"

definition proto_new :: proto_transport where
  "proto_new = \<lparr>pt_messages = []\<rparr>"

definition proto_send :: "proto_transport \<Rightarrow> proto_message \<Rightarrow> proto_transport" where
  "proto_send t msg = t\<lparr>pt_messages := pt_messages t @ [msg]\<rparr>"

definition proto_drop_from :: "proto_transport \<Rightarrow> u8 \<Rightarrow> proto_transport" where
  "proto_drop_from t sender = t\<lparr>pt_messages := filter (\<lambda>m. pm_sender m \<noteq> sender) (pt_messages t)\<rparr>"

definition proto_duplicate_first :: "proto_transport \<Rightarrow> proto_transport" where
  "proto_duplicate_first t =
     (if pt_messages t = [] then t else t\<lparr>pt_messages := pt_messages t @ [pt_messages t ! 0]\<rparr>)"

text \<open>\<open>swap(0, 1)\<close> when there are two messages.\<close>

definition proto_reorder :: "proto_transport \<Rightarrow> proto_transport" where
  "proto_reorder t =
     (let ms = pt_messages t in
       if 2 \<le> length ms then t\<lparr>pt_messages := ms[0 := ms ! 1, 1 := ms ! 0]\<rparr> else t)"

definition proto_modify_first_digest :: "proto_transport \<Rightarrow> bytes \<Rightarrow> proto_transport" where
  "proto_modify_first_digest t new_digest =
     (let ms = pt_messages t in
       if ms = [] then t else t\<lparr>pt_messages := ms[0 := (ms ! 0)\<lparr>pm_digest := new_digest\<rparr>]\<rparr>)"

text \<open>A \<open>for\<close> loop that returns the first error of its body.\<close>

fun for_each :: "('s \<Rightarrow> 'a \<Rightarrow> ('e, 's) res) \<Rightarrow> 's \<Rightarrow> 'a list \<Rightarrow> ('e, unit) res" where
  "for_each body s [] = Ok ()"
| "for_each body s (x # xs) = res_bind (body s x) (\<lambda>s'. for_each body s' xs)"

definition proto_verify_binding :: "proto_transport \<Rightarrow> bytes \<Rightarrow> bytes \<Rightarrow> (string, unit) res" where
  "proto_verify_binding t expected_session expected_digest =
     for_each (\<lambda>_ m.
         if pm_session_id m \<noteq> expected_session
         then Err (''session mismatch from '' @ show_nat (unat (pm_sender m)))
         else if pm_digest m \<noteq> expected_digest
         then Err (''digest mismatch from '' @ show_nat (unat (pm_sender m)))
         else Ok ()) () (pt_messages t)"

definition proto_check_no_duplicate :: "proto_transport \<Rightarrow> (string, unit) res" where
  "proto_check_no_duplicate t =
     for_each (\<lambda>seen m.
         let key = (pm_sender m, pm_round m) in
         if key \<in> seen
         then Err (''duplicate round '' @ show_nat (unat (pm_round m)) @ '' from ''
           @ show_nat (unat (pm_sender m)))
         else Ok (insert key seen)) {} (pt_messages t)"

definition proto_check_rounds :: "proto_transport \<Rightarrow> (string, unit) res" where
  "proto_check_rounds t =
     for_each (\<lambda>_ m.
         if pm_round m = 0 \<or> 3 < pm_round m then Err (''invalid round '' @ show_nat (unat (pm_round m)))
         else Ok ()) () (pt_messages t)"

definition proto_len :: "proto_transport \<Rightarrow> nat" where
  "proto_len t = length (pt_messages t)"

section \<open>The same transport as in \<open>keymesh-tss\<close>\<close>

definition message_of_proto :: "proto_message \<Rightarrow> transport_message" where
  "message_of_proto m = \<lparr>tm_session_id = pm_session_id m, tm_sender = pm_sender m, tm_round = pm_round m,
     tm_payload = pm_payload m, tm_digest = pm_digest m\<rparr>"

definition transport_of_proto :: "proto_transport \<Rightarrow> simulated_transport" where
  "transport_of_proto t = \<lparr>sim_messages = map message_of_proto (pt_messages t)\<rparr>"

text \<open>A fault, or a message, as injected into either transport.\<close>

datatype sim_op =
    SimSend proto_message
  | SimDropFrom u8
  | SimDuplicateFirst
  | SimReorder
  | SimModifyFirst bytes

primrec proto_op :: "proto_transport \<Rightarrow> sim_op \<Rightarrow> proto_transport" where
  "proto_op t (SimSend m) = proto_send t m"
| "proto_op t (SimDropFrom s) = proto_drop_from t s"
| "proto_op t SimDuplicateFirst = proto_duplicate_first t"
| "proto_op t SimReorder = proto_reorder t"
| "proto_op t (SimModifyFirst d) = proto_modify_first_digest t d"

primrec tss_op :: "simulated_transport \<Rightarrow> sim_op \<Rightarrow> simulated_transport" where
  "tss_op t (SimSend m) = sim_send t (message_of_proto m)"
| "tss_op t (SimDropFrom s) = drop_from t s"
| "tss_op t SimDuplicateFirst = duplicate_first t"
| "tss_op t SimReorder = reorder t"
| "tss_op t (SimModifyFirst d) = modify_first_digest t d"

lemma message_of_proto_simps [simp]:
  "tm_session_id (message_of_proto m) = pm_session_id m" "tm_sender (message_of_proto m) = pm_sender m"
  "tm_round (message_of_proto m) = pm_round m" "tm_digest (message_of_proto m) = pm_digest m"
  "(message_of_proto m)\<lparr>tm_digest := d\<rparr> = message_of_proto (m\<lparr>pm_digest := d\<rparr>)"
  by (simp_all add: message_of_proto_def)

lemma proto_op_simulates: "transport_of_proto (proto_op t op) = tss_op (transport_of_proto t) op"
proof (cases op)
  case SimReorder
  have "map message_of_proto (pt_messages (proto_reorder t)) = sim_messages (reorder (transport_of_proto t))"
  proof (cases "pt_messages t")
    case (Cons m0 ms)
    then show ?thesis
      by (cases ms) (simp_all add: proto_reorder_def reorder_def transport_of_proto_def)
  qed (simp add: proto_reorder_def reorder_def transport_of_proto_def)
  with SimReorder show ?thesis by (simp add: transport_of_proto_def)
next
  case SimDuplicateFirst
  then show ?thesis
    by (cases "pt_messages t")
      (simp_all add: transport_of_proto_def proto_duplicate_first_def duplicate_first_def)
next
  case (SimModifyFirst d)
  then show ?thesis
    by (cases "pt_messages t")
      (simp_all add: transport_of_proto_def proto_modify_first_digest_def modify_first_digest_def Let_def)
qed (simp_all add: transport_of_proto_def proto_send_def sim_send_def proto_drop_from_def drop_from_def
    filter_map comp_def)

lemma proto_run_simulates: "transport_of_proto (foldl proto_op t ops) = foldl tss_op (transport_of_proto t) ops"
  by (induction ops arbitrary: t) (simp_all add: proto_op_simulates)

lemma proto_verify_list:
  "for_each (\<lambda>_ m.
       if pm_session_id m \<noteq> sess then Err (''session mismatch from '' @ show_nat (unat (pm_sender m)))
       else if pm_digest m \<noteq> dig then Err (''digest mismatch from '' @ show_nat (unat (pm_sender m)))
       else Ok ()) () ms = verify_binding_list sess dig (map message_of_proto ms)"
  by (induction ms) auto

lemma proto_duplicate_list:
  "for_each (\<lambda>seen m.
       let key = (pm_sender m, pm_round m) in
       if key \<in> seen
       then Err (''duplicate round '' @ show_nat (unat (pm_round m)) @ '' from '' @ show_nat (unat (pm_sender m)))
       else Ok (insert key seen)) seen ms = no_duplicate_list seen (map message_of_proto ms)"
  by (induction ms arbitrary: seen) (auto simp: Let_def)

lemma proto_rounds_list:
  "for_each (\<lambda>_ m.
       if pm_round m = 0 \<or> 3 < pm_round m then Err (''invalid round '' @ show_nat (unat (pm_round m)))
       else Ok ()) () ms = round_order_list 3 (map message_of_proto ms)"
  by (induction ms) auto

text \<open>
  The prototype's transport is the other one with fewer rounds. After any messages and
  faults, injected into both, they hold the same messages and every check gives the same answer,
  text included; only the rounds are limited to 3 in the prototype and to 5 in the other, so
  that what the prototype accepts is accepted by both.
\<close>

theorem proto_transport_equivalent:
  assumes p: "p = foldl proto_op proto_new ops" and t: "t = foldl tss_op sim_new ops"
  shows "sim_messages t = map message_of_proto (pt_messages p) \<and> proto_len p = length (sim_messages t)
    \<and> proto_verify_binding p sess dig = verify_binding t sess dig
    \<and> proto_check_no_duplicate p = check_no_duplicate t
    \<and> proto_check_rounds p = proto_check_round_order t
    \<and> (proto_check_rounds p = Ok () \<longrightarrow> check_round_order t = Ok ())"
proof -
  have "transport_of_proto proto_new = sim_new" by (simp add: transport_of_proto_def proto_new_def sim_new_def)
  with proto_run_simulates [of proto_new ops] have "t = transport_of_proto p" by (simp add: p t)
  then have "sim_messages t = map message_of_proto (pt_messages p)" by (simp add: transport_of_proto_def)
  then show ?thesis
    using proto_round_order_stricter [of t]
    by (simp add: proto_len_def proto_verify_binding_def verify_binding_def proto_verify_list
        proto_check_no_duplicate_def check_no_duplicate_def proto_duplicate_list
        proto_check_rounds_def proto_check_round_order_def proto_rounds_list)
qed

definition sample_proto_message :: proto_message where
  "sample_proto_message =
     \<lparr>pm_session_id = [1], pm_sender = 0, pm_round = 2, pm_payload = [], pm_digest = [7]\<rparr>"

theorem proto_transport_equivalent_witness:
  "check_round_order (foldl tss_op sim_new [SimSend sample_proto_message, SimReorder]) = Ok ()"
proof -
  have "proto_check_rounds (foldl proto_op proto_new [SimSend sample_proto_message, SimReorder]) = Ok ()"
    by (simp add: proto_check_rounds_def proto_send_def proto_new_def proto_reorder_def sample_proto_message_def)
  with proto_transport_equivalent [OF refl refl, of "[SimSend sample_proto_message, SimReorder]" "[]" "[]"]
  show ?thesis by blast
qed

end
