(* ===== verification/Test_Support.thy ===== *)
theory Test_Support
  imports Prelude
begin

text \<open>
  Vocabulary for the repository's own tests. A Rust test function is a \<open>bool\<close>: whether it passes on
  the model. It fails when an assertion does not hold, or when an \<open>unwrap\<close> or \<open>expect\<close> meets an error
  or a panic. Each test theory has one definition per test function, named after it, and
  shows that all of them pass; what a test takes from a library (a hash, a signature scheme, a
  random draw) is an argument, as everywhere in the development.
\<close>

text \<open>\<open>let x = call.unwrap(); rest\<close>\<close>

primrec unwrapped :: "('e, 'a) res \<Rightarrow> ('a \<Rightarrow> bool) \<Rightarrow> bool" where
  "unwrapped (Ok a) rest = rest a"
| "unwrapped (Err e) rest = False"
| "unwrapped Panic rest = False"

text \<open>\<open>let x = option.unwrap(); rest\<close>\<close>

primrec unwrapped_option :: "'a option \<Rightarrow> ('a \<Rightarrow> bool) \<Rightarrow> bool" where
  "unwrapped_option None rest = False"
| "unwrapped_option (Some a) rest = rest a"

text \<open>\<open>object.call().unwrap(); rest\<close>, and the same with the result in scope.\<close>

fun after :: "'s \<times> ('e, 'a) res \<Rightarrow> ('s \<Rightarrow> bool) \<Rightarrow> bool" where
  "after (s, r) rest = unwrapped r (\<lambda>_. rest s)"

fun after_value :: "'s \<times> ('e, 'a) res \<Rightarrow> ('s \<Rightarrow> 'a \<Rightarrow> bool) \<Rightarrow> bool" where
  "after_value (s, r) rest = unwrapped r (rest s)"

text \<open>\<open>assert!(matches!(call, Err(pattern)))\<close>, alone or with the object in scope afterwards.\<close>

primrec rejected :: "('e, 'a) res \<Rightarrow> ('e \<Rightarrow> bool) \<Rightarrow> bool" where
  "rejected (Ok a) pattern = False"
| "rejected (Err e) pattern = pattern e"
| "rejected Panic pattern = False"

fun after_rejected :: "'s \<times> ('e, 'a) res \<Rightarrow> ('e \<Rightarrow> bool) \<Rightarrow> ('s \<Rightarrow> bool) \<Rightarrow> bool" where
  "after_rejected (s, r) pattern rest \<longleftrightarrow> rejected r pattern \<and> rest s"

lemma unwrapped_iff: "unwrapped r rest \<longleftrightarrow> (\<exists>a. r = Ok a \<and> rest a)"
  by (cases r) auto

lemma unwrapped_option_iff: "unwrapped_option x rest \<longleftrightarrow> (\<exists>a. x = Some a \<and> rest a)"
  by (cases x) auto

lemma after_iff: "after c rest \<longleftrightarrow> is_ok (snd c) \<and> rest (fst c)"
  by (cases c; cases "snd c") auto

lemma rejected_iff: "rejected r pattern \<longleftrightarrow> (\<exists>e. r = Err e \<and> pattern e)"
  by (cases r) auto

end
