(* ===== verification/Recovery_Tests.thy ===== *)
theory Recovery_Tests
  imports Test_Support Recovery_Encoding
begin

text \<open>
  The unit tests of \<open>crates/keymesh-core/src/recovery/mod.rs\<close> on the model, in both build modes.
\<close>

definition DAY :: u64 where "DAY = 86400"
definition HOUR :: u64 where "HOUR = 3600"
definition WALLET :: string where "WALLET = ''0xA11CE''"
definition OLD_DEVICE :: string where "OLD_DEVICE = ''0xOLD''"
definition NEW_DEVICE :: string where "NEW_DEVICE = ''0xNEW''"

text \<open>The \<open>unwrap\<close> of the helper \<open>request\<close> is in its callers here.\<close>

definition test_request :: "u32 \<Rightarrow> (keymesh_error, recovery_request) res" where
  "test_request quorum =
     recovery_initiate 7 WALLET ''0xGUARD1'' (Some OLD_DEVICE) NEW_DEVICE 5 quorum DAY 1000"

definition initiates_into_pending_with_snapshots :: bool where
  "initiates_into_pending_with_snapshots = unwrapped (test_request 2) (\<lambda>r.
     rr_status r = RecPending \<and> rr_quorum_snapshot r = 2 \<and> rr_timelock_snapshot_seconds r = DAY
     \<and> rr_execute_after r = None \<and> rr_approvals r = [])"

definition zero_quorum_rejected :: bool where
  "zero_quorum_rejected =
     rejected (recovery_initiate 1 WALLET ''0xG'' (Some OLD_DEVICE) NEW_DEVICE 5 0 DAY 0)
       (\<lambda>e. kind_of e = KInvalidInput)"

definition unsatisfiable_quorum_rejected :: bool where
  "unsatisfiable_quorum_rejected =
     rejected (recovery_initiate 1 WALLET ''0xG'' (Some OLD_DEVICE) NEW_DEVICE 1 2 DAY 0)
       (\<lambda>e. e = ThresholdNotMet 2 1)"

definition timelock_below_minimum_rejected :: bool where
  "timelock_below_minimum_rejected =
     rejected (recovery_initiate 1 WALLET ''0xG'' (Some OLD_DEVICE) NEW_DEVICE 5 1 (HOUR - 1) 0)
       (\<lambda>e. kind_of e = KTimelockActive)"

definition minimum_timelock_boundary_accepted :: bool where
  "minimum_timelock_boundary_accepted =
     unwrapped (recovery_initiate 1 WALLET ''0xG'' (Some OLD_DEVICE) NEW_DEVICE 5 1 HOUR 0)
       (\<lambda>r. rr_timelock_snapshot_seconds r = HOUR)"

definition identical_replace_and_new_rejected :: bool where
  "identical_replace_and_new_rejected =
     rejected (recovery_initiate 1 WALLET ''0xG'' (Some ''0xSAME'') ''0xSAME'' 5 1 DAY 0)
       (\<lambda>e. kind_of e = KInvalidInput)"

definition empty_new_device_rejected :: bool where
  "empty_new_device_rejected =
     rejected (recovery_initiate 1 WALLET ''0xG'' (Some OLD_DEVICE) '''' 5 1 DAY 0)
       (\<lambda>e. kind_of e = KInvalidInput)"

definition quorum_transition_and_timelock_start :: "build \<Rightarrow> bool" where
  "quorum_transition_and_timelock_start b = unwrapped (test_request 2) (\<lambda>r.
     after (recovery_approve b r ''0xG1'' 1100) (\<lambda>r. rr_status r = RecPending
     \<and> after (recovery_approve b r ''0xG2'' 1200) (\<lambda>r. rr_status r = RecQuorumReached
     \<and> rr_execute_after r = Some (1200 + DAY))))"

definition duplicate_approval_errors :: "build \<Rightarrow> bool" where
  "duplicate_approval_errors b = unwrapped (test_request 2) (\<lambda>r.
     after (recovery_approve b r ''0xG1'' 1000) (\<lambda>r. length (rr_approvals r) = 1
     \<and> after_rejected (recovery_approve b r ''0xG1'' 1500) (\<lambda>e. e = DuplicateApproval ''0xG1'') (\<lambda>r.
         length (rr_approvals r) = 1)))"

definition lazy_promotion_to_executable_is_inclusive :: "build \<Rightarrow> bool" where
  "lazy_promotion_to_executable_is_inclusive b = unwrapped (test_request 1) (\<lambda>r.
     after (recovery_approve b r ''0xG1'' 1000) (\<lambda>r.
     unwrapped_option (rr_execute_after r) (\<lambda>execute_after.
       recovery_effective_status r (execute_after - 1) = RecQuorumReached
       \<and> recovery_effective_status r execute_after = RecExecutable
       \<and> recovery_effective_status r (execute_after + DAY) = RecExecutable)))"

definition cannot_finalize_before_timelock_elapses :: "build \<Rightarrow> bool" where
  "cannot_finalize_before_timelock_elapses b = unwrapped (test_request 1) (\<lambda>r.
     after (recovery_approve b r ''0xG1'' 1000) (\<lambda>r.
     unwrapped_option (rr_execute_after r) (\<lambda>execute_after.
     after_rejected (recovery_finalize r (execute_after - 1)) (\<lambda>e. kind_of e = KTimelockActive) (\<lambda>r.
       rr_status r = RecQuorumReached
     \<and> after_value (recovery_finalize r execute_after) (\<lambda>r (replaced, added).
         replaced = Some OLD_DEVICE \<and> added = NEW_DEVICE \<and> rr_status r = RecExecuted)))))"

definition total_loss_recovery_adds_without_replacing :: "build \<Rightarrow> bool" where
  "total_loss_recovery_adds_without_replacing b =
     unwrapped (recovery_initiate 3 WALLET ''0xGUARD'' None NEW_DEVICE 5 1 DAY 1000) (\<lambda>r.
     after (recovery_approve b r ''0xG1'' 1100) (\<lambda>r.
     after_value (recovery_finalize r (1100 + DAY)) (\<lambda>_ (replaced, added).
       replaced = None \<and> added = NEW_DEVICE)))"

definition cancel_from_every_live_state :: "build \<Rightarrow> bool" where
  "cancel_from_every_live_state b \<longleftrightarrow>
     unwrapped (test_request 2) (\<lambda>r. after (recovery_cancel r) (\<lambda>r. rr_status r = RecCancelled))
   \<and> unwrapped (test_request 1) (\<lambda>r. after (recovery_approve b r ''0xG1'' 1000) (\<lambda>r.
       after (recovery_cancel r) (\<lambda>r. rr_status r = RecCancelled)))
   \<and> unwrapped (test_request 1) (\<lambda>r. after (recovery_approve b r ''0xG1'' 1000) (\<lambda>r.
       unwrapped_option (rr_execute_after r) (\<lambda>execute_after.
         recovery_effective_status r execute_after = RecExecutable
       \<and> after (recovery_cancel r) (\<lambda>r. rr_status r = RecCancelled))))"

definition terminal_states_are_frozen :: "build \<Rightarrow> bool" where
  "terminal_states_are_frozen b \<longleftrightarrow>
     unwrapped (test_request 1) (\<lambda>r. after (recovery_approve b r ''0xG1'' 1000) (\<lambda>r.
       unwrapped_option (rr_execute_after r) (\<lambda>t. after (recovery_finalize r t) (\<lambda>r.
       unwrapped_option (rr_execute_after r) (\<lambda>t.
       after_rejected (recovery_finalize r t) (\<lambda>e. kind_of e = KInvalidStateTransition) (\<lambda>r.
       after_rejected (recovery_cancel r) (\<lambda>e. kind_of e = KInvalidStateTransition) (\<lambda>r.
       rejected (snd (recovery_approve b r ''0xG2'' 2000)) (\<lambda>e. kind_of e = KInvalidStateTransition))))))))
   \<and> unwrapped (test_request 1) (\<lambda>r. after (recovery_cancel r) (\<lambda>r.
       after_rejected (recovery_finalize r (DAY * 100)) (\<lambda>e. kind_of e = KInvalidStateTransition) (\<lambda>r.
       rejected (snd (recovery_approve b r ''0xG1'' 1000)) (\<lambda>e. kind_of e = KInvalidStateTransition))))"

definition full_state_action_matrix :: bool where
  "full_state_action_matrix = list_all (\<lambda>(status, action, allowed). allows status action = allowed)
     [(RecNone, Initiate, True), (RecNone, Approve, False), (RecNone, Cancel, False), (RecNone, Finalize, False),
      (RecPending, Initiate, False), (RecPending, Approve, True), (RecPending, Cancel, True),
      (RecPending, Finalize, False),
      (RecQuorumReached, Initiate, False), (RecQuorumReached, Approve, False),
      (RecQuorumReached, Cancel, True), (RecQuorumReached, Finalize, False),
      (RecExecutable, Initiate, False), (RecExecutable, Approve, False), (RecExecutable, Cancel, True),
      (RecExecutable, Finalize, True),
      (RecExecuted, Initiate, True), (RecExecuted, Approve, False), (RecExecuted, Cancel, False),
      (RecExecuted, Finalize, False),
      (RecCancelled, Initiate, True), (RecCancelled, Approve, False), (RecCancelled, Cancel, False),
      (RecCancelled, Finalize, False)]"

text \<open>
  The comment of this test says that one approval reaches the quorum; the quorum is 2, so it does not.
\<close>

definition canonical_encoding_is_deterministic_and_lifecycle_free :: "build \<Rightarrow> bool" where
  "canonical_encoding_is_deterministic_and_lifecycle_free b = unwrapped (test_request 2) (\<lambda>a.
     after (recovery_approve b a ''0xG1'' 5000) (\<lambda>a.
     unwrapped (test_request 2) (\<lambda>b'.
     unwrapped (recovery_canonical_bytes a) (\<lambda>bytes_a.
     unwrapped (recovery_canonical_bytes b') (\<lambda>bytes_b. bytes_a = bytes_b
     \<and> unwrapped (test_request 2) (\<lambda>c.
         unwrapped (recovery_canonical_bytes (c\<lparr>rr_id := rr_id c + 1\<rparr>)) (\<lambda>bytes_c. bytes_a \<noteq> bytes_c))
     \<and> (let string_len = (\<lambda>s. 4 + length s)
        in length bytes_a = 32 + 1 + 8 + string_len (rr_wallet a) + string_len (rr_initiator a)
             + string_len (case rr_replaced_device a of None \<Rightarrow> '''' | Some d \<Rightarrow> d)
             + string_len (rr_new_device a) + 8 + 1 + 8))))))"

definition status_discriminants_match_solidity_enum_order :: bool where
  "status_discriminants_match_solidity_enum_order =
     (map recovery_discriminant [RecNone, RecPending, RecQuorumReached, RecExecutable, RecExecuted, RecCancelled]
      = [0, 1, 2, 3, 4, 5])"

definition recovery_tests :: "(build \<Rightarrow> bool) list" where
  "recovery_tests =
     [\<lambda>_. initiates_into_pending_with_snapshots, \<lambda>_. zero_quorum_rejected, \<lambda>_. unsatisfiable_quorum_rejected,
      \<lambda>_. timelock_below_minimum_rejected, \<lambda>_. minimum_timelock_boundary_accepted,
      \<lambda>_. identical_replace_and_new_rejected, \<lambda>_. empty_new_device_rejected,
      quorum_transition_and_timelock_start, duplicate_approval_errors,
      lazy_promotion_to_executable_is_inclusive, cannot_finalize_before_timelock_elapses,
      total_loss_recovery_adds_without_replacing, cancel_from_every_live_state, terminal_states_are_frozen,
      \<lambda>_. full_state_action_matrix, canonical_encoding_is_deterministic_and_lifecycle_free,
      \<lambda>_. status_discriminants_match_solidity_enum_order]"

lemmas recovery_constants = DAY_def HOUR_def WALLET_def OLD_DEVICE_def NEW_DEVICE_def MIN_TIMELOCK_SECONDS_def

lemma test_request_Ok:
  "0 < unat q \<Longrightarrow> unat q \<le> 5 \<Longrightarrow> test_request q = Ok
     \<lparr>rr_id = 7, rr_wallet = WALLET, rr_initiator = ''0xGUARD1'', rr_replaced_device = Some OLD_DEVICE,
      rr_new_device = NEW_DEVICE, rr_initiated_at = 1000, rr_execute_after = None,
      rr_quorum_snapshot = q, rr_timelock_snapshot_seconds = DAY, rr_approvals = [],
      rr_status = RecPending\<rparr>"
  by (auto simp: test_request_def recovery_initiate_def recovery_constants)

lemma initiate_tests:
  "initiates_into_pending_with_snapshots" "zero_quorum_rejected" "unsatisfiable_quorum_rejected"
  "timelock_below_minimum_rejected" "minimum_timelock_boundary_accepted" "identical_replace_and_new_rejected"
  "empty_new_device_rejected"
  by (simp_all add: initiates_into_pending_with_snapshots_def zero_quorum_rejected_def
      unsatisfiable_quorum_rejected_def timelock_below_minimum_rejected_def
      minimum_timelock_boundary_accepted_def identical_replace_and_new_rejected_def
      empty_new_device_rejected_def recovery_initiate_def recovery_constants test_request_Ok)

lemma quorum_tests:
  "quorum_transition_and_timelock_start b" "duplicate_approval_errors b"
  "lazy_promotion_to_executable_is_inclusive b" "cannot_finalize_before_timelock_elapses b"
  "total_loss_recovery_adds_without_replacing b" "cancel_from_every_live_state b" "terminal_states_are_frozen b"
  by (simp_all add: quorum_transition_and_timelock_start_def duplicate_approval_errors_def
      lazy_promotion_to_executable_is_inclusive_def cannot_finalize_before_timelock_elapses_def
      total_loss_recovery_adds_without_replacing_def cancel_from_every_live_state_def
      terminal_states_are_frozen_def test_request_Ok recovery_initiate_def recovery_ops add_u64_def
      recovery_effective_status_def allows.simps recovery_is_live_def recovery_constants split: build.split)

lemma recovery_table_tests: "full_state_action_matrix" "status_discriminants_match_solidity_enum_order"
  by (simp_all add: full_state_action_matrix_def status_discriminants_match_solidity_enum_order_def
      recovery_is_live_def)

lemma recovery_canonical_test: "canonical_encoding_is_deterministic_and_lifecycle_free b"
  by (simp add: canonical_encoding_is_deterministic_and_lifecycle_free_def test_request_Ok
      recovery_approve_def recovery_canonical_eq recovery_fields_def bytes_enc_def length_keccakless_domain_tag
      recovery_constants Let_def)

lemma recovery_tests_pass: "list_all (\<lambda>test. test b) recovery_tests"
  by (simp add: recovery_tests_def initiate_tests quorum_tests recovery_table_tests recovery_canonical_test)

end
