(* ===== verification/Core_Tests.thy ===== *)
theory Core_Tests
  imports Test_Support Policy Crypto Core_Tss
begin

text \<open>
  The unit tests of \<open>policy/mod.rs\<close>, \<open>serialization/mod.rs\<close>, \<open>errors.rs\<close>, \<open>crypto/mod.rs\<close>,
  \<open>signing/mod.rs\<close> and \<open>signing/tss.rs\<close> of \<open>keymesh-core\<close> on the model.
\<close>

section \<open>Policy\<close>

definition ONE_ETH :: u128 where "ONE_ETH = 1000000000000000000"

definition configured :: policy_config where
  "configured = \<lparr>default_mode = DeviceOnly, value_threshold_wei = ONE_ETH,
     guardian_approvals_required = 2, version = 1\<rparr>"

definition policy_test_tx :: "u128 \<Rightarrow> bytes \<Rightarrow> transaction_view" where
  "policy_test_tx value_wei data = \<lparr>tv_to = replicate 20 0xAA, tv_value_wei = value_wei, tv_data = data\<rparr>"

definition unconfigured_wallets_are_device_only :: bool where
  "unconfigured_wallets_are_device_only \<longleftrightarrow>
     classify unconfigured False False False (policy_test_tx (5 * ONE_ETH) []) = DeviceOnly"

definition structural_admin_rule_holds_even_unconfigured :: bool where
  "structural_admin_rule_holds_even_unconfigured \<longleftrightarrow>
     classify unconfigured True True False (policy_test_tx 0 [0x12, 0x34, 0x56, 0x78, 0x00])
       = DevicePlusGuardians"

definition admin_rule_requires_policy_manager_destination_and_selector :: bool where
  "admin_rule_requires_policy_manager_destination_and_selector \<longleftrightarrow>
     classify configured False True False (policy_test_tx 0 [0x12, 0x34, 0x56, 0x78]) = DevicePlusGuardians
   \<and> classify configured True False False (policy_test_tx 0 []) = DeviceOnly"

definition value_boundary_is_inclusive_to_default :: bool where
  "value_boundary_is_inclusive_to_default \<longleftrightarrow>
     classify configured False False False (policy_test_tx ONE_ETH []) = DeviceOnly
   \<and> classify configured False False False (policy_test_tx (ONE_ETH + 1) []) = DevicePlusGuardians"

definition restricted_destination_forces_guardians :: bool where
  "restricted_destination_forces_guardians \<longleftrightarrow>
     classify configured False False True (policy_test_tx 0 []) = DevicePlusGuardians"

definition short_calldata_never_matches_selectors :: bool where
  "short_calldata_never_matches_selectors = list_all (\<lambda>len.
     classify configured False True False
       \<lparr>tv_to = replicate 20 0xAA, tv_value_wei = 0, tv_data = replicate len 0xAB\<rparr> = DeviceOnly) [0..<4]"

definition restricted_selector_forces_guardians :: bool where
  "restricted_selector_forces_guardians \<longleftrightarrow>
     classify configured False True False (policy_test_tx 0 [0xDE, 0xAD, 0xBE, 0xEF, 0x01])
       = DevicePlusGuardians"

definition default_mode_applies_when_nothing_stronger_matches :: bool where
  "default_mode_applies_when_nothing_stronger_matches \<longleftrightarrow>
     classify \<lparr>default_mode = DevicePlusGuardians, value_threshold_wei = - 1,
       guardian_approvals_required = 2, version = 3\<rparr> False False False (policy_test_tx 0 [])
       = DevicePlusGuardians"

definition effective_request_quorum_never_zero :: bool where
  "effective_request_quorum_never_zero \<longleftrightarrow>
     effective_request_quorum unconfigured = 1 \<and> effective_request_quorum configured = 2"

definition any_version_change_invalidates_authorizations :: bool where
  "any_version_change_invalidates_authorizations \<longleftrightarrow> is_authorization_version_valid 3 3
     \<and> \<not> is_authorization_version_valid 3 4 \<and> \<not> is_authorization_version_valid 4 3"

definition mode_discriminants_match_solidity_enum_order :: bool where
  "mode_discriminants_match_solidity_enum_order \<longleftrightarrow>
     mode_discriminant DeviceOnly = 0 \<and> mode_discriminant DevicePlusGuardians = 1
   \<and> mode_from_discriminant 0 = Some DeviceOnly \<and> mode_from_discriminant 1 = Some DevicePlusGuardians
   \<and> mode_from_discriminant 2 = None"

lemma policy_tests:
  "unconfigured_wallets_are_device_only" "structural_admin_rule_holds_even_unconfigured"
  "admin_rule_requires_policy_manager_destination_and_selector" "value_boundary_is_inclusive_to_default"
  "restricted_destination_forces_guardians" "short_calldata_never_matches_selectors"
  "restricted_selector_forces_guardians" "default_mode_applies_when_nothing_stronger_matches"
  "effective_request_quorum_never_zero" "any_version_change_invalidates_authorizations"
  "mode_discriminants_match_solidity_enum_order"
  by (simp_all add: unconfigured_wallets_are_device_only_def
      structural_admin_rule_holds_even_unconfigured_def
      admin_rule_requires_policy_manager_destination_and_selector_def
      value_boundary_is_inclusive_to_default_def restricted_destination_forces_guardians_def
      short_calldata_never_matches_selectors_def restricted_selector_forces_guardians_def
      default_mode_applies_when_nothing_stronger_matches_def effective_request_quorum_never_zero_def
      any_version_change_invalidates_authorizations_def mode_discriminants_match_solidity_enum_order_def
      classify_def unconfigured_def configured_def is_configured_def policy_test_tx_def ONE_ETH_def
      effective_request_quorum_def is_authorization_version_valid_def mode_from_discriminant_def upt_rec)

section \<open>Serialization\<close>

definition roundtrip_scalar_types :: bool where
  "roundtrip_scalar_types =
     (let dec = decoder_new (into_bytes (write_bytes (str_bytes ''keymesh'')
           (write_u64 1700000000000 (write_u8 0x07 encoder_new))))
      in after_value (read_u8 dec) (\<lambda>dec a. a = 0x07
       \<and> after_value (read_u64 dec) (\<lambda>dec b. b = 1700000000000
       \<and> after_value (read_bytes dec) (\<lambda>dec c. c = str_bytes ''keymesh''
       \<and> unwrapped (finish dec) (\<lambda>_. True)))))"

definition trailing_bytes_are_errors :: bool where
  "trailing_bytes_are_errors =
     after_value (read_u64 (decoder_new (into_bytes (write_u64 2 (write_u64 1 encoder_new))))) (\<lambda>dec a. a = 1
       \<and> rejected (finish dec) (\<lambda>e. kind_of e = KInvalidInput))"

definition oversized_length_is_rejected_not_panic :: bool where
  "oversized_length_is_rejected_not_panic =
     rejected (snd (read_bytes (decoder_new (u32_be 0xFFFFFFFF @ str_bytes ''tiny''))))
       (\<lambda>e. kind_of e = KInvalidInput)"

definition truncated_buffers_are_errors :: bool where
  "truncated_buffers_are_errors =
     (let full = into_bytes (write_bytes (str_bytes ''keymesh'') encoder_new)
      in is_err (snd (read_bytes (decoder_new (take (length full - 2) full)))))"

definition state_discriminants_roundtrip_and_reject_unknown :: bool where
  "state_discriminants_roundtrip_and_reject_unknown \<longleftrightarrow>
     after_value (read_u8 (decoder_new (into_bytes (write_u8 (wire_discriminant WTimelockActive) encoder_new))))
       (\<lambda>_ v. unwrapped (wire_state_try_from v) (\<lambda>state. state = WTimelockActive))
   \<and> rejected (wire_state_try_from 0xFF) (\<lambda>e. kind_of e = KInvalidInput)"

definition empty_payload_roundtrip :: bool where
  "empty_payload_roundtrip =
     after_value (read_bytes (decoder_new (into_bytes (write_bytes [] encoder_new)))) (\<lambda>dec c. c = []
       \<and> unwrapped (finish dec) (\<lambda>_. True))"

lemma serialization_tests:
  "roundtrip_scalar_types" "trailing_bytes_are_errors" "oversized_length_is_rejected_not_panic"
  "truncated_buffers_are_errors" "state_discriminants_roundtrip_and_reject_unknown" "empty_payload_roundtrip"
  by (simp_all add: roundtrip_scalar_types_def trailing_bytes_are_errors_def
      oversized_length_is_rejected_not_panic_def truncated_buffers_are_errors_def
      state_discriminants_roundtrip_and_reject_unknown_def empty_payload_roundtrip_def
      decoder_new_def read_u8_def read_u64_def read_bytes_def read_u32_def remaining_def finish_def
      codec_simps wire_state_try_from_def Let_def)

section \<open>Errors\<close>

definition display_messages_are_stable :: bool where
  "display_messages_are_stable \<longleftrightarrow>
     display_error (ThresholdNotMet 3 2) = ''threshold not met: required 3, got 2''
   \<and> display_error (InvalidStateTransition ''completed'' ''cancel'')
       = ''invalid state transition: completed -> cancel''"

section \<open>The mock provider and the signing service\<close>

definition mock_signatures_roundtrip :: bool where
  "mock_signatures_roundtrip =
     unwrapped (mock_generate_keypair Secp256k1) (\<lambda>(sk, pk).
     unwrapped (mock_sign sk (str_bytes ''hello keymesh'')) (\<lambda>sig.
       unwrapped (mock_verify pk (str_bytes ''hello keymesh'') sig) (\<lambda>ok. ok)
     \<and> unwrapped (mock_verify pk (str_bytes ''tampered'') sig) (\<lambda>ok. \<not> ok)))"

definition empty_keys_are_rejected_not_panics :: bool where
  "empty_keys_are_rejected_not_panics =
     rejected (mock_sign (PrivateKeyBytes []) (str_bytes ''m'')) (\<lambda>e. kind_of e = KCryptoOperationFailed)"

definition domains_are_separated :: bool where
  "domains_are_separated =
     (let key = PrivateKeyBytes (replicate 32 0x11)
      in unwrapped (sign_message key TransactionAuthorization (str_bytes ''abc'')) (\<lambda>tx_sig.
         unwrapped (sign_message key RecoveryApproval (str_bytes ''abc'')) (\<lambda>rec_sig. tx_sig \<noteq> rec_sig)))"

definition rejects_empty_keys :: bool where
  "rejects_empty_keys =
     rejected (sign_message (PrivateKeyBytes []) RecoveryApproval (str_bytes ''x''))
       (\<lambda>e. kind_of e = KCryptoOperationFailed)"

definition signatures_are_deterministic_for_fixed_keys :: bool where
  "signatures_are_deterministic_for_fixed_keys =
     (let key = PrivateKeyBytes (replicate 32 0x11)
      in unwrapped (sign_message key DeviceRegistration (str_bytes ''payload'')) (\<lambda>a.
         unwrapped (sign_message key DeviceRegistration (str_bytes ''payload'')) (\<lambda>b. a = b)))"

lemma show_two_three: "show_nat 2 = ''2''" "show_nat 3 = ''3''"
  by code_simp+

lemma crypto_tests:
  "display_messages_are_stable" "mock_signatures_roundtrip" "empty_keys_are_rejected_not_panics"
  "domains_are_separated" "rejects_empty_keys" "signatures_are_deterministic_for_fixed_keys"
  by (simp_all add: display_messages_are_stable_def mock_signatures_roundtrip_def
      empty_keys_are_rejected_not_panics_def domains_are_separated_def rejects_empty_keys_def
      signatures_are_deterministic_for_fixed_keys_def mock_generate_keypair_def mock_sign_def mock_verify_def
      sign_message_def composite_inject show_two_three Let_def)

section \<open>Signing identifiers and sessions\<close>

definition participant_id_validation :: bool where
  "participant_id_validation \<longleftrightarrow>
     is_valid_participant_id ''0xf39Fd6e51aad88F6F4ce6aB8827279cffFb92266''
   \<and> \<not> is_valid_participant_id ''not-hex''
   \<and> is_ok (participant_id_new ''0xf39Fd6e51aad88F6F4ce6aB8827279cffFb92266'')
   \<and> is_err (participant_id_new ''bad'')"

definition protocol_version_validation :: bool where
  "protocol_version_validation \<longleftrightarrow>
     is_valid_signing_protocol_version ''cggmp21/v1'' \<and> is_valid_signing_protocol_version ''gg20/v2''
   \<and> \<not> is_valid_signing_protocol_version '''' \<and> \<not> is_valid_signing_protocol_version ''no-slash''"

definition session_id_validation :: bool where
  "session_id_validation \<longleftrightarrow>
     is_valid_session_id ''0xaaaaaaaaaaaaaaaaaaaaaaaaaaaaaaaaaaaaaaaaaaaaaaaaaaaaaaaaaaaaaaaa''
   \<and> \<not> is_valid_session_id ''0xabc''"

definition session_lifecycle_monotonic :: bool where
  "session_lifecycle_monotonic =
     unwrapped (participant_id_new ''0xaaaaaaaaaaaaaaaaaaaaaaaaaaaaaaaaaaaaaaaa'') (\<lambda>p1.
     unwrapped (participant_id_new ''0xbbbbbbbbbbbbbbbbbbbbbbbbbbbbbbbbbbbbbbbb'') (\<lambda>p2.
     let sess = \<lparr>cs_session_id = SessionId ''0xaaaaaaaaaaaaaaaaaaaaaaaaaaaaaaaaaaaaaaaaaaaaaaaaaaaaaaaaaaaaaaaa'',
           cs_wallet = ''0xf39Fd6e51aad88F6F4ce6aB8827279cffFb92266'',
           cs_digest = ''0xef48434b4ea47252caab3312aef0d299b5970bf1c8f1bd43e71c06791ad0b66a'',
           cs_nonce = 0, cs_policy_version = 1,
           cs_protocol_version = SigningProtocolVersion SIGNING_PROTOCOL_V1,
           cs_participants = [p1, p2], cs_threshold = 2, cs_status = CoreStarted\<rparr>
     in unwrapped (core_transition sess CoreCompleted) (\<lambda>completed. cs_status completed = CoreCompleted
          \<and> is_err (core_transition completed CoreAborted))
      \<and> unwrapped (core_transition sess CoreAborted) (\<lambda>aborted. cs_status aborted = CoreAborted
          \<and> is_err (core_transition aborted CoreCompleted))))"

lemma identifier_tests:
  "participant_id_validation" "protocol_version_validation" "session_id_validation"
  "session_lifecycle_monotonic"
  by (simp_all add: participant_id_validation_def protocol_version_validation_def session_id_validation_def
      session_lifecycle_monotonic_def participant_id_new_def is_valid_participant_id_def
      is_valid_signing_protocol_version_def is_valid_session_id_def core_transition_def
      is_ascii_hexdigit_def is_ascii_digit_def is_ascii_alphanumeric_def is_ascii_lower_def Let_def)

definition core_tests :: "bool list" where
  "core_tests =
     [unconfigured_wallets_are_device_only, structural_admin_rule_holds_even_unconfigured,
      admin_rule_requires_policy_manager_destination_and_selector, value_boundary_is_inclusive_to_default,
      restricted_destination_forces_guardians, short_calldata_never_matches_selectors,
      restricted_selector_forces_guardians, default_mode_applies_when_nothing_stronger_matches,
      effective_request_quorum_never_zero, any_version_change_invalidates_authorizations,
      mode_discriminants_match_solidity_enum_order, roundtrip_scalar_types, trailing_bytes_are_errors,
      oversized_length_is_rejected_not_panic, truncated_buffers_are_errors,
      state_discriminants_roundtrip_and_reject_unknown, empty_payload_roundtrip, display_messages_are_stable,
      mock_signatures_roundtrip, empty_keys_are_rejected_not_panics, domains_are_separated, rejects_empty_keys,
      signatures_are_deterministic_for_fixed_keys, participant_id_validation, protocol_version_validation,
      session_id_validation, session_lifecycle_monotonic]"

lemma core_tests_pass: "list_all (\<lambda>passes. passes) core_tests"
  by (simp add: core_tests_def policy_tests serialization_tests crypto_tests identifier_tests)

end
