(* ===== verification/Transaction_Tests.thy ===== *)
theory Transaction_Tests
  imports Test_Support Transaction
begin

text \<open>
  The tests of \<open>crates/keymesh-core/src/transaction/mod.rs\<close>: the vectors shared with
  \<open>packages/protocol/src/vectors.ts\<close> and the checks of fields and expiry. Keccak-256 is the parameter
  \<open>keccak\<close>; the vectors need its values at the literal inputs of the fixtures only.
\<close>

section \<open>Hex literals\<close>

definition hex_digit_value :: "char \<Rightarrow> nat option" where
  "hex_digit_value c =
     (let n = of_char c in
       if 48 \<le> n \<and> n \<le> 57 then Some (n - 48)
       else if 97 \<le> n \<and> n \<le> 102 then Some (n - 87)
       else if 65 \<le> n \<and> n \<le> 70 then Some (n - 55)
       else None)"

text \<open>The helpers \<open>hex\<close> and \<open>hex32\<close> of the tests; \<open>None\<close> is their panic.\<close>

fun from_hex :: "string \<Rightarrow> bytes option" where
  "from_hex [] = Some []"
| "from_hex [c] = None"
| "from_hex (c # d # s) =
     (case (hex_digit_value c, hex_digit_value d) of
        (Some h, Some l) \<Rightarrow> map_option (\<lambda>bs. word_of_nat (16 * h + l) # bs) (from_hex s)
      | _ \<Rightarrow> None)"

definition from_hex20 :: "string \<Rightarrow> bytes option" where
  "from_hex20 s =
     (case from_hex s of None \<Rightarrow> None | Some v \<Rightarrow> if length v = 20 then Some v else None)"

section \<open>The shared fixtures\<close>

definition transaction_of ::
  "string \<Rightarrow> u64 \<Rightarrow> u64 \<Rightarrow> string \<Rightarrow> u128 \<Rightarrow> bytes \<Rightarrow> u64 \<Rightarrow> keymesh_transaction option" where
  "transaction_of wallet chain_id nonce to v data expiry =
     (case (from_hex20 wallet, from_hex20 to) of
        (Some w, Some t) \<Rightarrow> Some \<lparr>tx_wallet = w, tx_chain_id = chain_id, tx_nonce = nonce, tx_to = t,
          tx_value = v, tx_data = data, tx_expiry = expiry\<rparr>
      | _ \<Rightarrow> None)"

definition vector_eth_transfer :: "keymesh_transaction option" where
  "vector_eth_transfer = transaction_of ''f39fd6e51aad88f6f4ce6ab8827279cfffb92266'' 31337 0
     ''70997970c51812dc3a010c7d01b50e0d17dc79c8'' 1000000000000000000 [] 2000000000"

definition vector_zero_value :: "keymesh_transaction option" where
  "vector_zero_value = (case from_hex ''deadbeefcafebabe0123456789abcdef'' of None \<Rightarrow> None | Some data \<Rightarrow>
     transaction_of ''14dc79964da2c08b23698b3d3cc7ca32193d9955'' 11155111 7
       ''3c44cdddb6a900fa2b585dd299e03d12fa4293bc'' 0 data 2000000001)"

definition vector_mainnet :: "keymesh_transaction option" where
  "vector_mainnet = transaction_of ''23618e81e3f5cdf7f54c3d65f7fbc0abf5b21e8f'' 1 42
     ''9965507d1a55bcc2695c58ba16fb37d819b0a4dc'' 123456789 (concat (replicate 16 [0xaa, 0xbb, 0xcc, 0xdd]))
     4102444800"

text \<open>The canonical bytes of the three fixtures as \<open>vectors.ts\<close> records them; the first is in the tests too.\<close>

definition VECTOR_DOMAIN_TAG :: string where
  "VECTOR_DOMAIN_TAG = ''908acdd86e8726216702d8abc211b34ca12c9f1537c7180c55096e1c3be1f405''"

definition VECTOR_ETH_TRANSFER_CANONICAL :: string where
  "VECTOR_ETH_TRANSFER_CANONICAL = VECTOR_DOMAIN_TAG
     @ ''f39fd6e51aad88f6f4ce6ab8827279cfffb92266''
     @ ''0000000000000000000000000000000000000000000000000000000000007a69''
     @ ''0000000000000000000000000000000000000000000000000000000000000000''
     @ ''70997970c51812dc3a010c7d01b50e0d17dc79c8''
     @ ''0000000000000000000000000000000000000000000000000de0b6b3a7640000''
     @ ''00000000''
     @ ''0000000000000000000000000000000000000000000000000000000077359400''"

definition VECTOR_ETH_TRANSFER_DIGEST :: string where
  "VECTOR_ETH_TRANSFER_DIGEST = ''ef48434b4ea47252caab3312aef0d299b5970bf1c8f1bd43e71c06791ad0b66a''"

definition VECTOR_ZERO_VALUE_CANONICAL :: string where
  "VECTOR_ZERO_VALUE_CANONICAL = VECTOR_DOMAIN_TAG
     @ ''14dc79964da2c08b23698b3d3cc7ca32193d9955''
     @ ''0000000000000000000000000000000000000000000000000000000000aa36a7''
     @ ''0000000000000000000000000000000000000000000000000000000000000007''
     @ ''3c44cdddb6a900fa2b585dd299e03d12fa4293bc''
     @ ''0000000000000000000000000000000000000000000000000000000000000000''
     @ ''00000010deadbeefcafebabe0123456789abcdef''
     @ ''0000000000000000000000000000000000000000000000000000000077359401''"

definition VECTOR_ZERO_VALUE_DIGEST :: string where
  "VECTOR_ZERO_VALUE_DIGEST = ''58f52cacdeacc22a70f0e855c44e50b34348984261d9c6954c48d6f895870b58''"

definition VECTOR_MAINNET_CANONICAL :: string where
  "VECTOR_MAINNET_CANONICAL = VECTOR_DOMAIN_TAG
     @ ''23618e81e3f5cdf7f54c3d65f7fbc0abf5b21e8f''
     @ ''0000000000000000000000000000000000000000000000000000000000000001''
     @ ''000000000000000000000000000000000000000000000000000000000000002a''
     @ ''9965507d1a55bcc2695c58ba16fb37d819b0a4dc''
     @ ''00000000000000000000000000000000000000000000000000000000075bcd15''
     @ ''00000040''
     @ ''aabbccddaabbccddaabbccddaabbccddaabbccddaabbccddaabbccddaabbccdd''
     @ ''aabbccddaabbccddaabbccddaabbccddaabbccddaabbccddaabbccddaabbccdd''
     @ ''00000000000000000000000000000000000000000000000000000000f4865700''"

definition VECTOR_MAINNET_DIGEST :: string where
  "VECTOR_MAINNET_DIGEST = ''645dc7006dfac3665699314be7d1a4af4f2a502d9b6099b71af0db0d8f1c0a58''"

section \<open>The tests\<close>

definition domain_tag_matches_shared_vector :: "(bytes \<Rightarrow> bytes) \<Rightarrow> bool" where
  "domain_tag_matches_shared_vector keccak \<longleftrightarrow> from_hex VECTOR_DOMAIN_TAG = Some (domain_tag keccak)"

definition canonical_encoding_matches_typescript_vector :: "(bytes \<Rightarrow> bytes) \<Rightarrow> bool" where
  "canonical_encoding_matches_typescript_vector keccak =
     unwrapped_option vector_eth_transfer (\<lambda>tx. unwrapped (encode_canonical keccak tx) (\<lambda>encoded.
       from_hex VECTOR_ETH_TRANSFER_CANONICAL = Some encoded))"

definition digest_vector_matches :: "(bytes \<Rightarrow> bytes) \<Rightarrow> keymesh_transaction option \<Rightarrow> string \<Rightarrow> bool" where
  "digest_vector_matches keccak vector expected =
     unwrapped_option vector (\<lambda>tx. unwrapped (tx_digest keccak tx) (\<lambda>d. from_hex expected = Some d))"

definition digest_matches_typescript_vector :: "(bytes \<Rightarrow> bytes) \<Rightarrow> bool" where
  "digest_matches_typescript_vector keccak =
     digest_vector_matches keccak vector_eth_transfer VECTOR_ETH_TRANSFER_DIGEST"

definition zero_value_calldata_vector_matches :: "(bytes \<Rightarrow> bytes) \<Rightarrow> bool" where
  "zero_value_calldata_vector_matches keccak =
     digest_vector_matches keccak vector_zero_value VECTOR_ZERO_VALUE_DIGEST"

definition mainnet_shaped_vector_matches :: "(bytes \<Rightarrow> bytes) \<Rightarrow> bool" where
  "mainnet_shaped_vector_matches keccak =
     digest_vector_matches keccak vector_mainnet VECTOR_MAINNET_DIGEST"

text \<open>The mutations of one signed field at a time, in the order of the test.\<close>

definition flip_first :: "bytes \<Rightarrow> bytes" where
  "flip_first bs = bs[0 := xor (bs ! 0) 0xff]"

definition field_mutations :: "(keymesh_transaction \<Rightarrow> keymesh_transaction) list" where
  "field_mutations =
     [\<lambda>t. t\<lparr>tx_nonce := 1\<rparr>, \<lambda>t. t\<lparr>tx_value := 2\<rparr>, \<lambda>t. t\<lparr>tx_chain_id := 31338\<rparr>, \<lambda>t. t\<lparr>tx_data := [0x01]\<rparr>,
      \<lambda>t. t\<lparr>tx_expiry := 2000000001\<rparr>, \<lambda>t. t\<lparr>tx_to := flip_first (tx_to t)\<rparr>,
      \<lambda>t. t\<lparr>tx_wallet := flip_first (tx_wallet t)\<rparr>]"

definition digest_changes_when_any_signed_field_changes :: "(bytes \<Rightarrow> bytes) \<Rightarrow> bool" where
  "digest_changes_when_any_signed_field_changes keccak =
     unwrapped_option vector_eth_transfer (\<lambda>base. unwrapped (tx_digest keccak base) (\<lambda>base_digest.
       list_all (\<lambda>mutate. unwrapped (tx_digest keccak (mutate base)) (\<lambda>d. base_digest \<noteq> d)) field_mutations))"

definition validation_rejects_bad_fields :: bool where
  "validation_rejects_bad_fields = unwrapped_option vector_eth_transfer (\<lambda>tx.
     rejected (tx_validate (tx\<lparr>tx_chain_id := 0\<rparr>)) (\<lambda>e. kind_of e = KInvalidInput)
   \<and> rejected (tx_validate (tx\<lparr>tx_data := replicate (MAX_DATA_BYTES + 1) 0\<rparr>)) (\<lambda>e. kind_of e = KInvalidInput))"

definition expiry_boundary_is_inclusive :: bool where
  "expiry_boundary_is_inclusive = unwrapped_option vector_eth_transfer (\<lambda>tx.
     is_valid_at tx 2000000000 \<and> is_valid_at tx 1999999999 \<and> \<not> is_valid_at tx 2000000001
   \<and> is_ok (validate_at tx 2000000000)
   \<and> rejected (validate_at tx 2000000001) (\<lambda>e. e = Expired 2000000000 2000000001))"

definition transaction_tests :: "((bytes \<Rightarrow> bytes) \<Rightarrow> bool) list" where
  "transaction_tests =
     [domain_tag_matches_shared_vector, canonical_encoding_matches_typescript_vector,
      digest_matches_typescript_vector, zero_value_calldata_vector_matches, mainnet_shaped_vector_matches,
      digest_changes_when_any_signed_field_changes, \<lambda>_. validation_rejects_bad_fields,
      \<lambda>_. expiry_boundary_is_inclusive]"

lemma from_hex_domain_tag: "from_hex VECTOR_DOMAIN_TAG = Some
  [0x90, 0x8a, 0xcd, 0xd8, 0x6e, 0x87, 0x26, 0x21, 0x67, 0x02, 0xd8, 0xab, 0xc2, 0x11, 0xb3, 0x4c,
   0xa1, 0x2c, 0x9f, 0x15, 0x37, 0xc7, 0x18, 0x0c, 0x55, 0x09, 0x6e, 0x1c, 0x3b, 0xe1, 0xf4, 0x05]"
  by (simp add: VECTOR_DOMAIN_TAG_def hex_digit_value_def)

lemma from_hex_append:
  "from_hex s = Some x \<Longrightarrow> from_hex (s @ t) = map_option (append x) (from_hex t)"
proof (induction s arbitrary: x rule: from_hex.induct)
  case 1
  then show ?case by (cases "from_hex t") simp_all
next
  case (3 c d s)
  then obtain h l z where x: "hex_digit_value c = Some h" "hex_digit_value d = Some l"
      "from_hex s = Some z" "x = word_of_nat (16 * h + l) # z"
    by (auto split: option.splits)
  from "3.IH" [OF refl x(1) x(2) x(3)] x show ?case by (cases "from_hex t") simp_all
qed simp

lemma nat_be_numeral: "nat_be (numeral k) n = nat_be (pred_numeral k) (n div 256) @ [word_of_nat n]"
  unfolding numeral_eq_Suc [of k] by (rule nat_be.simps(2))

lemma replicate_numeral: "replicate (numeral k) x = x # replicate (pred_numeral k) x"
  unfolding numeral_eq_Suc [of k] by simp

lemmas encoding_values = hex_digit_value_def bytes_enc_def be256_u64_def be256_u128_def u64_be_def u128_be_def
  u32_be_def nat_be_numeral replicate_numeral

text \<open>The fields of the fixtures, from their digits.\<close>

lemma eth_transfer_fields:
  "from_hex ''0000000000000000000000000000000000000000000000000000000000007a69'' = Some (be256_u64 31337)"
  "from_hex ''0000000000000000000000000000000000000000000000000000000000000000'' = Some (be256_u64 0)"
  "from_hex ''0000000000000000000000000000000000000000000000000de0b6b3a7640000''
     = Some (be256_u128 1000000000000000000)"
  "from_hex ''00000000'' = Some (bytes_enc [])"
  "from_hex ''0000000000000000000000000000000000000000000000000000000077359400'' = Some (be256_u64 2000000000)"
  by (simp_all add: encoding_values)

lemma zero_value_fields:
  "from_hex ''0000000000000000000000000000000000000000000000000000000000aa36a7'' = Some (be256_u64 11155111)"
  "from_hex ''0000000000000000000000000000000000000000000000000000000000000007'' = Some (be256_u64 7)"
  "from_hex ''0000000000000000000000000000000000000000000000000000000000000000'' = Some (be256_u128 0)"
  "from_hex ''00000010deadbeefcafebabe0123456789abcdef''
     = map_option bytes_enc (from_hex ''deadbeefcafebabe0123456789abcdef'')"
  "from_hex ''0000000000000000000000000000000000000000000000000000000077359401'' = Some (be256_u64 2000000001)"
  by (simp_all add: encoding_values)

lemma mainnet_fields:
  "from_hex ''0000000000000000000000000000000000000000000000000000000000000001'' = Some (be256_u64 1)"
  "from_hex ''000000000000000000000000000000000000000000000000000000000000002a'' = Some (be256_u64 42)"
  "from_hex ''00000000000000000000000000000000000000000000000000000000075bcd15'' = Some (be256_u128 123456789)"
  "from_hex ''00000040'' = Some (u32_be 64)"
  "from_hex ''aabbccddaabbccddaabbccddaabbccddaabbccddaabbccddaabbccddaabbccdd''
     = Some (concat (replicate 8 [0xaa, 0xbb, 0xcc, 0xdd]))"
  "from_hex ''00000000000000000000000000000000000000000000000000000000f4865700'' = Some (be256_u64 4102444800)"
  by (simp_all add: encoding_values)

lemma addresses:
  "\<exists>w. from_hex ''f39fd6e51aad88f6f4ce6ab8827279cfffb92266'' = Some w \<and> length w = 20"
  "\<exists>w. from_hex ''70997970c51812dc3a010c7d01b50e0d17dc79c8'' = Some w \<and> length w = 20"
  "\<exists>w. from_hex ''14dc79964da2c08b23698b3d3cc7ca32193d9955'' = Some w \<and> length w = 20"
  "\<exists>w. from_hex ''3c44cdddb6a900fa2b585dd299e03d12fa4293bc'' = Some w \<and> length w = 20"
  "\<exists>w. from_hex ''23618e81e3f5cdf7f54c3d65f7fbc0abf5b21e8f'' = Some w \<and> length w = 20"
  "\<exists>w. from_hex ''9965507d1a55bcc2695c58ba16fb37d819b0a4dc'' = Some w \<and> length w = 20"
  by (simp_all add: hex_digit_value_def)

lemma eth_transfer_fixture:
  obtains tx tag where "vector_eth_transfer = Some tx" "tx_wf tx" "tx_validate tx = Ok ()"
    "tx_expiry tx = 2000000000" "tx_nonce tx = 0" "tx_value tx = 1000000000000000000"
    "tx_chain_id tx = 31337" "tx_data tx = []"
    "from_hex VECTOR_DOMAIN_TAG = Some tag"
    "from_hex VECTOR_ETH_TRANSFER_CANONICAL = Some (tag @ tx_payload tx)"
proof -
  from addresses(1,2) obtain w t where a: "length w = 20" "length t = 20"
      "from_hex ''f39fd6e51aad88f6f4ce6ab8827279cfffb92266'' = Some w"
      "from_hex ''70997970c51812dc3a010c7d01b50e0d17dc79c8'' = Some t" by blast
  have v: "vector_eth_transfer = Some \<lparr>tx_wallet = w, tx_chain_id = 31337, tx_nonce = 0, tx_to = t,
      tx_value = 1000000000000000000, tx_data = [], tx_expiry = 2000000000\<rparr>"
    by (simp add: vector_eth_transfer_def transaction_of_def from_hex20_def a del: from_hex.simps)
  show thesis
    by (rule that [OF v]) (simp_all add: tx_wf_def tx_validate_Ok a from_hex_domain_tag
        VECTOR_ETH_TRANSFER_CANONICAL_def from_hex_append eth_transfer_fields tx_payload_def
        del: from_hex.simps append.simps)
qed

lemma zero_value_fixture:
  obtains tx tag where "vector_zero_value = Some tx" "tx_validate tx = Ok ()"
    "from_hex VECTOR_DOMAIN_TAG = Some tag"
    "from_hex VECTOR_ZERO_VALUE_CANONICAL = Some (tag @ tx_payload tx)"
proof -
  from addresses(3,4) obtain w t where a: "length w = 20" "length t = 20"
      "from_hex ''14dc79964da2c08b23698b3d3cc7ca32193d9955'' = Some w"
      "from_hex ''3c44cdddb6a900fa2b585dd299e03d12fa4293bc'' = Some t" by blast
  have "\<exists>data. from_hex ''deadbeefcafebabe0123456789abcdef'' = Some data \<and> length data = 16"
    by (simp add: hex_digit_value_def)
  then obtain data where d: "from_hex ''deadbeefcafebabe0123456789abcdef'' = Some data" "length data = 16"
    by blast
  have v: "vector_zero_value = Some \<lparr>tx_wallet = w, tx_chain_id = 11155111, tx_nonce = 7, tx_to = t,
      tx_value = 0, tx_data = data, tx_expiry = 2000000001\<rparr>"
    by (simp add: vector_zero_value_def transaction_of_def from_hex20_def a d del: from_hex.simps)
  show thesis
    by (rule that [OF v]) (simp_all add: tx_validate_Ok a d from_hex_domain_tag
        VECTOR_ZERO_VALUE_CANONICAL_def from_hex_append zero_value_fields tx_payload_def
        del: from_hex.simps append.simps)
qed

lemma mainnet_fixture:
  obtains tx tag where "vector_mainnet = Some tx" "tx_validate tx = Ok ()"
    "from_hex VECTOR_DOMAIN_TAG = Some tag"
    "from_hex VECTOR_MAINNET_CANONICAL = Some (tag @ tx_payload tx)"
proof -
  from addresses(5,6) obtain w t where a: "length w = 20" "length t = 20"
      "from_hex ''23618e81e3f5cdf7f54c3d65f7fbc0abf5b21e8f'' = Some w"
      "from_hex ''9965507d1a55bcc2695c58ba16fb37d819b0a4dc'' = Some t" by blast
  let ?half = "concat (replicate 8 [0xaa, 0xbb, 0xcc, 0xdd]) :: bytes"
  have halves: "concat (replicate 16 [0xaa, 0xbb, 0xcc, 0xdd]) = ?half @ ?half"
    by (simp add: replicate_numeral)
  have v: "vector_mainnet = Some \<lparr>tx_wallet = w, tx_chain_id = 1, tx_nonce = 42, tx_to = t,
      tx_value = 123456789, tx_data = ?half @ ?half, tx_expiry = 4102444800\<rparr>"
    unfolding halves [symmetric]
    by (simp add: vector_mainnet_def transaction_of_def from_hex20_def a del: from_hex.simps)
  have l: "length ?half = 32" by (simp add: replicate_numeral)
  show thesis
    by (rule that [OF v]) (simp_all add: tx_validate_Ok a l from_hex_domain_tag bytes_enc_def
        VECTOR_MAINNET_CANONICAL_def from_hex_append mainnet_fields tx_payload_def
        del: from_hex.simps append.simps)
qed

section \<open>The tests pass\<close>

text \<open>
  What the tests need of Keccak-256: its values on the domain string and on the three recorded
  encodings, and no collision among the encodings of the transactions that a test compares.
\<close>

definition hashes_to :: "(bytes \<Rightarrow> bytes) \<Rightarrow> string \<Rightarrow> string \<Rightarrow> bool" where
  "hashes_to keccak input output \<longleftrightarrow> map_option keccak (from_hex input) = from_hex output"

definition keccak_known_answers :: "(bytes \<Rightarrow> bytes) \<Rightarrow> bool" where
  "keccak_known_answers keccak \<longleftrightarrow> Some (keccak (str_bytes ''KEYMESH_TX_V1'')) = from_hex VECTOR_DOMAIN_TAG
     \<and> hashes_to keccak VECTOR_ETH_TRANSFER_CANONICAL VECTOR_ETH_TRANSFER_DIGEST
     \<and> hashes_to keccak VECTOR_ZERO_VALUE_CANONICAL VECTOR_ZERO_VALUE_DIGEST
     \<and> hashes_to keccak VECTOR_MAINNET_CANONICAL VECTOR_MAINNET_DIGEST"

definition mutation_encodings :: "(bytes \<Rightarrow> bytes) \<Rightarrow> bytes list" where
  "mutation_encodings keccak = (case vector_eth_transfer of None \<Rightarrow> [] | Some base \<Rightarrow>
     List.map_filter (\<lambda>mutate. ok_of (encode_canonical keccak (mutate base))) ((\<lambda>t. t) # field_mutations))"

lemma vector_lemma:
  assumes "vector = Some tx" "tx_validate tx = Ok ()" "from_hex VECTOR_DOMAIN_TAG = Some tag"
    and "from_hex canonical = Some (tag @ tx_payload tx)"
    and "keccak_known_answers keccak" and "hashes_to keccak canonical expected"
  shows "digest_vector_matches keccak vector expected"
    and "encode_canonical keccak tx = Ok (tag @ tx_payload tx)"
proof -
  have "domain_tag keccak = tag"
    using assms(3,5) by (simp add: keccak_known_answers_def domain_tag_def TX_DOMAIN_def)
  then show e: "encode_canonical keccak tx = Ok (tag @ tx_payload tx)"
    using assms(2) by (simp add: encode_canonical_eq)
  show "digest_vector_matches keccak vector expected"
    using assms(1,4,6) e by (simp add: digest_vector_matches_def tx_digest_def hashes_to_def)
qed

lemma vector_tests:
  assumes k: "keccak_known_answers keccak"
  shows "domain_tag_matches_shared_vector keccak" "canonical_encoding_matches_typescript_vector keccak"
    "digest_matches_typescript_vector keccak" "zero_value_calldata_vector_matches keccak"
    "mainnet_shaped_vector_matches keccak"
proof -
  from k have h: "hashes_to keccak VECTOR_ETH_TRANSFER_CANONICAL VECTOR_ETH_TRANSFER_DIGEST"
      "hashes_to keccak VECTOR_ZERO_VALUE_CANONICAL VECTOR_ZERO_VALUE_DIGEST"
      "hashes_to keccak VECTOR_MAINNET_CANONICAL VECTOR_MAINNET_DIGEST"
    by (simp_all add: keccak_known_answers_def)
  show "domain_tag_matches_shared_vector keccak"
    using k by (simp add: domain_tag_matches_shared_vector_def keccak_known_answers_def domain_tag_def TX_DOMAIN_def)
  show "digest_matches_typescript_vector keccak" unfolding digest_matches_typescript_vector_def
    by (rule eth_transfer_fixture) (rule vector_lemma(1) [OF _ _ _ _ k h(1)])
  show "zero_value_calldata_vector_matches keccak" unfolding zero_value_calldata_vector_matches_def
    by (rule zero_value_fixture) (rule vector_lemma(1) [OF _ _ _ _ k h(2)])
  show "mainnet_shaped_vector_matches keccak" unfolding mainnet_shaped_vector_matches_def
    by (rule mainnet_fixture) (rule vector_lemma(1) [OF _ _ _ _ k h(3)])
  obtain tx tag where f: "vector_eth_transfer = Some tx" "tx_validate tx = Ok ()"
      "from_hex VECTOR_DOMAIN_TAG = Some tag"
      "from_hex VECTOR_ETH_TRANSFER_CANONICAL = Some (tag @ tx_payload tx)" by (rule eth_transfer_fixture)
  show "canonical_encoding_matches_typescript_vector keccak"
    by (simp add: canonical_encoding_matches_typescript_vector_def f(1,4) vector_lemma(2) [OF f k h(1)])
qed

lemma flip_first_changes: "bs \<noteq> [] \<Longrightarrow> flip_first bs \<noteq> bs"
proof
  assume bs: "bs \<noteq> []" and e: "flip_first bs = bs"
  have "flip_first bs ! 0 = xor (bs ! 0) 0xff" using bs by (simp add: flip_first_def)
  then have "xor (bs ! 0) (xor (bs ! 0) 0xff) = 0" using e by simp
  then show False by (simp add: xor.assoc [symmetric])
qed

lemma length_flip_first [simp]: "length (flip_first bs) = length bs"
  by (simp add: flip_first_def)

lemma mutation_valid:
  assumes "tx_wf tx" "tx_validate tx = Ok ()" "tx_data tx = []" "mutate \<in> set field_mutations"
  shows "tx_wf (mutate tx)" "tx_validate (mutate tx) = Ok ()"
  using assms by (auto simp: field_mutations_def tx_wf_def tx_validate_Ok)

lemma mutation_differs:
  assumes "tx_wf tx" "tx_expiry tx = 2000000000" "tx_nonce tx = 0" "tx_value tx = 1000000000000000000"
    and "tx_chain_id tx = 31337" "tx_data tx = []" "mutate \<in> set field_mutations"
  shows "mutate tx \<noteq> tx"
proof -
  have "tx_to tx \<noteq> []" "tx_wallet tx \<noteq> []" using assms(1) by (auto simp: tx_wf_def)
  then show ?thesis
    using assms(2-7) flip_first_changes [of "tx_to tx"] flip_first_changes [of "tx_wallet tx"]
    by (cases tx) (auto simp: field_mutations_def)
qed

lemma set_mutation_encodings:
  assumes "vector_eth_transfer = Some tx"
  shows "set (mutation_encodings keccak)
    = {bs. \<exists>mutate \<in> insert (\<lambda>t. t) (set field_mutations). encode_canonical keccak (mutate tx) = Ok bs}"
proof -
  have ok: "ok_of r = Some a \<longleftrightarrow> r = Ok a" for r :: "(keymesh_error, bytes) res" and a by (cases r) auto
  have filter: "set (List.map_filter f xs) = {y. \<exists>x \<in> set xs. f x = Some y}"
    for f :: "(keymesh_transaction \<Rightarrow> keymesh_transaction) \<Rightarrow> bytes option" and xs
    by (induction xs) (auto simp: map_filter_simps split: option.splits)
  show ?thesis unfolding mutation_encodings_def assms option.case filter ok by simp
qed

lemma mutation_test:
  assumes "inj_on keccak (set (mutation_encodings keccak))"
  shows "digest_changes_when_any_signed_field_changes keccak"
proof -
  obtain tx where v: "vector_eth_transfer = Some tx" "tx_wf tx" "tx_validate tx = Ok ()"
      "tx_expiry tx = 2000000000" "tx_nonce tx = 0" "tx_value tx = 1000000000000000000"
      "tx_chain_id tx = 31337" "tx_data tx = []" by (rule eth_transfer_fixture)
  obtain bs where bs: "encode_canonical keccak tx = Ok bs" using v(3) by (simp add: encode_canonical_eq)
  have "unwrapped (tx_digest keccak (mutate tx)) (\<lambda>d. keccak bs \<noteq> d)" if m: "mutate \<in> set field_mutations" for mutate
  proof -
    obtain cs where cs: "encode_canonical keccak (mutate tx) = Ok cs"
      using mutation_valid(2) [OF v(2,3,8) m] by (simp add: encode_canonical_eq)
    have "cs \<noteq> bs"
      using encode_canonical_inj [OF mutation_valid(1) [OF v(2,3,8) m] v(2) cs] bs
        mutation_differs [OF v(2,4-8) m] by blast
    moreover have "bs \<in> set (mutation_encodings keccak)" "cs \<in> set (mutation_encodings keccak)"
      unfolding set_mutation_encodings [OF v(1)] using bs cs m by auto
    ultimately have "keccak cs \<noteq> keccak bs" using assms by (auto dest: inj_onD)
    then show ?thesis by (simp add: tx_digest_def cs)
  qed
  then show ?thesis
    by (simp add: digest_changes_when_any_signed_field_changes_def v(1) tx_digest_def bs list_all_iff)
qed

lemma field_tests: "validation_rejects_bad_fields" "expiry_boundary_is_inclusive"
proof -
  obtain tx where v: "vector_eth_transfer = Some tx" "tx_validate tx = Ok ()" "tx_expiry tx = 2000000000"
      "tx_chain_id tx = 31337" by (rule eth_transfer_fixture)
  show "validation_rejects_bad_fields"
    by (simp add: validation_rejects_bad_fields_def v(1,4) tx_validate_def MAX_DATA_BYTES_def)
  show "expiry_boundary_is_inclusive"
    by (simp add: expiry_boundary_is_inclusive_def v is_valid_at_def validate_at_def)
qed

text \<open>
  The shared vectors. With a hash that has Keccak-256's recorded values on the
  fixtures and no collision among the compared encodings, every test of the transaction module
  passes: the encoder reproduces, byte for byte, the encodings and digests that
  \<open>packages/protocol/src/vectors.ts\<close> fixes for all implementations.
\<close>

lemma transaction_tests_pass:
  assumes "keccak_known_answers keccak" and "inj_on keccak (set (mutation_encodings keccak))"
  shows "list_all (\<lambda>test. test keccak) transaction_tests"
  by (simp add: transaction_tests_def vector_tests [OF assms(1)] mutation_test [OF assms(2)] field_tests)

text \<open>A hash that has the recorded values and is the identity elsewhere.\<close>

definition recorded_hash :: "bytes \<Rightarrow> bytes" where
  "recorded_hash m =
     (let table = (str_bytes ''KEYMESH_TX_V1'', from_hex VECTOR_DOMAIN_TAG)
        # List.map_filter (\<lambda>(c, d). map_option (\<lambda>x. (x, from_hex d)) (from_hex c))
            [(VECTOR_ETH_TRANSFER_CANONICAL, VECTOR_ETH_TRANSFER_DIGEST),
             (VECTOR_ZERO_VALUE_CANONICAL, VECTOR_ZERO_VALUE_DIGEST),
             (VECTOR_MAINNET_CANONICAL, VECTOR_MAINNET_DIGEST)]
      in case map_of table m of Some (Some d) \<Rightarrow> d | _ \<Rightarrow> m)"

lemma from_hex_length: "from_hex s = Some x \<Longrightarrow> length s = 2 * length x"
  by (induction s arbitrary: x rule: from_hex.induct) (auto split: option.splits)

lemma recorded_digests:
  "\<exists>d. from_hex VECTOR_ETH_TRANSFER_DIGEST = Some d \<and> length d = 32"
  "\<exists>d. from_hex VECTOR_ZERO_VALUE_DIGEST = Some d" "\<exists>d. from_hex VECTOR_MAINNET_DIGEST = Some d"
  by (simp_all add: VECTOR_ETH_TRANSFER_DIGEST_def VECTOR_ZERO_VALUE_DIGEST_def VECTOR_MAINNET_DIGEST_def
      hex_digit_value_def)

lemma recorded_hash_cases:
  obtains c1 c2 c3 d1 d2 d3 tag where
    "from_hex VECTOR_ETH_TRANSFER_CANONICAL = Some c1" "from_hex VECTOR_ETH_TRANSFER_DIGEST = Some d1"
    "from_hex VECTOR_ZERO_VALUE_CANONICAL = Some c2" "from_hex VECTOR_ZERO_VALUE_DIGEST = Some d2"
    "from_hex VECTOR_MAINNET_CANONICAL = Some c3" "from_hex VECTOR_MAINNET_DIGEST = Some d3"
    "from_hex VECTOR_DOMAIN_TAG = Some tag" "length c1 = 204" "length c2 = 220" "length c3 = 268"
    "length d1 = 32"
    "\<And>m. recorded_hash m = (if m = str_bytes ''KEYMESH_TX_V1'' then tag else if m = c1 then d1
        else if m = c2 then d2 else if m = c3 then d3 else m)"
proof -
  obtain c1 where c1: "from_hex VECTOR_ETH_TRANSFER_CANONICAL = Some c1" by (rule eth_transfer_fixture) blast
  obtain c2 where c2: "from_hex VECTOR_ZERO_VALUE_CANONICAL = Some c2" by (rule zero_value_fixture) blast
  obtain c3 where c3: "from_hex VECTOR_MAINNET_CANONICAL = Some c3" by (rule mainnet_fixture) blast
  obtain d1 d2 d3 where d: "from_hex VECTOR_ETH_TRANSFER_DIGEST = Some d1" "length d1 = 32"
      "from_hex VECTOR_ZERO_VALUE_DIGEST = Some d2" "from_hex VECTOR_MAINNET_DIGEST = Some d3"
    using recorded_digests by blast
  have "length VECTOR_ETH_TRANSFER_CANONICAL = 408" "length VECTOR_ZERO_VALUE_CANONICAL = 440"
      "length VECTOR_MAINNET_CANONICAL = 536"
    by (simp_all add: VECTOR_ETH_TRANSFER_CANONICAL_def VECTOR_ZERO_VALUE_CANONICAL_def
        VECTOR_MAINNET_CANONICAL_def VECTOR_DOMAIN_TAG_def)
  then have "length c1 = 204" "length c2 = 220" "length c3 = 268"
    using from_hex_length [OF c1] from_hex_length [OF c2] from_hex_length [OF c3] by simp_all
  then show thesis
    by (intro that [OF c1 d(1) c2 d(3) c3 d(4) from_hex_domain_tag _ _ _ d(2)])
      (simp_all add: recorded_hash_def c1 c2 c3 d(1,3,4) from_hex_domain_tag map_filter_simps Let_def
        del: from_hex.simps)
qed

lemma recorded_hash_known: "keccak_known_answers recorded_hash"
proof (rule recorded_hash_cases)
  fix c1 c2 c3 d1 d2 d3 tag
  assume h: "from_hex VECTOR_ETH_TRANSFER_CANONICAL = Some c1" "from_hex VECTOR_ETH_TRANSFER_DIGEST = Some d1"
    "from_hex VECTOR_ZERO_VALUE_CANONICAL = Some c2" "from_hex VECTOR_ZERO_VALUE_DIGEST = Some d2"
    "from_hex VECTOR_MAINNET_CANONICAL = Some c3" "from_hex VECTOR_MAINNET_DIGEST = Some d3"
    "from_hex VECTOR_DOMAIN_TAG = Some tag" and l: "length c1 = 204" "length c2 = 220" "length c3 = 268"
    and r: "\<And>m. recorded_hash m = (if m = str_bytes ''KEYMESH_TX_V1'' then tag else if m = c1 then d1
        else if m = c2 then d2 else if m = c3 then d3 else m)"
  have "c \<noteq> str_bytes ''KEYMESH_TX_V1''" if "13 < length c" for c using that by auto
  then have "recorded_hash c1 = d1" "recorded_hash c2 = d2" "recorded_hash c3 = d3"
    using l by (auto simp: r)
  then show ?thesis by (simp add: keccak_known_answers_def hashes_to_def h r [of "str_bytes _"])
qed

lemma mutation_encoding_length:
  assumes "bs \<in> set (mutation_encodings recorded_hash)"
  shows "length bs = 204 \<or> length bs = 205"
proof -
  obtain tx where v: "vector_eth_transfer = Some tx" "tx_wf tx" "tx_data tx = []" by (rule eth_transfer_fixture)
  have "from_hex VECTOR_DOMAIN_TAG = Some (domain_tag recorded_hash)"
    using recorded_hash_known by (simp add: keccak_known_answers_def domain_tag_def TX_DOMAIN_def)
  from from_hex_length [OF this] have tag: "length (domain_tag recorded_hash) = 32"
    by (simp add: VECTOR_DOMAIN_TAG_def)
  from assms v obtain mutate where "mutate \<in> insert (\<lambda>t. t) (set field_mutations)"
      "encode_canonical recorded_hash (mutate tx) = Ok bs" by (auto simp: set_mutation_encodings)
  with v(2,3) tag show ?thesis
    by (auto simp: field_mutations_def encode_canonical_eq tx_payload_def bytes_enc_def tx_wf_def)
qed

lemma recorded_hash_inj: "inj_on recorded_hash (set (mutation_encodings recorded_hash))"
proof (rule inj_onI)
  fix x y
  assume "x \<in> set (mutation_encodings recorded_hash)" "y \<in> set (mutation_encodings recorded_hash)"
  then have l: "length x \<in> {204, 205}" "length y \<in> {204, 205}" using mutation_encoding_length by auto
  assume e: "recorded_hash x = recorded_hash y"
  show "x = y"
  proof (rule recorded_hash_cases)
    fix c1 c2 c3 d1 d2 d3 tag
    assume n: "length c1 = 204" "length c2 = 220" "length c3 = 268" "length d1 = 32"
      and r: "\<And>m. recorded_hash m = (if m = str_bytes ''KEYMESH_TX_V1'' then tag else if m = c1 then d1
        else if m = c2 then d2 else if m = c3 then d3 else m)"
    have "recorded_hash z = (if z = c1 then d1 else z)" if "length z \<in> {204, 205}" for z
      using that n by (auto simp: r)
    with e l n(4) show "x = y" by (auto split: if_splits)
  qed
qed

end
