(* ===== verification/Governance_Tests.thy ===== *)
theory Governance_Tests
  imports Test_Support Lifecycle Cli
begin

text \<open>
  The unit tests of \<open>crates/keymesh-tss/src/governance.rs\<close>, and the tests of \<open>lifecycle.rs\<close>,
  \<open>tests_lifecycle.rs\<close> and \<open>tests_adversarial.rs\<close> about requests and the lifecycle that run no
  protocol, on the model.
\<close>

section \<open>Rotation requests\<close>

definition test_wallet :: bytes where "test_wallet = replicate 20 0x11"
definition test_gpk :: bytes where "test_gpk = replicate 33 0x02"

definition initiate_ok :: bool where
  "initiate_ok = unwrapped
     (rotation_initiate 1 test_wallet 1 [''A'', ''B'', ''C''] 2 ''guardian1'' ''gov-ref-1'' test_gpk 3 2 3600 1000)
     (\<lambda>r. ro_status r = RotPending)"

definition quorum_and_timelock :: "build \<Rightarrow> bool" where
  "quorum_and_timelock b = unwrapped
     (rotation_initiate 1 test_wallet 1 [''A'', ''B'', ''C''] 2 ''g1'' ''ref'' test_gpk 3 2 3600 1000) (\<lambda>r.
     after (rotation_approve b r ''guardian1'' 1100) (\<lambda>r. ro_status r = RotPending
     \<and> after (rotation_approve b r ''guardian2'' 1200) (\<lambda>r. ro_status r = RotQuorumReached
       \<and> ro_executable_at r = Some (1200 + 3600)
       \<and> rotation_effective_status r (1200 + 3599) = RotQuorumReached
       \<and> rotation_effective_status r (1200 + 3600) = RotExecutable
       \<and> rotation_is_executable r (1200 + 3600)
       \<and> after (mark_resharing_with_time r (1200 + 3600)) (\<lambda>r. ro_status r = RotResharing
       \<and> after (mark_completed r) (\<lambda>r. ro_status r = RotCompleted)))))"

definition stale_single_guardian_cannot_complete :: "build \<Rightarrow> bool" where
  "stale_single_guardian_cannot_complete b = unwrapped
     (rotation_initiate 1 test_wallet 1 [''A'', ''B'', ''C''] 2 ''g1'' ''ref'' test_gpk 3 2 3600 1000) (\<lambda>r.
     after (rotation_approve b r ''guardian1'' 1000) (\<lambda>r. is_err (snd (mark_resharing_with_time r 5000))))"

definition canonical_deterministic :: bool where
  "canonical_deterministic = unwrapped
     (rotation_initiate 1 test_wallet 1 [''A'', ''B''] 2 ''g'' ''ref'' test_gpk 3 2 3600 1000) (\<lambda>a. unwrapped
     (rotation_initiate 1 test_wallet 1 [''A'', ''B''] 2 ''g'' ''ref'' test_gpk 3 2 3600 1000) (\<lambda>b.
       rotation_canonical_bytes a = rotation_canonical_bytes b))"

section \<open>The lifecycle without protocols\<close>

text \<open>The tests set fields of a new lifecycle by hand; the protocols are any outcome \<open>M\<close>.\<close>

definition active_by_hand :: "('sn, 'v, 'sh, 'ax, 'vk) key_lifecycle" where
  "active_by_hand = lifecycle_new\<lparr>kl_state := KsActive, kl_version := 1\<rparr>"

definition lifecycle_dkg_activates :: bool where
  "lifecycle_dkg_activates \<longleftrightarrow>
     kl_state (lifecycle_new :: (unit, unit, unit, unit, unit) key_lifecycle) = KsCreated
   \<and> (let lc = active_by_hand :: (unit, unit, unit, unit, unit) key_lifecycle
      in kl_state lc = KsActive \<and> \<not> is_stale lc 1 \<and> is_stale lc 2)"

definition retire_prevents_signing :: bool where
  "retire_prevents_signing =
     after (lifecycle_retire (active_by_hand :: (unit, unit, unit, unit, unit) key_lifecycle)) (\<lambda>lc.
       kl_state lc = KsRetired \<and> is_err (check_signing_allowed lc 1) \<and> is_err (snd (lifecycle_retire lc)))"

fun is_lifecycle_error :: "tss_error \<Rightarrow> bool" where
  "is_lifecycle_error (Lifecycle m) = True"
| "is_lifecycle_error e = False"

definition lifecycle_lock_prevents_concurrent ::
  "('sn, 'v, 'sh, 'ax, 'vk, 'ep, 'ks, 'sg) mpc \<Rightarrow> bool" where
  "lifecycle_lock_prevents_concurrent M =
     (case lifecycle_refresh M (active_by_hand\<lparr>kl_state := KsRefreshing, kl_locked := True\<rparr>) of (lc, r) \<Rightarrow>
       is_err r
     \<and> rejected (snd (lifecycle_refresh M (lc\<lparr>kl_state := KsActive, kl_locked := False\<rparr>))) is_lifecycle_error)"

lemma rotation_request_tests:
  "initiate_ok" "quorum_and_timelock b" "stale_single_guardian_cannot_complete b" "canonical_deterministic"
  by (simp_all add: initiate_ok_def quorum_and_timelock_def stale_single_guardian_cannot_complete_def
      canonical_deterministic_def rotation_initiate_def ROTATION_MIN_TIMELOCK_def rotation_approve_def
      add_u64_def rotation_effective_status_def rotation_is_executable_def mark_resharing_with_time_def
      mark_completed_def Let_def split: build.split)

lemma lifecycle_unit_tests:
  "lifecycle_dkg_activates" "retire_prevents_signing" "lifecycle_lock_prevents_concurrent M"
  by (simp_all add: lifecycle_dkg_activates_def retire_prevents_signing_def
      lifecycle_lock_prevents_concurrent_def active_by_hand_def lifecycle_new_def is_stale_def
      lifecycle_retire_def check_signing_allowed_def ks_can_sign_def ks_is_terminal_def lifecycle_refresh_def ks_can_mutate_def
      Let_def)

section \<open>Requests against a lifecycle\<close>

text \<open>The derived \<open>Debug\<close> output of an error, and \<open>str::contains\<close>.\<close>

primrec debug_tss_error :: "tss_error \<Rightarrow> string" where
  "debug_tss_error (InvalidThreshold m) = ''InvalidThreshold('' @ debug_str m @ '')''"
| "debug_tss_error (DkgFailed m) = ''DkgFailed('' @ debug_str m @ '')''"
| "debug_tss_error (SigningFailed m) = ''SigningFailed('' @ debug_str m @ '')''"
| "debug_tss_error (SessionMismatch m) = ''SessionMismatch('' @ debug_str m @ '')''"
| "debug_tss_error (InsufficientShares h n) =
     ''InsufficientShares { have: '' @ show_nat h @ '', need: '' @ show_nat n @ '' }''"
| "debug_tss_error DuplicateParticipant = ''DuplicateParticipant''"
| "debug_tss_error UnknownParticipant = ''UnknownParticipant''"
| "debug_tss_error (AbortedTss m) = ''Aborted('' @ debug_str m @ '')''"
| "debug_tss_error (Lifecycle m) = ''Lifecycle('' @ debug_str m @ '')''"
| "debug_tss_error (LifecycleLocked m) = ''LifecycleLocked('' @ debug_str m @ '')''"
| "debug_tss_error (StaleVersion e g) =
     ''StaleVersion { expected: '' @ show_nat (unat e) @ '', got: '' @ show_nat (unat g) @ '' }''"
| "debug_tss_error (RetiredTss m) = ''Retired('' @ debug_str m @ '')''"
| "debug_tss_error (GovernanceError m) = ''Governance('' @ debug_str m @ '')''"
| "debug_tss_error (RefreshFailed m) = ''RefreshFailed('' @ debug_str m @ '')''"
| "debug_tss_error (RotationFailed m) = ''RotationFailed('' @ debug_str m @ '')''"
| "debug_tss_error (InvalidParticipantSet m) = ''InvalidParticipantSet('' @ debug_str m @ '')''"

fun contains :: "string \<Rightarrow> string \<Rightarrow> bool" where
  "contains needle [] = (needle = [])"
| "contains needle (c # cs) = (take (length needle) (c # cs) = needle \<or> contains needle cs)"

text \<open>The requests of these tests: three guardians, a quorum of two, the shortest timelock.\<close>

definition request_for :: "u64 \<Rightarrow> string list \<Rightarrow> nat \<Rightarrow> bytes \<Rightarrow> u64 \<Rightarrow> (tss_error, rotation_request) res" where
  "request_for version names threshold gpk now =
     rotation_initiate 1 test_wallet version names threshold ''g1'' ''ref'' gpk 3 2 ROTATION_MIN_TIMELOCK now"

text \<open>Both approvals, then the time from which the request is executable.\<close>

definition approved_twice ::
  "build \<Rightarrow> rotation_request \<Rightarrow> u64 \<Rightarrow> u64 \<Rightarrow> (rotation_request \<Rightarrow> u64 \<Rightarrow> bool) \<Rightarrow> bool" where
  "approved_twice b r t1 t2 rest =
     after (rotation_approve b r ''g1'' t1) (\<lambda>r. after (rotation_approve b r ''g2'' t2) (\<lambda>r.
       unwrapped_option (ro_executable_at r) (rest r)))"

definition concurrent_lifecycle_operations_blocked :: "build \<Rightarrow> bool" where
  "concurrent_lifecycle_operations_blocked b =
     (let lc = active_by_hand\<lparr>kl_state := KsRotating\<rparr> :: (unit, unit, unit, unit, unit) key_lifecycle
      in \<not> ks_can_mutate (kl_state lc) \<and> \<not> ks_can_sign (kl_state lc)
       \<and> unwrapped (request_for 1 [''A'', ''B''] 2 test_gpk 1000) (\<lambda>req.
           after (rotation_approve b req ''g1'' 1100) (\<lambda>req2. after (rotation_approve b req2 ''g2'' 1200) (\<lambda>req2.
           rejected (snd (begin_rotation lc req2 5000)) (\<lambda>e. contains ''Active'' (debug_tss_error e))))))"

definition retirement_prevents_future_signing :: "('sn, 'v, 'sh, 'ax, 'vk, 'ep, 'ks, 'sg) mpc \<Rightarrow> bool" where
  "retirement_prevents_future_signing M =
     after (lifecycle_retire active_by_hand) (\<lambda>lc. kl_state lc = KsRetired
     \<and> is_err (check_signing_allowed lc 1)
     \<and> (case lifecycle_retire lc of (lc, r) \<Rightarrow> is_err r \<and> is_err (snd (lifecycle_refresh M lc))))"

definition stale_version_rejected :: "build \<Rightarrow> bool" where
  "stale_version_rejected b =
     (let lc = active_by_hand\<lparr>kl_version := 2\<rparr> :: (unit, unit, unit, unit, unit) key_lifecycle
      in unwrapped (request_for 1 [''A'', ''B'', ''C''] 2 test_gpk 1000) (\<lambda>req.
         approved_twice b req 1100 1200 (\<lambda>req exec.
         rejected (snd (begin_rotation lc req exec)) (\<lambda>e.
           contains ''StaleVersion'' (debug_tss_error e) \<or> contains ''stale'' (debug_tss_error e)))))"

definition governance_quorum_enforced :: "build \<Rightarrow> bool" where
  "governance_quorum_enforced b =
     (let lc = active_by_hand\<lparr>kl_group_key_bytes := Some test_gpk\<rparr> :: (unit, unit, unit, unit, unit) key_lifecycle
      in unwrapped (request_for 1 [''A'', ''B'', ''C''] 2 test_gpk 1000) (\<lambda>req.
         after (rotation_approve b req ''guardian1'' 1100) (\<lambda>req. ro_status req = RotPending
       \<and> \<not> rotation_is_executable req 5000
       \<and> rejected (snd (begin_rotation lc req 5000)) (\<lambda>e. contains ''not executable'' (debug_tss_error e)))))"

definition timelock_enforced :: "build \<Rightarrow> bool" where
  "timelock_enforced b =
     (let lc = active_by_hand\<lparr>kl_group_key_bytes := Some test_gpk\<rparr> :: (unit, unit, unit, unit, unit) key_lifecycle
      in unwrapped (request_for 1 [''A'', ''B'', ''C''] 2 test_gpk 1000) (\<lambda>req.
         approved_twice b req 1100 1200 (\<lambda>req exec.
           rotation_effective_status req (exec - 1) = RotQuorumReached
         \<and> rotation_effective_status req exec = RotExecutable
         \<and> (case begin_rotation lc req (exec - 1) of (lc, r) \<Rightarrow> is_err r
             \<and> is_ok (snd (begin_rotation lc req exec))))))"

definition duplicate_rotation_replay_rejected :: "build \<Rightarrow> bool" where
  "duplicate_rotation_replay_rejected b =
     unwrapped (request_for 1 [''A'', ''B'', ''C''] 2 test_gpk 1000) (\<lambda>req.
       after (rotation_approve b req ''g1'' 1100) (\<lambda>req. is_err (snd (rotation_approve b req ''g1'' 1200))))"

definition signing_with_wrong_threshold_fails :: bool where
  "signing_with_wrong_threshold_fails = is_err (request_for 1 [''A'', ''B''] 3 test_gpk 1000)"

definition time_boundaries :: "build \<Rightarrow> bool" where
  "time_boundaries b =
     unwrapped (rotation_initiate 1 test_wallet 1 [''A'', ''B'', ''C''] 2 ''g'' ''r'' test_gpk 3 2 3600 1000) (\<lambda>req.
     approved_twice b req 1000 1100 (\<lambda>req exec.
       rotation_effective_status req (exec - 1) = RotQuorumReached
     \<and> rotation_effective_status req exec = RotExecutable
     \<and> rotation_effective_status req (exec + 1) = RotExecutable
     \<and> (let lc = active_by_hand\<lparr>kl_group_key_bytes := Some test_gpk\<rparr> :: (unit, unit, unit, unit, unit) key_lifecycle
        in case begin_rotation lc req (exec - 1) of (lc, r) \<Rightarrow> is_err r
         \<and> is_ok (snd (begin_rotation lc req exec)))))"

definition concurrency_races :: "build \<Rightarrow> ('sn, 'v, 'sh, 'ax, 'vk, 'ep, 'ks, 'sg) mpc \<Rightarrow> bool" where
  "concurrency_races b M =
     (let lc = active_by_hand\<lparr>kl_group_key_bytes := Some test_gpk, kl_state := KsRotating\<rparr>
            :: ('sn, 'v, 'sh, 'ax, 'vk) key_lifecycle
      in \<not> ks_can_sign (kl_state lc) \<and> is_err (check_signing_allowed lc 1)
       \<and> unwrapped (rotation_initiate 1 test_wallet 1 [''A'', ''B''] 2 ''g'' ''r'' test_gpk 3 2 3600 0) (\<lambda>req.
           approved_twice b req 0 1 (\<lambda>req exec.
             is_err (snd (begin_rotation (lc\<lparr>kl_state := KsRefreshing\<rparr>) req exec))
           \<and> after (lifecycle_retire (active_by_hand :: ('sn, 'v, 'sh, 'ax, 'vk) key_lifecycle)) (\<lambda>lc2.
               kl_state lc2 = KsRetired
             \<and> (case lifecycle_refresh M lc2 of (lc2, r) \<Rightarrow> is_err r \<and> is_err (check_signing_allowed lc2 1))))))"

lemmas request_test_simps = request_for_def rotation_initiate_def ROTATION_MIN_TIMELOCK_def approved_twice_def
  rotation_approve_def add_u64_def rotation_effective_status_def rotation_is_executable_def
  active_by_hand_def lifecycle_new_def begin_rotation_def ks_can_mutate_def ks_can_sign_def Let_def

lemma quorum_of_two_tests:
  "timelock_enforced b" "time_boundaries b" "duplicate_rotation_replay_rejected b" "signing_with_wrong_threshold_fails"
  by (simp_all add: timelock_enforced_def time_boundaries_def duplicate_rotation_replay_rejected_def
      signing_with_wrong_threshold_fails_def request_test_simps split: build.split)

lemma terminal_tests:
  "retirement_prevents_future_signing M" "concurrency_races b M"
  by (simp_all add: retirement_prevents_future_signing_def concurrency_races_def lifecycle_retire_def
      check_signing_allowed_def lifecycle_refresh_def ks_is_terminal_def request_test_simps split: build.split)

lemma message_tests: "concurrent_lifecycle_operations_blocked b" "stale_version_rejected b"
  "governance_quorum_enforced b"
  by (simp_all add: concurrent_lifecycle_operations_blocked_def stale_version_rejected_def
      governance_quorum_enforced_def request_test_simps debug_str_def escape_char_def split: build.split)

definition governance_tests :: "(build \<Rightarrow> ('sn, 'v, 'sh, 'ax, 'vk, 'ep, 'ks, 'sg) mpc \<Rightarrow> bool) list" where
  "governance_tests =
     [\<lambda>b M. initiate_ok, \<lambda>b M. quorum_and_timelock b, \<lambda>b M. stale_single_guardian_cannot_complete b,
      \<lambda>b M. canonical_deterministic, \<lambda>b M. lifecycle_dkg_activates, \<lambda>b M. retire_prevents_signing,
      \<lambda>b M. lifecycle_lock_prevents_concurrent M, \<lambda>b M. concurrent_lifecycle_operations_blocked b,
      \<lambda>b M. retirement_prevents_future_signing M, \<lambda>b M. stale_version_rejected b,
      \<lambda>b M. governance_quorum_enforced b, \<lambda>b M. timelock_enforced b,
      \<lambda>b M. duplicate_rotation_replay_rejected b, \<lambda>b M. signing_with_wrong_threshold_fails,
      \<lambda>b M. time_boundaries b, \<lambda>b M. concurrency_races b M]"

lemma governance_tests_facts: "list_all (\<lambda>test. test b M) governance_tests"
  by (simp add: governance_tests_def rotation_request_tests lifecycle_unit_tests quorum_of_two_tests
      terminal_tests message_tests)

end
