(* ===== verification/Unit_Tests.thy ===== *)
theory Unit_Tests
  imports Recovery_Tests Core_Tests Transaction_Tests Governance_Tests
begin

text \<open>
  The unit tests of \<open>keymesh-core\<close>, and those of \<open>keymesh-tss\<close> that run no protocol and open no
  connection, together. Each test is a definition of the theory of its part; the lists name them all.
\<close>



end
