(* ===== verification/Network_Tests.thy ===== *)
theory Network_Tests
  imports Test_Support Network_Safety Storage Sim_Transport Tss_Session
begin

text \<open>
  The unit tests of \<open>handshake.rs\<close>, \<open>identity.rs\<close>, \<open>envelope.rs\<close>, \<open>network.rs\<close> and \<open>storage.rs\<close> of
  \<open>keymesh-tss\<close> on the model. A test takes the signature scheme \<open>k\<close> and the random signing keys it
  draws, the codec and sockets \<open>N\<close>, the cipher \<open>A\<close> and the random nonces.
\<close>

section \<open>Handshake\<close>

definition test_binding :: session_binding where
  "test_binding = \<lparr>sb_wallet = replicate 20 0x11, sb_chain_id = 31337, sb_nonce = 0,
     sb_digest = replicate 32 0xAA, sb_policy_version = 1,
     sb_protocol_version = ''synedrion/0.3-cggmp24'', sb_random = replicate 32 0x01\<rparr>"

definition handshake_ok_and_mismatch :: "(bytes \<Rightarrow> bytes) \<Rightarrow> bool" where
  "handshake_ok_and_mismatch keccak \<longleftrightarrow>
     is_ok (handshake_validate keccak test_binding test_binding [0, 1] 2)
   \<and> rejected (handshake_validate keccak test_binding (test_binding\<lparr>sb_digest := replicate 32 0xBB\<rparr>) [0, 1] 2)
       (\<lambda>e. e = DigestMismatch)
   \<and> rejected (handshake_validate keccak test_binding (test_binding\<lparr>sb_chain_id := 1\<rparr>) [0, 1] 2)
       (\<lambda>e. e = ChainMismatch)"

lemma handshake_test: "handshake_ok_and_mismatch keccak"
  by (simp add: handshake_ok_and_mismatch_def handshake_validate_def test_binding_def Let_def)

section \<open>Identities and envelopes\<close>

definition network_identity_sign_verify :: "('sk, 'vk, 'sg) k256_ecdsa \<Rightarrow> 'sk \<Rightarrow> bool" where
  "network_identity_sign_verify k sk =
     (let kp = keypair_generate k sk;
          msg = str_bytes ''hello keymesh'';
          sig = keypair_sign k kp msg;
          i = identity_new 0 (kp_verifying_key kp) (replicate 20 0x11) 31337
      in identity_verify k i msg sig \<and> \<not> identity_verify k i (str_bytes ''wrong'') sig)"

definition wallet_binding :: "('sk, 'vk, 'sg) k256_ecdsa \<Rightarrow> 'sk \<Rightarrow> bool" where
  "wallet_binding k sk =
     (let kp = keypair_generate k sk;
          i = identity_new 1 (kp_verifying_key kp) (replicate 20 0xAA) 11155111
      in check_wallet i (replicate 20 0xAA) 11155111 \<and> \<not> check_wallet i (replicate 20 0xBB) 11155111
       \<and> \<not> check_wallet i (replicate 20 0xAA) 1)"

definition envelope_sign_verify_and_binding :: "('sk, 'vk, 'sg) k256_ecdsa \<Rightarrow> 'sk \<Rightarrow> bool" where
  "envelope_sign_verify_and_binding k sk =
     (let kp = keypair_generate k sk;
          i = identity_new 1 (kp_verifying_key kp) (replicate 20 0x11) 31337;
          env = envelope_sign k kp (envelope_new ''synedrion/0.3-cggmp24'' (replicate 32 0xAA)
            (replicate 20 0x11) 31337 1 1 ''InteractiveSigning'' (replicate 32 0xBB) [1, 2, 3]);
          against = (\<lambda>session digest. validate_against env session (replicate 20 0x11) 31337 digest
            ''synedrion/0.3-cggmp24'')
      in envelope_verify k env i \<and> \<not> envelope_verify k (env\<lparr>te_participant_id := 2\<rparr>) i
       \<and> is_ok (against (replicate 32 0xAA) (replicate 32 0xBB))
       \<and> is_err (against (replicate 32 0xFF) (replicate 32 0xBB))
       \<and> is_err (against (replicate 32 0xAA) (replicate 32 0xCC)))"

section \<open>Transports\<close>

definition in_memory_authenticated_roundtrip :: "('sk, 'vk, 'sg) k256_ecdsa \<Rightarrow> 'sk \<Rightarrow> bool" where
  "in_memory_authenticated_roundtrip k sk =
     (let kp = keypair_generate k sk;
          i = identity_new 0 (kp_verifying_key kp) (replicate 20 0x11) 31337;
          sid = replicate 32 0xAA;
          wallet = replicate 20 0x11;
          (a, b) = mem_with_session sid wallet 31337;
          env = envelope_sign k kp \<lparr>te_protocol_version = ''synedrion/0.3-cggmp24'', te_session_id = sid,
            te_wallet = wallet, te_chain_id = 31337, te_participant_id = 0, te_round = 1,
            te_message_type = ''Test'', te_digest = replicate 32 0xBB, te_payload = [9, 8, 7],
            te_signature = None\<rparr>
      in after (mem_authenticate a i) (\<lambda>a. after (mem_authenticate b i) (\<lambda>b.
         after (mem_send a env) (\<lambda>a.
           let (a, b) = mem_exchange (a, b)
           in case mem_receive b of (b, r) \<Rightarrow> unwrapped_option r (\<lambda>r. unwrapped r (\<lambda>got.
             te_payload got = [9, 8, 7] \<and> envelope_verify k got i))))))"

definition tcp_test_envelope :: "('sk, 'vk, 'sg) k256_ecdsa \<Rightarrow> 'sk \<Rightarrow> tss_envelope" where
  "tcp_test_envelope k sk = envelope_sign k (keypair_generate k sk)
     (envelope_new ''synedrion/0.3-cggmp24'' (replicate 32 0xAA) (replicate 20 0x11) 31337 0 1
       ''Test'' (replicate 32 0x22) [1, 2, 3])"

text \<open>
  The two tasks of the test, the client's calls first: what the client wrote is what the stream that
  the server accepts delivers.
\<close>

definition tcp_frame_roundtrip_and_size_limit ::
  "('sk, 'vk, 'sg) k256_ecdsa \<Rightarrow> ('addr, 'lsn) net_env \<Rightarrow> 'addr \<Rightarrow> 'sk \<Rightarrow> 'sk \<Rightarrow> bool" where
  "tcp_frame_roundtrip_and_size_limit k N addr sk_a sk_b =
     (let kp_a = keypair_generate k sk_a;
          kp_b = keypair_generate k sk_b;
          id_a = identity_new 0 (kp_verifying_key kp_a) (replicate 20 0x11) 31337;
          id_b = identity_new 1 (kp_verifying_key kp_b) (replicate 20 0x11) 31337;
          sid = replicate 32 0xAA;
          expected = Some (sid, replicate 20 0x11, 31337);
          env = tcp_test_envelope k sk_a
      in after (tcp_open N (tcp_client addr expected (Some id_b))) (\<lambda>client.
         after (tcp_authenticate client id_a) (\<lambda>client.
         after (tcp_send N client env) (\<lambda>client.
         unwrapped_option (tt_stream client) (\<lambda>written.
           let N' = N\<lparr>tcp_accept := (\<lambda>_. Ok \<lparr>st_in = st_out written, st_out = [], st_write_error = None\<rparr>)\<rparr>
           in after (tcp_open N' (tcp_server addr expected (Some id_a))) (\<lambda>server.
              after (tcp_authenticate server id_b) (\<lambda>server.
              after_value (tcp_receive k N' server) (\<lambda>_ got. te_participant_id got = 0))))))))"

definition not_authenticated_rejects :: bool where
  "not_authenticated_rejects =
     (let (a, _) = mem_pair;
          env = envelope_new ''v'' (replicate 32 0) (replicate 20 0) 1 0 1 ''T'' (replicate 32 0) []
      in is_err (snd (mem_send a env)))"

section \<open>Storage\<close>

text \<open>The tests' temporary directory is \<open>dir\<close> on an empty disk; \<open>n0\<close>, \<open>n1\<close> are the random nonces.\<close>

definition store_load_roundtrip :: "aead \<Rightarrow> string \<Rightarrow> bytes \<Rightarrow> bool" where
  "store_load_roundtrip A dir n0 =
     (let store = share_store_new A dir ''test-passphrase'';
          data = str_bytes ''secret-share-bytes''
      in after (share_store A store empty_disk 0 n0 data) (\<lambda>D.
         unwrapped (share_load A store D 0) (\<lambda>loaded. loaded = data
       \<and> is_err (share_load A (share_store_new A dir ''wrong'') D 0))))"

definition only_own_share_accessible :: "aead \<Rightarrow> string \<Rightarrow> bytes \<Rightarrow> bytes \<Rightarrow> bool" where
  "only_own_share_accessible A dir n0 n1 =
     (let store = share_store_new A dir ''pass''
      in after (share_store A store empty_disk 0 n0 (str_bytes ''share0'')) (\<lambda>D.
         after (share_store A store D 1 n1 (str_bytes ''share1'')) (\<lambda>D.
         unwrapped (share_load A store D 0) (\<lambda>s. s = str_bytes ''share0'')
       \<and> unwrapped (share_load A store D 1) (\<lambda>s. s = str_bytes ''share1'')
       \<and> is_err (share_load A store D 2))))"

section \<open>The tests pass\<close>

text \<open>The idealised scheme: a signature verifies for the message it was made for only.\<close>

definition ecdsa_binds :: "('sk, 'vk, 'sg) k256_ecdsa \<Rightarrow> bool" where
  "ecdsa_binds k \<longleftrightarrow> (\<forall>sk m m'. ecdsa_verify k (ecdsa_vk k sk) m' (ecdsa_sign k sk m) \<longrightarrow> m' = m)"

lemma identity_tests:
  assumes "ecdsa_correct k"
  shows "ecdsa_binds k \<Longrightarrow> network_identity_sign_verify k sk" and "wallet_binding k sk"
    and "envelope_sign_verify_and_binding k sk"
proof -
  show "network_identity_sign_verify k sk" if "ecdsa_binds k"
  proof -
    have different: "str_bytes ''wrong'' \<noteq> str_bytes ''hello keymesh''" by simp
    have "\<not> ecdsa_verify k (ecdsa_vk k sk) (str_bytes ''wrong'') (ecdsa_sign k sk (str_bytes ''hello keymesh''))"
      using that different unfolding ecdsa_binds_def by blast
    then show ?thesis
      using assms by (simp add: network_identity_sign_verify_def keypair_generate_def keypair_sign_def
          identity_new_def identity_verify_def ecdsa_correct_def Let_def)
  qed
  show "wallet_binding k sk"
    by (simp add: wallet_binding_def check_wallet_def identity_new_def Let_def)
  show "envelope_sign_verify_and_binding k sk"
    using assms by (simp add: envelope_sign_verify_and_binding_def keypair_generate_def keypair_sign_def
        identity_new_def identity_verify_def ecdsa_correct_def envelope_sign_def envelope_verify_def
        envelope_new_def check_wallet_def validate_against_def to_sign_bytes_def Let_def)
qed

lemma memory_tests:
  assumes "ecdsa_correct k"
  shows "in_memory_authenticated_roundtrip k sk" and "not_authenticated_rejects"
proof -
  show "in_memory_authenticated_roundtrip k sk"
    using assms by (simp add: in_memory_authenticated_roundtrip_def keypair_generate_def keypair_sign_def
        identity_new_def identity_verify_def ecdsa_correct_def envelope_sign_def envelope_verify_def
        check_wallet_def mem_with_session_def mem_pair_def mem_authenticate_def mem_send_def mem_exchange_def
        mem_receive_def check_binding_def validate_against_def to_sign_bytes_def Let_def)
  show "not_authenticated_rejects"
    by (simp add: not_authenticated_rejects_def mem_pair_def mem_send_def Let_def)
qed

lemma storage_tests:
  assumes A: "aead_correct A" and n: "length n0 = 12" "length n1 = 12"
    and total: "\<And>k n m. is_ok (aead_encrypt A k n m)"
  shows "only_own_share_accessible A dir n0 n1"
proof -
  let ?S = "share_store_new A dir ''pass''"
  have ok: "\<exists>D'. share_store A S D i nonce data = (D', Ok ())"
    if "dk_write_error D (path_for S i) = None" for S D i nonce data
    using that total [of "es_key S" nonce data] by (auto simp: share_store_def fs_write_def is_ok_iff)
  have empty_writable: "dk_write_error empty_disk p = None" for p by (simp add: empty_disk_def)
  obtain D0 where D0: "share_store A ?S empty_disk 0 n0 (str_bytes ''share0'') = (D0, Ok ())"
    using ok [of empty_disk] by (meson empty_writable)
  then have w: "dk_write_error D0 p = None" for p
    by (auto simp: share_store_disk empty_disk_def fs_write_def fs_set_mode_def)
  obtain D1 where D1: "share_store A ?S D0 1 n1 (str_bytes ''share1'') = (D1, Ok ())"
    using ok [of D0] w by meson
  have "share_load A ?S D1 0 = Ok (str_bytes ''share0'')"
    using shares.stored [OF A n(1) D0] shares.stored_other [of 1 0 A ?S D0 n1 "str_bytes ''share1''"] D1 by simp
  moreover have "share_load A ?S D1 1 = Ok (str_bytes ''share1'')" by (rule shares.stored [OF A n(2) D1])
  moreover have "share_load A ?S D1 2 = share_load A ?S empty_disk 2"
    using shares.stored_other [of 1 2 A ?S D0 n1 "str_bytes ''share1''"] D1
      shares.stored_other [of 0 2 A ?S empty_disk n0 "str_bytes ''share0''"] D0 by simp
  moreover have "is_err (share_load A ?S empty_disk 2)"
    by (simp add: share_load_def fs_read_def empty_disk_def)
  ultimately show ?thesis
    using D0 D1 by (simp add: only_own_share_accessible_def Let_def)
qed

text \<open>
  The idealised cipher: a different key, or one flipped byte, never decrypts, and a ciphertext is
  longer than its message (it carries a tag).
\<close>

definition flip_byte :: "nat \<Rightarrow> bytes \<Rightarrow> bytes" where
  "flip_byte i c = c[i := xor (c ! i) 0xFF]"

definition aead_authentic :: "aead \<Rightarrow> bool" where
  "aead_authentic A \<longleftrightarrow> (\<forall>k n m c. aead_encrypt A k n m = Ok c \<longrightarrow> length m < length c
     \<and> (\<forall>k'. k \<noteq> k' \<longrightarrow> is_err (aead_decrypt A k' n c))
     \<and> (\<forall>i < length c. is_err (aead_decrypt A k n (flip_byte i c))))"

lemma wrong_passphrase_test:
  assumes A: "aead_correct A" "aead_authentic A" and n: "length n0 = 12"
    and total: "\<And>k n m. is_ok (aead_encrypt A k n m)"
    and keys: "take 32 (sha256 A (str_bytes ''test-passphrase'')) \<noteq> take 32 (sha256 A (str_bytes ''wrong''))"
  shows "store_load_roundtrip A dir n0"
proof -
  let ?S = "share_store_new A dir ''test-passphrase''" and ?W = "share_store_new A dir ''wrong''"
  obtain c where c: "aead_encrypt A (es_key ?S) n0 (str_bytes ''secret-share-bytes'') = Ok c"
    using total [of "es_key ?S"] by (auto simp: is_ok_iff)
  let ?D = "fs_set_mode (fst (fs_write empty_disk (path_for ?S 0) (n0 @ c))) (path_for ?S 0) 384"
  have s: "share_store A ?S empty_disk 0 n0 (str_bytes ''secret-share-bytes'') = (?D, Ok ())"
    by (simp add: share_store_def c fs_write_def empty_disk_def)
  have "fs_read ?D (path_for ?W 0) = Ok (n0 @ c)"
    unfolding fs_read_alt fs_set_mode_content
    by (simp add: fs_write_def empty_disk_def path_for_def share_store_new_def)
  moreover have "is_err (aead_decrypt A (es_key ?W) n0 c)"
    using A(2) c keys unfolding aead_authentic_def by (auto simp: share_store_new_def)
  ultimately have "is_err (share_load A ?W ?D 0)"
    using n by (cases "aead_decrypt A (es_key ?W) n0 c") (auto simp: share_load_def)
  moreover have "share_load A ?S ?D 0 = Ok (str_bytes ''secret-share-bytes'')"
    by (rule shares.stored [OF A(1) n s])
  ultimately show ?thesis using s by (simp add: store_load_roundtrip_def Let_def)
qed

lemma tcp_test:
  assumes k: "ecdsa_correct k" and N: "json_correct N" and fits: "is_ok (encode_frame N (tcp_test_envelope k sk_a))"
    and net: "tcp_connect N addr = Ok \<lparr>st_in = inp, st_out = [], st_write_error = None\<rparr>" "is_ok (tcp_bind N addr)"
  shows "tcp_frame_roundtrip_and_size_limit k N addr sk_a sk_b"
proof -
  let ?e = "tcp_test_envelope k sk_a"
  let ?key = "Some (replicate 32 0xAA, replicate 20 0x11, 31337) :: session_key option"
  let ?A = "identity_new 0 (ecdsa_vk k sk_a) (replicate 20 0x11) 31337"
  from fits obtain bs where bs: "encode_frame N ?e = Ok bs" by (auto simp: is_ok_iff)
  from net(2) obtain l where l: "tcp_bind N addr = Ok l" by (auto simp: is_ok_iff)
  let ?out = "u32_be (word_of_nat (length bs)) @ bs"
  let ?N = "N\<lparr>tcp_accept := (\<lambda>_. Ok \<lparr>st_in = ?out, st_out = [], st_write_error = None\<rparr>)\<rparr>"
  have b: "check_binding ?key ?e = Ok ()"
    by (simp add: check_binding_def validate_against_def tcp_test_envelope_def envelope_sign_def envelope_new_def)
  have w: "write_frame N ?e \<lparr>st_in = inp, st_out = [], st_write_error = None\<rparr>
      = (\<lparr>st_in = inp, st_out = ?out, st_write_error = None\<rparr>, Ok ())"
    by (simp add: write_frame_Ok bs)
  have "json_correct ?N" "encode_frame ?N ?e = Ok bs"
    using N bs by (simp_all add: json_correct_def encode_frame_def)
  then have r: "read_frame ?N \<lparr>st_in = ?out, st_out = [], st_write_error = None\<rparr>
      = (\<lparr>st_in = [], st_out = [], st_write_error = None\<rparr>, Ok ?e)"
    using read_frame_back [of ?N ?e bs "\<lparr>st_in = ?out, st_out = [], st_write_error = None\<rparr>" "[]"] by simp
  have v: "envelope_verify k ?e ?A"
    using k by (simp add: tcp_test_envelope_def envelope_verify_def envelope_sign_def envelope_new_def
        keypair_generate_def keypair_sign_def identity_new_def identity_verify_def check_wallet_def
        ecdsa_correct_def to_sign_bytes_def)
  have p: "te_participant_id ?e = 0"
    by (simp add: tcp_test_envelope_def envelope_sign_def envelope_new_def)
  show ?thesis
    by (simp add: tcp_frame_roundtrip_and_size_limit_def tcp_open_def tcp_client_def tcp_server_def net(1) l
        tcp_authenticate_def tcp_send_def tcp_receive_def b w r v p keypair_generate_def Let_def)
qed

section \<open>Adversarial tests\<close>

text \<open>
  The tests of \<open>tests_adversarial.rs\<close> and \<open>tests_real.rs\<close> about storage, envelopes, the simulated transport
  and sessions that run no protocol. A blob is corrupted in its thirteenth byte, then truncated.
\<close>

definition storage_failures :: "aead \<Rightarrow> string \<Rightarrow> bytes \<Rightarrow> bytes \<Rightarrow> bool" where
  "storage_failures A dir n0 n1 =
     (let store = share_store_new A dir ''pass'';
          p = path_join dir ''share-0.enc''
      in is_err (share_load A store empty_disk 0)
       \<and> after (share_store A store empty_disk 0 n0 (str_bytes ''secret'')) (\<lambda>D.
         unwrapped (fs_read D p) (\<lambda>blob. 12 < length blob
       \<and> (let blob = flip_byte 12 blob
          in after (fs_write D p blob) (\<lambda>D. is_err (share_load A store D 0)
           \<and> after (fs_write D p (take 10 blob)) (\<lambda>D. is_err (share_load A store D 0)
           \<and> after (share_store A store D 1 n1 (str_bytes ''ok'')) (\<lambda>D.
               is_err (share_load A (share_store_new A dir ''wrong'') D 1)
             \<and> is_err (share_load A store D 99))))))))"

definition network_adversarial_framing :: "('sk, 'vk, 'sg) k256_ecdsa \<Rightarrow> 'sk \<Rightarrow> bool" where
  "network_adversarial_framing k sk =
     (let kp = keypair_generate k sk;
          env = envelope_sign k kp (envelope_new ''synedrion/0.3-cggmp24'' (replicate 32 0xAA) (replicate 20 0x11)
            31337 0 1 ''Test'' (replicate 32 0x22) (replicate (70 * 1024) 0));
          i = identity_new 0 (kp_verifying_key kp) (replicate 20 0x11) 31337;
          env2 = envelope_sign k kp (envelope_new ''v'' (replicate 32 0) (replicate 20 0xFF) 1 0 1 ''T''
            (replicate 32 0) [])
      in MAX_TSS_MESSAGE_BYTES < length (te_payload env) \<and> \<not> envelope_verify k env2 i
       \<and> is_err (validate_against env2 (replicate 32 0xAA) (replicate 20 0x11) 31337 (replicate 32 0) ''v''))"

definition sim_message :: "u8 \<Rightarrow> u8 \<Rightarrow> bytes \<Rightarrow> transport_message" where
  "sim_message sender rnd payload = \<lparr>tm_session_id = replicate 32 0xaa, tm_sender = sender, tm_round = rnd,
     tm_payload = payload, tm_digest = replicate 32 0xbb\<rparr>"

definition transport_simulator_checks :: bool where
  "transport_simulator_checks =
     (let t = sim_send (sim_send sim_new (sim_message 1 1 [1, 2])) (sim_message 2 1 [3, 4])
      in is_ok (check_no_duplicate t) \<and> is_err (check_no_duplicate (duplicate_first t))
       \<and> is_err (check_round_order (sim_send sim_new (sim_message 1 99 [])))
       \<and> is_err (verify_binding (modify_first_digest (sim_send sim_new (sim_message 1 1 [])) (replicate 32 0xff))
           (replicate 32 0xaa) (replicate 32 0xbb)))"

definition resource_exhaustion_bounded :: bool where
  "resource_exhaustion_bounded =
     (let t = foldl (\<lambda>t i. sim_send t \<lparr>tm_session_id = replicate 32 0, tm_sender = word_of_nat (i mod 3),
            tm_round = 1, tm_payload = replicate 10 0, tm_digest = replicate 32 0\<rparr>) sim_new [0..<1000]
      in length (sim_messages t) = 1000 \<and> is_err (check_no_duplicate t))"

text \<open>The bindings of \<open>tests_real.rs\<close>: a fixed wallet, chain and protocol version.\<close>

definition dummy_binding :: "bytes \<Rightarrow> bytes \<Rightarrow> session_binding" where
  "dummy_binding digest random = \<lparr>sb_wallet =
       [0xf3, 0x9F, 0xd6, 0xe5, 0x1a, 0xad, 0x88, 0xF6, 0xF4, 0xce, 0x6a, 0xB8, 0x82, 0x72, 0x79, 0xcf,
        0xff, 0xb9, 0x22, 0x66],
     sb_chain_id = 31337, sb_nonce = 0, sb_digest = digest, sb_policy_version = 1,
     sb_protocol_version = ''synedrion/0.3-cggmp24'', sb_random = random\<rparr>"

definition abort_terminal :: "(bytes \<Rightarrow> bytes) \<Rightarrow> bool" where
  "abort_terminal keccak =
     (let sess = tss_session_new keccak (dummy_binding (replicate 32 0xaa) (replicate 32 0xbb)) [1, 2] 2
      in ts_status sess = TssStarted
       \<and> after (tss_transition sess TssAborted) (\<lambda>sess. case tss_transition sess TssCompleted of (sess, r) \<Rightarrow>
           is_err r
         \<and> ts_session_id sess \<noteq> derive_session_id keccak (dummy_binding (replicate 32 0xaa) (replicate 32 0xcc))))"

lemma simulator_tests: "transport_simulator_checks" "resource_exhaustion_bounded"
proof -
  show "transport_simulator_checks"
    by (simp add: transport_simulator_checks_def sim_message_def sim_send_def sim_new_def check_no_duplicate_def
        duplicate_first_def check_round_order_def verify_binding_def modify_first_digest_def Let_def)
  let ?m = "\<lambda>i. \<lparr>tm_session_id = replicate 32 0, tm_sender = word_of_nat (i mod 3), tm_round = 1,
      tm_payload = replicate 10 0, tm_digest = replicate 32 0\<rparr> :: transport_message"
  have f: "sim_messages (foldl (\<lambda>t i. sim_send t (?m i)) t xs) = sim_messages t @ map ?m xs" for t xs
    by (induction xs arbitrary: t) (simp_all add: sim_send_def)
  have "[0..<4] = [0, 1, 2, 3]" by (simp add: upt_rec)
  then have e: "[0..<1000] = [0, 1, 2, 3] @ [4..<1000]" using upt_add_eq_append [of 0 4 996] by simp
  have "is_err (no_duplicate_list {} (map ?m ([0, 1, 2, 3] @ xs)))" for xs by simp
  then have "is_err (no_duplicate_list {} (map ?m [0..<1000]))" unfolding e .
  moreover have "length (sim_messages sim_new) = 0" by (simp add: sim_new_def)
  ultimately show "resource_exhaustion_bounded"
    unfolding resource_exhaustion_bounded_def Let_def f check_no_duplicate_def length_append length_map
    by (simp add: sim_new_def del: upt_rec_numeral)
qed

lemma framing_test: "network_adversarial_framing k sk"
  by (simp add: network_adversarial_framing_def MAX_TSS_MESSAGE_BYTES_def envelope_sign_def envelope_new_def
      envelope_verify_def identity_new_def check_wallet_def validate_against_def Let_def)

text \<open>Distinct session ids: a hash without a collision on the two encodings.\<close>

abbreviation abort_bindings :: "session_binding set" where
  "abort_bindings \<equiv> {dummy_binding (replicate 32 0xaa) (replicate 32 0xbb),
     dummy_binding (replicate 32 0xaa) (replicate 32 0xcc)}"

lemma abort_test:
  assumes "inj_on keccak (session_preimage ` abort_bindings)"
  shows "abort_terminal keccak"
proof -
  let ?a = "dummy_binding (replicate 32 0xaa) (replicate 32 0xbb)"
  let ?b = "dummy_binding (replicate 32 0xaa) (replicate 32 0xcc)"
  have wf: "binding_wf ?a" "binding_wf ?b" by (simp_all add: binding_wf_def dummy_binding_def)
  have "?a \<noteq> ?b" by (simp add: dummy_binding_def)
  then have "session_preimage ?a \<noteq> session_preimage ?b" using session_preimage_inject [OF wf] by blast
  then have "derive_session_id keccak ?a \<noteq> derive_session_id keccak ?b"
    using inj_on_contraD [OF assms] by (simp add: derive_session_id_def)
  then show ?thesis
    by (simp add: abort_terminal_def tss_session_new_def tss_transition_def Let_def)
qed

text \<open>A disk on which every path can be written, and what writing and storing leave on it.\<close>

definition writable :: "disk \<Rightarrow> bool" where
  "writable D \<longleftrightarrow> (\<forall>p. dk_write_error D p = None)"

lemma writable_empty: "writable empty_disk"
  by (simp add: writable_def empty_disk_def)

lemma fs_write_writable:
  assumes "writable D"
  obtains D1 where "fs_write D p c = (D1, Ok ())" "writable D1" "fs_read D1 p = Ok c"
    "\<And>q. q \<noteq> p \<Longrightarrow> dk_files D1 q = dk_files D q"
proof (rule that [of "fst (fs_write D p c)"])
  show "dk_files (fst (fs_write D p c)) q = dk_files D q" if "q \<noteq> p" for q
    using that by (intro fs_write_other) simp
qed (use assms in \<open>auto simp: fs_write_def writable_def fs_read_def\<close>)

lemma share_store_writable:
  assumes "writable D" and "\<And>k n m. is_ok (aead_encrypt A k n m)"
  obtains D1 c where "share_store A S D i nonce data = (D1, Ok ())"
    "aead_encrypt A (es_key S) nonce data = Ok c" "writable D1" "fs_read D1 (path_for S i) = Ok (nonce @ c)"
    "\<And>q. q \<noteq> path_for S i \<Longrightarrow> dk_files D1 q = dk_files D q"
proof -
  obtain c where c: "aead_encrypt A (es_key S) nonce data = Ok c"
    using assms(2) [of "es_key S" nonce data] by (auto simp: is_ok_iff)
  obtain D1 where D1: "fs_write D (path_for S i) (nonce @ c) = (D1, Ok ())" "writable D1"
      "fs_read D1 (path_for S i) = Ok (nonce @ c)" "\<And>q. q \<noteq> path_for S i \<Longrightarrow> dk_files D1 q = dk_files D q"
    by (rule fs_write_writable [OF assms(1)]) (rule that)
  let ?D = "fs_set_mode D1 (path_for S i) 384"
  have "fs_read ?D (path_for S i) = Ok (nonce @ c)"
    using D1(3) unfolding fs_read_alt fs_set_mode_content fs_set_mode_missing_text .
  moreover have "writable ?D"
    using D1(2) by (auto simp: writable_def fs_set_mode_def split: option.split)
  moreover have "dk_files ?D q = dk_files D q" if "q \<noteq> path_for S i" for q
    using that D1(4) by (auto simp: fs_set_mode_def split: option.split)
  ultimately show thesis
    using c D1(1) by (intro that [of ?D c]) (simp_all add: share_store_def)
qed

lemma load_blob:
  assumes "fs_read D (path_for S i) = Ok blob"
  shows "length blob < 12 \<or> is_err (aead_decrypt A (es_key S) (take 12 blob) (drop 12 blob)) \<Longrightarrow> is_err (share_load A S D i)"
  using assms
  by (cases "aead_decrypt A (es_key S) (take 12 blob) (drop 12 blob)") (auto simp: share_load_def)

lemma storage_failures_test:
  assumes A: "aead_authentic A" and total: "\<And>k n m. is_ok (aead_encrypt A k n m)"
    and n: "length n0 = 12" "length n1 = 12"
    and keys: "take 32 (sha256 A (str_bytes ''pass'')) \<noteq> take 32 (sha256 A (str_bytes ''wrong''))"
  shows "storage_failures A dir n0 n1"
proof -
  let ?S = "share_store_new A dir ''pass''" and ?W = "share_store_new A dir ''wrong''"
  let ?p = "path_join dir ''share-0.enc''"
  have p: "path_for ?S 0 = ?p" by (simp add: path_for_def share_store_new_def show_small_nats)
  have w: "path_for ?W i = path_for ?S i" for i by (simp add: path_for_def share_store_new_def)
  obtain D1 c where D1: "share_store A ?S empty_disk 0 n0 (str_bytes ''secret'') = (D1, Ok ())"
      "aead_encrypt A (es_key ?S) n0 (str_bytes ''secret'') = Ok c" "writable D1"
      "fs_read D1 (path_for ?S 0) = Ok (n0 @ c)" "\<And>q. q \<noteq> path_for ?S 0 \<Longrightarrow> dk_files D1 q = dk_files empty_disk q"
    by (rule share_store_writable [OF writable_empty total]) (rule that)
  let ?bad = "flip_byte 12 (n0 @ c)"
  have c: "0 < length c" "is_err (aead_decrypt A (es_key ?S) n0 (flip_byte 0 c))"
    using A D1(2) unfolding aead_authentic_def by fastforce+
  have bad: "?bad = n0 @ flip_byte 0 c" using n by (simp add: flip_byte_def list_update_append nth_append)
  obtain D2 where D2: "fs_write D1 ?p ?bad = (D2, Ok ())" "writable D2" "fs_read D2 ?p = Ok ?bad"
      "\<And>q. q \<noteq> ?p \<Longrightarrow> dk_files D2 q = dk_files D1 q"
    by (rule fs_write_writable [OF D1(3)]) (rule that)
  obtain D3 where D3: "fs_write D2 ?p (take 10 ?bad) = (D3, Ok ())" "writable D3" "fs_read D3 ?p = Ok (take 10 ?bad)"
      "\<And>q. q \<noteq> ?p \<Longrightarrow> dk_files D3 q = dk_files D2 q"
    by (rule fs_write_writable [OF D2(2)]) (rule that)
  obtain D4 c4 where D4: "share_store A ?S D3 1 n1 (str_bytes ''ok'') = (D4, Ok ())"
      "aead_encrypt A (es_key ?S) n1 (str_bytes ''ok'') = Ok c4" "fs_read D4 (path_for ?S 1) = Ok (n1 @ c4)"
      "\<And>q. q \<noteq> path_for ?S 1 \<Longrightarrow> dk_files D4 q = dk_files D3 q"
    by (rule share_store_writable [OF D3(2) total]) (rule that)
  have "is_err (share_load A ?S D2 0)"
    by (rule load_blob [where blob = ?bad]) (use D2(3) p n c bad in simp_all)
  moreover have "is_err (share_load A ?S D3 0)"
    by (rule load_blob [where blob = "take 10 ?bad"]) (use D3(3) p n c bad in simp_all)
  moreover have "is_err (aead_decrypt A (es_key ?W) n1 c4)"
    using A D4(2) keys unfolding aead_authentic_def by (simp add: share_store_new_def)
  then have "is_err (share_load A ?W D4 1)"
    by (intro load_blob [where blob = "n1 @ c4"]) (use D4(3) w n in simp_all)
  moreover have "dk_files D4 (path_for ?S 99) = dk_files empty_disk (path_for ?S 99)"
    by (simp add: D1(5) D2(4) D3(4) D4(4) p [symmetric])
  then have "is_err (share_load A ?S D4 99)" by (simp add: share_load_def fs_read_def empty_disk_def)
  moreover have "is_err (share_load A ?S empty_disk 0)" by (simp add: share_load_def fs_read_def empty_disk_def)
  ultimately show ?thesis
    using n c(1) D1 D2 D3 D4 p by (simp add: storage_failures_def Let_def)
qed

section \<open>All of them\<close>

text \<open>
  What the tests of this theory need of their libraries: correct and idealised signatures, an
  hash without a collision on the sessions of the tests, an authenticated cipher that distinguishes the tests' passphrases, nonces of twelve
  bytes, and a loopback connection whose codec fits the test's envelope into a frame.
\<close>

definition network_world ::
  "('sk, 'vk, 'sg) k256_ecdsa \<Rightarrow> (bytes \<Rightarrow> bytes) \<Rightarrow> aead \<Rightarrow> ('addr, 'lsn) net_env \<Rightarrow> 'addr \<Rightarrow> 'sk \<Rightarrow> bool" where
  "network_world k keccak A N addr sk \<longleftrightarrow> ecdsa_correct k \<and> ecdsa_binds k
     \<and> inj_on keccak (session_preimage ` abort_bindings)
     \<and> aead_correct A \<and> aead_authentic A \<and> (\<forall>k n m. is_ok (aead_encrypt A k n m))
     \<and> inj_on (\<lambda>pw. take 32 (sha256 A (str_bytes pw))) {''test-passphrase'', ''pass'', ''wrong''}
     \<and> json_correct N \<and> is_ok (encode_frame N (tcp_test_envelope k sk))
     \<and> tcp_connect N addr = Ok \<lparr>st_in = [], st_out = [], st_write_error = None\<rparr> \<and> is_ok (tcp_bind N addr)"

definition network_tests ::
  "(('sk, 'vk, 'sg) k256_ecdsa \<Rightarrow> (bytes \<Rightarrow> bytes) \<Rightarrow> aead \<Rightarrow> ('addr, 'lsn) net_env \<Rightarrow> 'addr \<Rightarrow> 'sk \<Rightarrow> 'sk
     \<Rightarrow> string \<Rightarrow> bytes \<Rightarrow> bytes \<Rightarrow> bool) list" where
  "network_tests =
     [\<lambda>k h A N addr sk sk' dir n0 n1. handshake_ok_and_mismatch h,
      \<lambda>k h A N addr sk sk' dir n0 n1. network_identity_sign_verify k sk,
      \<lambda>k h A N addr sk sk' dir n0 n1. wallet_binding k sk,
      \<lambda>k h A N addr sk sk' dir n0 n1. envelope_sign_verify_and_binding k sk,
      \<lambda>k h A N addr sk sk' dir n0 n1. in_memory_authenticated_roundtrip k sk,
      \<lambda>k h A N addr sk sk' dir n0 n1. tcp_frame_roundtrip_and_size_limit k N addr sk sk',
      \<lambda>k h A N addr sk sk' dir n0 n1. not_authenticated_rejects,
      \<lambda>k h A N addr sk sk' dir n0 n1. store_load_roundtrip A dir n0,
      \<lambda>k h A N addr sk sk' dir n0 n1. only_own_share_accessible A dir n0 n1,
      \<lambda>k h A N addr sk sk' dir n0 n1. storage_failures A dir n0 n1,
      \<lambda>k h A N addr sk sk' dir n0 n1. network_adversarial_framing k sk,
      \<lambda>k h A N addr sk sk' dir n0 n1. transport_simulator_checks,
      \<lambda>k h A N addr sk sk' dir n0 n1. resource_exhaustion_bounded,
      \<lambda>k h A N addr sk sk' dir n0 n1. abort_terminal h]"


text \<open>A toy world: signatures and hashes are the message; the cipher sends the key and the message twice.\<close>

definition echo_ecdsa :: "(unit, unit, bytes) k256_ecdsa" where
  "echo_ecdsa = \<lparr>ecdsa_sign = (\<lambda>_ m. m), ecdsa_verify = (\<lambda>_ m s. s = m), ecdsa_vk = (\<lambda>_. ()),
     sig_to_vec = (\<lambda>s. s), sig_from_slice = Some\<rparr>"

definition key_code :: "bytes \<Rightarrow> bytes" where
  "key_code k = concat (map (\<lambda>b. [1, b]) k) @ [0]"

definition echo_cipher :: aead where
  "echo_cipher = \<lparr>aead_encrypt = (\<lambda>k n m. Ok (key_code k @ m @ m)),
     aead_decrypt = (\<lambda>k n c. let r = drop (length (key_code k)) c; h = length r div 2 in
       if take (length (key_code k)) c = key_code k \<and> take h r = drop h r then Ok (take h r) else Err ''aead::Error''),
     sha256 = (\<lambda>m. m)\<rparr>"

definition echo_net :: "(unit, unit) net_env" where
  "echo_net = (let f = \<lparr>fr_version = 1, fr_envelope = tcp_test_envelope echo_ecdsa ()\<rparr> in
     \<lparr>json_to_vec = (\<lambda>g. if g = f then Ok [0x7B] else Err ''unsupported''), json_from_slice = (\<lambda>_. Ok f),
      eof_text = ''early eof'', tcp_connect = (\<lambda>_. Ok \<lparr>st_in = [], st_out = [], st_write_error = None\<rparr>),
      tcp_bind = (\<lambda>_. Ok ()), tcp_accept = (\<lambda>_. Err ''refused'')\<rparr>)"

lemma key_code_prefix: "key_code k @ x = key_code k' @ y \<Longrightarrow> k = k'"
proof (induction k arbitrary: k')
  case Nil
  then show ?case by (cases k') (auto simp: key_code_def)
next
  case (Cons b k)
  then show ?case by (cases k') (auto simp: key_code_def)
qed

lemma echo_cipher_wrong_key:
  assumes "k \<noteq> k'"
  shows "is_err (aead_decrypt echo_cipher k' n (key_code k @ x))"
proof -
  have "take (length (key_code k')) (key_code k @ x) \<noteq> key_code k'"
  proof
    assume "take (length (key_code k')) (key_code k @ x) = key_code k'"
    then have "key_code k @ x = key_code k' @ drop (length (key_code k')) (key_code k @ x)"
      by (metis append_take_drop_id)
    from key_code_prefix [OF this] assms show False by simp
  qed
  then show ?thesis by (simp add: echo_cipher_def Let_def)
qed

lemma flip_byte_nth: "i < length c \<Longrightarrow> flip_byte i c ! i \<noteq> c ! i"
proof
  assume "i < length c" and "flip_byte i c ! i = c ! i"
  then have "xor (c ! i) (xor (c ! i) 0xFF) = 0" by (simp add: flip_byte_def)
  then show False by (simp add: xor.assoc [symmetric])
qed

lemma echo_cipher_flipped:
  assumes "i < length (key_code k @ m @ m)"
  shows "is_err (aead_decrypt echo_cipher k n (flip_byte i (key_code k @ m @ m)))"
proof (cases "i < length (key_code k)")
  case True
  then have "flip_byte i (key_code k @ m @ m) = flip_byte i (key_code k) @ m @ m"
    by (simp add: flip_byte_def list_update_append nth_append)
  moreover have "length (flip_byte i (key_code k)) = length (key_code k)" by (simp add: flip_byte_def)
  moreover have "flip_byte i (key_code k) \<noteq> key_code k" using flip_byte_nth [OF True] by metis
  ultimately show ?thesis by (simp add: echo_cipher_def Let_def)
next
  case False
  let ?j = "i - length (key_code k)"
  have f: "flip_byte i (key_code k @ m @ m) = key_code k @ flip_byte ?j (m @ m)"
    using False by (simp add: flip_byte_def list_update_append nth_append)
  have j: "?j < length m + length m" using False assms by auto
  have "take (length m) (flip_byte ?j (m @ m)) \<noteq> drop (length m) (flip_byte ?j (m @ m))"
  proof (cases "?j < length m")
    case True
    then have "flip_byte ?j (m @ m) = flip_byte ?j m @ m"
      by (simp add: flip_byte_def list_update_append nth_append)
    moreover have "length (flip_byte ?j m) = length m" by (simp add: flip_byte_def)
    ultimately show ?thesis using flip_byte_nth [OF True] by auto
  next
    case False
    then have "flip_byte ?j (m @ m) = m @ flip_byte (?j - length m) m"
      by (simp add: flip_byte_def list_update_append nth_append)
    moreover have "?j - length m < length m" using False j by simp
    ultimately show ?thesis using flip_byte_nth [of "?j - length m" m] by auto
  qed
  moreover have "length (flip_byte ?j (m @ m)) div 2 = length m" by (simp add: flip_byte_def)
  ultimately show ?thesis unfolding f by (simp add: echo_cipher_def Let_def)
qed

lemma echo_world: "network_world echo_ecdsa (\<lambda>x. x) echo_cipher echo_net () ()"
proof -
  have "aead_authentic echo_cipher"
    unfolding aead_authentic_def
  proof (intro allI impI)
    fix k n m c assume "aead_encrypt echo_cipher k n m = Ok c"
    then have c: "c = key_code k @ m @ m" by (simp add: echo_cipher_def)
    show "length m < length c \<and> (\<forall>k'. k \<noteq> k' \<longrightarrow> is_err (aead_decrypt echo_cipher k' n c))
        \<and> (\<forall>i < length c. is_err (aead_decrypt echo_cipher k n (flip_byte i c)))"
      unfolding c using echo_cipher_wrong_key echo_cipher_flipped by (auto simp: key_code_def)
  qed
  moreover have "ecdsa_correct echo_ecdsa" "ecdsa_binds echo_ecdsa"
    by (auto simp: ecdsa_correct_def ecdsa_binds_def echo_ecdsa_def)
  moreover have "aead_correct echo_cipher" "\<forall>k n m. is_ok (aead_encrypt echo_cipher k n m)"
    by (auto simp: aead_correct_def echo_cipher_def Let_def)
  moreover have "inj_on (\<lambda>pw. take 32 (sha256 echo_cipher (str_bytes pw))) {''test-passphrase'', ''pass'', ''wrong''}"
    by (simp add: inj_on_def echo_cipher_def)
  moreover have "json_correct echo_net" "is_ok (encode_frame echo_net (tcp_test_envelope echo_ecdsa ()))"
      "tcp_connect echo_net () = Ok \<lparr>st_in = [], st_out = [], st_write_error = None\<rparr>" "is_ok (tcp_bind echo_net ())"
    by (auto simp: json_correct_def echo_net_def encode_frame_def FRAME_VERSION_def MAX_TSS_MESSAGE_BYTES_def Let_def
        simp del: res_bind_Ok_iff)
  ultimately show ?thesis by (simp add: network_world_def)
qed


end
