(* ===== verification/Signing_Tests.thy ===== *)
theory Signing_Tests
  imports Network_Tests Availability
begin

text \<open>
  The tests of \<open>tests_real.rs\<close> and \<open>tests_adversarial.rs\<close> that generate a key and sign (the crate marks
  them \<open>ignore\<close> because the protocols are slow). Every run of a protocol has its own outcome: a test
  takes the sequence \<open>run\<close> of them, in the order in which the test runs the protocols.
\<close>

section \<open>Helpers\<close>

definition keymesh_digest :: bytes where
  "keymesh_digest =
     [0xef, 0x48, 0x43, 0x4b, 0x4e, 0xa4, 0x72, 0x52, 0xca, 0xab, 0x33, 0x12, 0xae, 0xf0, 0xd2, 0x99,
      0xb5, 0x97, 0x0b, 0xf1, 0xc8, 0xf1, 0xbd, 0x43, 0xe7, 0x1c, 0x06, 0x79, 0x1a, 0xd0, 0xb6, 0x6a]"

definition flip_bit :: "nat \<Rightarrow> bytes \<Rightarrow> bytes" where
  "flip_bit i bs = bs[i := xor (bs ! i) 1]"

text \<open>\<open>let Ok(x) = call else { return; }\<close>\<close>

primrec on_success :: "('e, 'a) res \<Rightarrow> ('a \<Rightarrow> bool) \<Rightarrow> bool" where
  "on_success (Ok a) rest = rest a"
| "on_success (Err e) rest = True"
| "on_success Panic rest = False"

text \<open>\<open>verify_signature\<close> as an asserted condition: a panic fails the test.\<close>

definition verifies ::
  "build \<Rightarrow> ('sg, 'es, 'rid, 'sc, 'vk) ecdsa_backend \<Rightarrow> bytes \<Rightarrow> threshold_signature \<Rightarrow> 'vk \<Rightarrow> bool" where
  "verifies b E digest sg vk = unwrapped (verify_signature b E digest sg vk) (\<lambda>ok. ok)"

definition refuses ::
  "build \<Rightarrow> ('sg, 'es, 'rid, 'sc, 'vk) ecdsa_backend \<Rightarrow> bytes \<Rightarrow> threshold_signature \<Rightarrow> 'vk \<Rightarrow> bool" where
  "refuses b E digest sg vk = unwrapped (verify_signature b E digest sg vk) (\<lambda>ok. \<not> ok)"

abbreviation sid_of :: "('sn, 'v, 'sh, 'ax, 'vk, 'ep, 'ks, 'sg) mpc \<Rightarrow> session_binding \<Rightarrow> tss_session_id" where
  "sid_of M binding \<equiv> derive_session_id (mpc_keccak M) binding"

abbreviation vk_of :: "('sn, 'v, 'sh, 'ax, 'vk) key_material \<Rightarrow> 'vk" where
  "vk_of mat \<equiv> g_verifying_key (m_group_key mat)"

type_synonym ('sn, 'v, 'sh, 'ax, 'vk, 'ep, 'ks, 'sg, 'es, 'rid, 'sc) signing_test =
  "build \<Rightarrow> (nat \<Rightarrow> ('sn, 'v, 'sh, 'ax, 'vk, 'ep, 'ks, 'sg) mpc)
     \<Rightarrow> ('sg, 'es, 'rid, 'sc, 'vk) ecdsa_backend \<Rightarrow> bool"

section \<open>The tests of a real key\<close>

definition dkg_succeeds_and_group_key_stable ::
  "('sn, 'v::linorder, 'sh, 'ax, 'vk, 'ep, 'ks, 'sg, 'es, 'rid, 'sc) signing_test" where
  "dkg_succeeds_and_group_key_stable b run E = unwrapped (setup_2of3 (run 0)) (\<lambda>mat.
     length (m_participants mat) = 3
   \<and> list_all (\<lambda>p. unwrapped (participant_verifying_key (run 0) p) (\<lambda>vk. vk = vk_of mat)) (m_participants mat)
   \<and> g_ethereum_address (m_group_key mat) = ethereum_address_from_verifying_key (run 0) (vk_of mat))"

definition threshold_2of3_all_pairs_succeed_single_fails_real ::
  "('sn, 'v::linorder, 'sh, 'ax, 'vk, 'ep, 'ks, 'sg, 'es, 'rid, 'sc) signing_test" where
  "threshold_2of3_all_pairs_succeed_single_fails_real b run E = unwrapped (setup_2of3 (run 0)) (\<lambda>mat.
     let binding = dummy_binding keymesh_digest (replicate 32 0x11);
         sign = (\<lambda>i idxs. threshold_sign b (run i) E mat idxs binding (sid_of (run 0) binding))
     in is_ok (sign 1 [0, 1]) \<and> is_ok (sign 2 [0, 2]) \<and> is_ok (sign 3 [1, 2])
      \<and> is_err (sign 4 [0]) \<and> is_err (sign 5 [1]) \<and> is_err (sign 6 [2]))"

definition final_signature_low_s_and_recovers_real ::
  "('sn, 'v::linorder, 'sh, 'ax, 'vk, 'ep, 'ks, 'sg, 'es, 'rid, 'sc) signing_test" where
  "final_signature_low_s_and_recovers_real b run E = unwrapped (setup_2of3 (run 0)) (\<lambda>mat.
     let binding = dummy_binding keymesh_digest (replicate 32 0x22)
     in unwrapped (threshold_sign b (run 1) E mat [0, 1] binding (sid_of (run 0) binding)) (\<lambda>sig.
          sg_r sig \<noteq> replicate 32 0 \<and> sg_s sig \<noteq> replicate 32 0 \<and> s_is_low sig \<and> sg_v sig \<in> {27, 28}
        \<and> verifies b E keymesh_digest sig (vk_of mat) \<and> refuses b E (flip_bit 0 keymesh_digest) sig (vk_of mat)))"

definition signature_randomness_fresh_valid ::
  "('sn, 'v::linorder, 'sh, 'ax, 'vk, 'ep, 'ks, 'sg, 'es, 'rid, 'sc) signing_test" where
  "signature_randomness_fresh_valid b run E = unwrapped (setup_2of3 (run 0)) (\<lambda>mat.
     let binding1 = dummy_binding keymesh_digest (replicate 32 0x33);
         binding2 = dummy_binding keymesh_digest (replicate 32 0x44)
     in unwrapped (threshold_sign b (run 1) E mat [0, 1] binding1 (sid_of (run 0) binding1)) (\<lambda>sig1.
        unwrapped (threshold_sign b (run 2) E mat [0, 1] binding2 (sid_of (run 0) binding2)) (\<lambda>sig2.
          verifies b E keymesh_digest sig1 (vk_of mat) \<and> verifies b E keymesh_digest sig2 (vk_of mat))))"

definition digest_binding_wrong_digest_rejected ::
  "('sn, 'v::linorder, 'sh, 'ax, 'vk, 'ep, 'ks, 'sg, 'es, 'rid, 'sc) signing_test" where
  "digest_binding_wrong_digest_rejected b run E = unwrapped (setup_2of3 (run 0)) (\<lambda>mat.
     let digest_a = replicate 32 0x11; digest_b = replicate 32 0x22;
         binding_a = dummy_binding digest_a (replicate 32 0x55);
         binding_b = dummy_binding digest_b (replicate 32 0x55);
         sid_a = sid_of (run 0) binding_a
     in unwrapped (threshold_sign b (run 1) E mat [0, 1] binding_a sid_a) (\<lambda>sig_a.
          refuses b E digest_b sig_a (vk_of mat)
        \<and> is_err (threshold_sign b (run 2) E mat [0, 1] binding_b sid_a)))"

definition session_replay_rejected ::
  "('sn, 'v::linorder, 'sh, 'ax, 'vk, 'ep, 'ks, 'sg, 'es, 'rid, 'sc) signing_test" where
  "session_replay_rejected b run E = unwrapped (setup_2of3 (run 0)) (\<lambda>mat.
     let binding = dummy_binding keymesh_digest (replicate 32 0x66);
         sid = sid_of (run 0) binding;
         binding2 = dummy_binding keymesh_digest (replicate 32 0x77);
         binding_wrong = dummy_binding (flip_bit 5 keymesh_digest) (replicate 32 0x66)
     in unwrapped (threshold_sign b (run 1) E mat [0, 1] binding sid) (\<lambda>_.
          sid \<noteq> sid_of (run 0) binding2
        \<and> is_err (threshold_sign b (run 2) E mat [0, 1] binding2 sid)
        \<and> is_err (threshold_sign b (run 3) E mat [0, 1] binding_wrong sid)))"

definition participant_identity_duplicate_fails ::
  "('sn, 'v::linorder, 'sh, 'ax, 'vk, 'ep, 'ks, 'sg, 'es, 'rid, 'sc) signing_test" where
  "participant_identity_duplicate_fails b run E = unwrapped (setup_2of3 (run 0)) (\<lambda>mat.
     let binding = dummy_binding keymesh_digest (replicate 32 0x88)
     in is_err (threshold_sign b (run 1) E mat [0, 0] binding (sid_of (run 0) binding)))"

definition no_reconstruction_exposed ::
  "('sn, 'v::linorder, 'sh, 'ax, 'vk, 'ep, 'ks, 'sg, 'es, 'rid, 'sc) signing_test" where
  "no_reconstruction_exposed b run E = unwrapped (setup_2of3 (run 0)) (\<lambda>mat.
     let binding = dummy_binding keymesh_digest (replicate 32 0xdd)
     in is_err (threshold_sign b (run 1) E mat [0] binding (sid_of (run 0) binding)))"

definition ethereum_address_stable_across_signing ::
  "('sn, 'v::linorder, 'sh, 'ax, 'vk, 'ep, 'ks, 'sg, 'es, 'rid, 'sc) signing_test" where
  "ethereum_address_stable_across_signing b run E = unwrapped (setup_2of3 (run 0)) (\<lambda>mat.
     let addr = g_ethereum_address (m_group_key mat);
         binding = dummy_binding keymesh_digest (replicate 32 0xee)
     in unwrapped (threshold_sign b (run 1) E mat [1, 2] binding (sid_of (run 0) binding)) (\<lambda>sig.
          verifies b E keymesh_digest sig (vk_of mat) \<and> addr = g_ethereum_address (m_group_key mat)))"

definition offline_participant_still_succeeds ::
  "('sn, 'v::linorder, 'sh, 'ax, 'vk, 'ep, 'ks, 'sg, 'es, 'rid, 'sc) signing_test" where
  "offline_participant_still_succeeds b run E = unwrapped (setup_2of3 (run 0)) (\<lambda>mat.
     let binding = dummy_binding keymesh_digest (replicate 32 0x99);
         sid = sid_of (run 0) binding
     in is_ok (threshold_sign b (run 1) E mat [0, 1] binding sid)
      \<and> is_err (threshold_sign b (run 2) E mat [0] binding sid))"

section \<open>Adversarial tests of signing\<close>

definition adversarial_binding ::
  "bytes \<Rightarrow> bytes \<Rightarrow> bytes \<Rightarrow> u64 \<Rightarrow> u64 \<Rightarrow> u64 \<Rightarrow> string \<Rightarrow> session_binding" where
  "adversarial_binding digest random wallet chain nonce pv proto =
     \<lparr>sb_wallet = wallet, sb_chain_id = chain, sb_nonce = nonce, sb_digest = digest, sb_policy_version = pv,
      sb_protocol_version = proto, sb_random = random\<rparr>"

abbreviation base_binding :: "bytes \<Rightarrow> bytes \<Rightarrow> session_binding" where
  "base_binding digest random \<equiv>
     adversarial_binding digest random (replicate 20 0x11) 31337 0 1 ''synedrion/0.3-cggmp24''"

definition wrong_digest ::
  "('sn, 'v::linorder, 'sh, 'ax, 'vk, 'ep, 'ks, 'sg, 'es, 'rid, 'sc) signing_test" where
  "wrong_digest b run E = on_success (setup_2of3 (run 0)) (\<lambda>mat.
     let binding = base_binding keymesh_digest (replicate 32 0x11);
         wrong = flip_bit 0 keymesh_digest;
         sid = sid_of (run 0) binding
     in unwrapped (threshold_sign b (run 1) E mat [0, 1] binding sid) (\<lambda>sig.
          refuses b E wrong sig (vk_of mat)
        \<and> is_err (threshold_sign b (run 2) E mat [0, 1] (base_binding wrong (replicate 32 0x11)) sid)))"

definition wrong_session ::
  "('sn, 'v::linorder, 'sh, 'ax, 'vk, 'ep, 'ks, 'sg, 'es, 'rid, 'sc) signing_test" where
  "wrong_session b run E = on_success (setup_2of3 (run 0)) (\<lambda>mat.
     is_err (threshold_sign b (run 1) E mat [0, 1] (base_binding keymesh_digest (replicate 32 0x22))
       (sid_of (run 0) (base_binding keymesh_digest (replicate 32 0x11)))))"

definition wrong_fields :: "(bytes \<times> u64 \<times> u64 \<times> u64 \<times> string) list" where
  "wrong_fields =
     [(replicate 20 0x22, 31337, 0, 1, ''synedrion/0.3-cggmp24''), (replicate 20 0x11, 1, 0, 1, ''synedrion/0.3-cggmp24''),
      (replicate 20 0x11, 31337, 99, 1, ''synedrion/0.3-cggmp24''), (replicate 20 0x11, 31337, 0, 99, ''synedrion/0.3-cggmp24''),
      (replicate 20 0x11, 31337, 0, 1, ''bad/proto'')]"

definition wrong_wallet_chain_nonce_policy ::
  "('sn, 'v::linorder, 'sh, 'ax, 'vk, 'ep, 'ks, 'sg, 'es, 'rid, 'sc) signing_test" where
  "wrong_wallet_chain_nonce_policy b run E = on_success (setup_2of3 (run 0)) (\<lambda>mat.
     let sid = sid_of (run 0) (base_binding keymesh_digest (replicate 32 0x11))
     in list_all (\<lambda>(i, wallet, chain, nonce, pv, proto).
          let bd = adversarial_binding keymesh_digest (replicate 32 0x11) wallet chain nonce pv proto
          in sid_of (run 0) bd \<noteq> sid \<longrightarrow> is_err (threshold_sign b (run i) E mat [0, 1] bd sid))
        (enumerate 1 wrong_fields))"

definition wrong_protocol_participant_threshold ::
  "('sn, 'v::linorder, 'sh, 'ax, 'vk, 'ep, 'ks, 'sg, 'es, 'rid, 'sc) signing_test" where
  "wrong_protocol_participant_threshold b run E = on_success (setup_2of3 (run 0)) (\<lambda>mat.
     let bd = base_binding keymesh_digest (replicate 32 0x11);
         sid = sid_of (run 0) bd
     in is_err (threshold_sign b (run 1) E mat [0, 0] bd sid) \<and> is_err (threshold_sign b (run 2) E mat [0, 99] bd sid)
      \<and> is_err (threshold_sign b (run 3) E mat [0] bd sid))"

text \<open>The environment variable \<open>KEYMESH_ENABLE_MAINNET_TSS\<close>, unset first and then set by the test, is an argument.\<close>

definition config_fail_closed ::
  "('sn, 'v::linorder, 'sh, 'ax, 'vk, 'ep, 'ks, 'sg, 'es, 'rid, 'sc) signing_test" where
  "config_fail_closed b run E = on_success (setup_2of3 (run 0)) (\<lambda>mat.
     unwrapped (threshold_provider_new None mat 31337) (\<lambda>prov.
     let bd = adversarial_binding keymesh_digest (replicate 32 0x11) (replicate 20 0x11) 1 0 1 ''synedrion/0.3-cggmp24''
     in is_err (threshold_provider_sign b (run 1) E prov bd [0, 1] (sid_of (run 0) bd))
      \<and> is_err (threshold_provider_new None mat 1)
      \<and> on_success (setup_2of3 (run 2)) (\<lambda>mat2. is_ok (threshold_provider_new (Some ''true'') mat2 1)
      \<and> on_success (setup_2of3 (run 3)) (\<lambda>tmp.
          unwrapped (compressed_verifying_key (run 3) (vk_of tmp)) (\<lambda>gpk.
            is_err (rotation_initiate 1 (replicate 20 0x11) 1 [] 2 ''g'' ''r'' gpk 3 2 3600 0)
          \<and> is_err (rotation_initiate 1 (replicate 20 0x11) 1 [''A''] 2 ''g'' ''r'' gpk 3 2 3600 0))))))"

definition signing_tests ::
  "('sn, 'v::linorder, 'sh, 'ax, 'vk, 'ep, 'ks, 'sg, 'es, 'rid, 'sc) signing_test list" where
  "signing_tests =
     [dkg_succeeds_and_group_key_stable, threshold_2of3_all_pairs_succeed_single_fails_real,
      final_signature_low_s_and_recovers_real, signature_randomness_fresh_valid,
      digest_binding_wrong_digest_rejected, session_replay_rejected, participant_identity_duplicate_fails,
      no_reconstruction_exposed, ethereum_address_stable_across_signing, offline_participant_still_succeeds,
      wrong_digest, wrong_session, wrong_wallet_chain_nonce_policy, wrong_protocol_participant_threshold,
      config_fail_closed]"

section \<open>Honest runs\<close>

text \<open>
  What the signing tests need: every run of a protocol is honest, the hash has no collision on the
  sessions of the tests, and the signatures have non-zero parts and one of the two ordinary recovery ids.
\<close>

definition ordinary_signatures :: "('sg, 'es, 'rid, 'sc, 'vk) ecdsa_backend \<Rightarrow> bool" where
  "ordinary_signatures E \<longleftrightarrow> (\<forall>x. let bs = es_to_bytes E (fst (to_backend E x)) in
     take 32 bs \<noteq> replicate 32 0 \<and> take 32 (drop 32 bs) \<noteq> replicate 32 0
     \<and> recovery_id_to_byte E (snd (to_backend E x)) \<in> {0, 1})"

definition signing_test_bindings :: "session_binding list" where
  "signing_test_bindings =
     [dummy_binding (replicate 32 0x11) (replicate 32 0x55), dummy_binding (replicate 32 0x22) (replicate 32 0x55),
      dummy_binding keymesh_digest (replicate 32 0x66), dummy_binding keymesh_digest (replicate 32 0x77),
      dummy_binding (flip_bit 5 keymesh_digest) (replicate 32 0x66),
      base_binding keymesh_digest (replicate 32 0x11), base_binding (flip_bit 0 keymesh_digest) (replicate 32 0x11),
      base_binding keymesh_digest (replicate 32 0x22)]"

definition honest_world ::
  "(nat \<Rightarrow> ('sn, 'v, 'sh, 'ax, 'vk, 'ep, 'ks, 'sg) mpc) \<Rightarrow> ('v, 'sh, 'ax, 'vk) dealing
     \<Rightarrow> ('sg, 'es, 'rid, 'sc, 'vk) ecdsa_backend \<Rightarrow> bool" where
  "honest_world run G E \<longleftrightarrow>
     (\<forall>i. same_world (run 0) (run i) \<and> honest_protocols (run i) G \<and> honest_signing (run i) G E)
     \<and> scalars_canonical E \<and> ordinary_signatures E 
     \<and> inj_on (mpc_keccak (run 0) \<circ> session_preimage) (set signing_test_bindings)
     \<and> distinct (map (\<lambda>i. signer_verifier (run 0) (signer_new (run 0) i)) [0, 1, 2])
     \<and> (\<forall>vk. length (vk_compressed (run 0) vk) = 33)"

lemma honest_worldD:
  assumes "honest_world run G E"
  shows "same_world (run 0) (run i)" "honest_protocols (run i) G" "honest_signing (run i) G E"
    "scalars_canonical E" "ordinary_signatures E" "inj_on (mpc_keccak (run 0) \<circ> session_preimage) (set signing_test_bindings)"
    "mpc_keccak (run i) = mpc_keccak (run 0)"
    "distinct (map (\<lambda>i. signer_verifier (run 0) (signer_new (run 0) i)) [0, 1, 2])"
    "length (vk_compressed (run i) vk) = 33"
proof -
  have w: "same_world (run 0) (run i)" for i using assms by (simp add: honest_world_def)
  show "same_world (run 0) (run i)" by (rule w)
  show "mpc_keccak (run i) = mpc_keccak (run 0)" "length (vk_compressed (run i) vk) = 33"
    using w [of i] assms by (simp_all add: same_world_def same_codec_def honest_world_def)
qed (use assms in \<open>simp_all add: honest_world_def\<close>)

lemma threshold_sign_parts:
  fixes M :: "('sn, 'v, 'sh, 'ax, 'vk, 'ep, 'ks, 'sg) mpc"
  assumes "threshold_sign b M E mat idxs binding sid = Ok sg" and E: "scalars_canonical E" "ordinary_signatures E"
  shows "sg_r sg \<noteq> replicate 32 0 \<and> sg_s sg \<noteq> replicate 32 0 \<and> sg_v sg \<in> {27, 28}"
proof -
  from assms(1) obtain signatures :: "('v \<times> 'sg) list" where
      "finish_signature b E (vk_of mat) binding sid signatures = Ok sg"
    unfolding threshold_sign_def Let_def by (auto split: if_splits)
  then obtain x where "sg_r sg = take 32 (es_to_bytes E (fst (to_backend E x)))"
      "sg_s sg = take 32 (drop 32 (es_to_bytes E (fst (to_backend E x))))"
      and v: "add_u8 b (recovery_id_to_byte E (snd (to_backend E x))) 27 = (Ok (sg_v sg) :: (tss_error, u8) res)"
    unfolding finish_signature_def Let_def high_s_branch [OF E(1)]
    by (auto split: if_splits list.splits)
  moreover have "recovery_id_to_byte E (snd (to_backend E x)) \<in> {0, 1}"
    using E(2) by (simp add: ordinary_signatures_def Let_def)
  then have "sg_v sg \<in> {27, 28}" using v by (auto simp: add_u8_def split: build.splits)
  ultimately show ?thesis using E(2) by (simp add: ordinary_signatures_def Let_def)
qed

text \<open>The key that every test starts from.\<close>

lemma honest_key:
  fixes run :: "nat \<Rightarrow> ('sn, 'v::linorder, 'sh, 'ax, 'vk, 'ep, 'ks, 'sg) mpc"
  assumes "honest_world run G E"
  obtains mat where "setup_2of3 (run j) = Ok mat" "\<And>i. material_live (run i) G mat" "m_threshold mat = 2"
    "length (m_participants mat) = 3" "material_wf (run j) mat"
proof -
  note w = honest_worldD [OF assms]
  have world: "same_world (run j) (run i)" for i
    using w(1) [of i] w(1) [of j] by (simp add: same_world_def same_codec_def)
  have "distinct (map (\<lambda>i. signer_verifier (run j) (signer_new (run j) i)) [0, 1, 2])"
    using w(8) w(1) [of j] by (simp add: same_world_def)
  from setup_complete [OF w(2) this] obtain mat where mat: "setup_2of3 (run j) = Ok mat" "material_live (run j) G mat"
    by blast
  note facts = setup_2of3_facts [OF mat(1)]
  show thesis
  proof (rule that [OF mat(1)])
    show "material_live (run i) G mat" for i
      by (rule same_world_material [OF world, THEN iffD2, OF mat(2)])
    show "m_threshold mat = 2" "material_wf (run j) mat" using facts by blast+
    have "length (m_participants mat) = m_total mat" "m_total mat = 3"
      using facts unfolding material_wf_def by blast+
    then show "length (m_participants mat) = 3" by (rule trans)
  qed
qed

text \<open>Signing by a quorum goes through, and the signature is what the tests assert of it.\<close>

lemma honest_signature:
  assumes w: "honest_world run G E" and live: "\<And>i. material_live (run i) G mat"
    and idxs: "distinct idxs" "\<forall>i \<in> set idxs. i < length (m_participants mat)" "length idxs = m_threshold mat"
    and digest: "length (sb_digest binding) = 32"
  obtains sg where "threshold_sign b (run i) E mat idxs binding (sid_of (run 0) binding) = Ok sg"
    "verifies b E (sb_digest binding) sg (vk_of mat)" "s_is_low sg" "sg_digest sg = sb_digest binding"
    "sg_r sg \<noteq> replicate 32 0" "sg_s sg \<noteq> replicate 32 0" "sg_v sg \<in> {27, 28}"
proof -
  note h = honest_worldD [OF w]
  obtain sg where sg: "threshold_sign b (run i) E mat idxs binding (sid_of (run i) binding) = Ok sg"
    by (rule sign_complete [OF h(2,3) live idxs digest])
  have "sid_of (run i) binding = sid_of (run 0) binding" unfolding h(7) [of i] ..
  with sg have "threshold_sign b (run i) E mat idxs binding (sid_of (run 0) binding) = Ok sg" by simp
  moreover note threshold_sign_Ok [OF sg h(4)] threshold_sign_parts [OF sg h(4,5)]
  ultimately show thesis by (intro that [of sg]) (simp_all add: verifies_def)
qed

lemma signing_refused:
  "length idxs < m_threshold mat \<Longrightarrow> is_err (threshold_sign b M E mat idxs binding sid)"
  "m_threshold mat \<le> length idxs \<Longrightarrow> sid_of M binding \<noteq> sid \<Longrightarrow> is_err (threshold_sign b M E mat idxs binding sid)"
  "m_threshold mat \<le> length idxs \<Longrightarrow> is_err (check_subset (length (m_participants mat)) {} idxs)
    \<Longrightarrow> is_err (threshold_sign b M E mat idxs binding sid)"
proof -
  show "is_err (threshold_sign b M E mat idxs binding sid)"
    if "m_threshold mat \<le> length idxs" "is_err (check_subset (length (m_participants mat)) {} idxs)"
    using that by (cases "check_subset (length (m_participants mat)) {} idxs") (auto simp: threshold_sign_def)
qed (simp_all add: threshold_sign_def)

lemma session_ids_differ:
  assumes "honest_world run G E" and "x \<in> set signing_test_bindings" "y \<in> set signing_test_bindings" "x \<noteq> y"
  shows "sid_of (run i) x \<noteq> sid_of (run 0) y"
  using inj_on_contraD [OF honest_worldD(6) [OF assms(1)] assms(4,2,3)]
  by (simp add: derive_session_id_def honest_worldD(7) [OF assms(1), of i])

lemmas test_sessions = signing_test_bindings_def dummy_binding_def adversarial_binding_def

lemma refuses_other_digest: "sg_digest sg \<noteq> digest \<Longrightarrow> refuses b E digest sg vk"
  by (simp add: refuses_def verify_signature_def)

lemma flip_bit_differs: "i < length bs \<Longrightarrow> flip_bit i bs \<noteq> bs"
proof
  assume "i < length bs" and "flip_bit i bs = bs"
  then have "xor (bs ! i) (xor (bs ! i) 1) = 0" by (metis flip_bit_def nth_list_update_eq xor_self_eq)
  then show False by (simp add: xor.assoc [symmetric])
qed

lemma length_flip_bit [simp]: "length (flip_bit i bs) = length bs"
  by (simp add: flip_bit_def)

lemma length_keymesh_digest [simp]: "length keymesh_digest = 32"
  by (simp add: keymesh_digest_def)

section \<open>The signing tests pass\<close>

text \<open>What one of the bindings of a test gives: a good signature from each pair of seats.\<close>

definition signs_well ::
  "build \<Rightarrow> (nat \<Rightarrow> ('sn, 'v, 'sh, 'ax, 'vk, 'ep, 'ks, 'sg) mpc) \<Rightarrow> ('sg, 'es, 'rid, 'sc, 'vk) ecdsa_backend
     \<Rightarrow> ('sn, 'v, 'sh, 'ax, 'vk) key_material \<Rightarrow> nat \<Rightarrow> nat list \<Rightarrow> session_binding \<Rightarrow> threshold_signature \<Rightarrow> bool" where
  "signs_well b run E mat i idxs binding sg \<longleftrightarrow>
     threshold_sign b (run i) E mat idxs binding (sid_of (run 0) binding) = Ok sg
     \<and> verifies b E (sb_digest binding) sg (vk_of mat) \<and> s_is_low sg \<and> sg_digest sg = sb_digest binding
     \<and> sg_r sg \<noteq> replicate 32 0 \<and> sg_s sg \<noteq> replicate 32 0 \<and> sg_v sg \<in> {27, 28}"

lemma pair_signs:
  assumes w: "honest_world run G E" and live: "\<And>i. material_live (run i) G mat"
    and m: "m_threshold mat = 2" "length (m_participants mat) = 3"
    and "binding_wf binding" and "idxs \<in> {[0, 1], [0, 2], [1, 2]}"
  shows "\<exists>sg. signs_well b run E mat i idxs binding sg"
proof -
  have "distinct idxs" "\<forall>i \<in> set idxs. i < length (m_participants mat)" "length idxs = m_threshold mat"
      "length (sb_digest binding) = 32"
    using assms(5,6) m by (auto simp: binding_wf_def)
  from honest_signature [OF w live this, of b i]
  show ?thesis unfolding signs_well_def by metis
qed

lemma test_binding_wf:
  "length d = 32 \<Longrightarrow> length r = 32 \<Longrightarrow> binding_wf (dummy_binding d r)"
  "length d = 32 \<Longrightarrow> length r = 32 \<Longrightarrow> length wa = 20 \<Longrightarrow> binding_wf (adversarial_binding d r wa c n pv proto)"
  by (simp_all add: binding_wf_def dummy_binding_def adversarial_binding_def)

lemma real_tests:
  assumes w: "honest_world run G E"
  shows "dkg_succeeds_and_group_key_stable b run E" "threshold_2of3_all_pairs_succeed_single_fails_real b run E"
    "final_signature_low_s_and_recovers_real b run E" "signature_randomness_fresh_valid b run E"
    "digest_binding_wrong_digest_rejected b run E" "session_replay_rejected b run E"
    "participant_identity_duplicate_fails b run E" "no_reconstruction_exposed b run E"
    "ethereum_address_stable_across_signing b run E" "offline_participant_still_succeeds b run E"
proof -
  obtain mat where mat: "setup_2of3 (run 0) = Ok mat" "\<And>i. material_live (run i) G mat"
      "m_threshold mat = 2" "length (m_participants mat) = 3" "material_wf (run 0) mat"
    by (rule honest_key [OF w, of 0]) (rule that)
  note pair = pair_signs [OF w mat(2-4)]
  note [simp] = mat(1,3,4) signing_refused(1) test_binding_wf
  show "dkg_succeeds_and_group_key_stable b run E"
    using mat(5) unfolding material_wf_def
    by (simp add: dkg_succeeds_and_group_key_stable_def participant_verifying_key_def list_all_iff)
  have sign: "is_ok (threshold_sign b (run i) E mat idxs bd (sid_of (run 0) bd))"
    if "binding_wf bd" "idxs \<in> {[0, 1], [0, 2], [1, 2]}" for i idxs bd
    using pair [OF that, of b i] by (auto simp: signs_well_def)
  show "threshold_2of3_all_pairs_succeed_single_fails_real b run E"
    by (simp add: threshold_2of3_all_pairs_succeed_single_fails_real_def Let_def sign)
  show "offline_participant_still_succeeds b run E"
    by (simp add: offline_participant_still_succeeds_def Let_def sign)
  show "no_reconstruction_exposed b run E" by (simp add: no_reconstruction_exposed_def Let_def)
  show "participant_identity_duplicate_fails b run E"
    by (simp add: participant_identity_duplicate_fails_def signing_refused(3) Let_def)
  let ?bd = "\<lambda>r. dummy_binding keymesh_digest (replicate 32 r)"
  have d: "sb_digest (dummy_binding x y) = x" for x y by (simp add: dummy_binding_def)
  obtain sg where "signs_well b run E mat 1 [0, 1] (?bd 0x22) sg"
    using pair [of "?bd 0x22" "[0, 1]" b 1] by auto
  then show "final_signature_low_s_and_recovers_real b run E"
    using flip_bit_differs [of 0 keymesh_digest]
    by (simp add: final_signature_low_s_and_recovers_real_def signs_well_def refuses_other_digest d Let_def)
  obtain sg3 sg4 where "signs_well b run E mat 1 [0, 1] (?bd 0x33) sg3" "signs_well b run E mat 2 [0, 1] (?bd 0x44) sg4"
    using pair [of "?bd 0x33" "[0, 1]" b 1] pair [of "?bd 0x44" "[0, 1]" b 2] by auto
  then show "signature_randomness_fresh_valid b run E"
    by (simp add: signature_randomness_fresh_valid_def signs_well_def d Let_def)
  obtain sge where "signs_well b run E mat 1 [1, 2] (?bd 0xee) sge"
    using pair [of "?bd 0xee" "[1, 2]" b 1] by auto
  then show "ethereum_address_stable_across_signing b run E"
    by (simp add: ethereum_address_stable_across_signing_def signs_well_def d Let_def)
  obtain sga where "signs_well b run E mat 1 [0, 1] (dummy_binding (replicate 32 0x11) (replicate 32 0x55)) sga"
    using pair [of "dummy_binding (replicate 32 0x11) (replicate 32 0x55)" "[0, 1]" b 1] by auto
  moreover have "sid_of (run 2) (dummy_binding (replicate 32 0x22) (replicate 32 0x55))
      \<noteq> sid_of (run 0) (dummy_binding (replicate 32 0x11) (replicate 32 0x55))"
    by (rule session_ids_differ [OF w]) (simp_all add: test_sessions)
  ultimately show "digest_binding_wrong_digest_rejected b run E"
    by (simp add: digest_binding_wrong_digest_rejected_def signs_well_def refuses_other_digest signing_refused(2) d Let_def)
  obtain sg6 where "signs_well b run E mat 1 [0, 1] (?bd 0x66) sg6"
    using pair [of "?bd 0x66" "[0, 1]" b 1] by auto
  moreover have "sid_of (run 2) (?bd 0x77) \<noteq> sid_of (run 0) (?bd 0x66)"
      "sid_of (run 0) (?bd 0x66) \<noteq> sid_of (run 0) (?bd 0x77)"
    by (rule session_ids_differ [OF w]; simp add: test_sessions)+
  moreover have "sid_of (run 3) (dummy_binding (flip_bit 5 keymesh_digest) (replicate 32 0x66)) \<noteq> sid_of (run 0) (?bd 0x66)"
    by (rule session_ids_differ [OF w])
      (use flip_bit_differs [of 5 keymesh_digest] in \<open>simp_all add: test_sessions\<close>)
  ultimately show "session_replay_rejected b run E"
    by (simp add: session_replay_rejected_def signs_well_def signing_refused(2) Let_def)
qed

lemma adversarial_tests:
  assumes w: "honest_world run G E"
  shows "wrong_digest b run E" "wrong_session b run E" "wrong_wallet_chain_nonce_policy b run E"
    "wrong_protocol_participant_threshold b run E" "config_fail_closed b run E"
proof -
  obtain mat where mat: "setup_2of3 (run 0) = Ok mat" "\<And>i. material_live (run i) G mat"
      "m_threshold mat = 2" "length (m_participants mat) = 3" by (rule honest_key [OF w, of 0]) (rule that)
  note [simp] = mat(1,3,4) signing_refused(1) test_binding_wf
  let ?bd = "base_binding keymesh_digest (replicate 32 0x11)"
  have d: "sb_digest (adversarial_binding x r wa c n pv proto) = x" for x r wa c n pv proto
    by (simp add: adversarial_binding_def)
  have wrong: "flip_bit 0 keymesh_digest \<noteq> keymesh_digest" by (rule flip_bit_differs) simp
  obtain sg where "signs_well b run E mat 1 [0, 1] ?bd sg"
    using pair_signs [OF w mat(2-4), of ?bd "[0, 1]" b 1] by auto
  moreover have "sid_of (run 2) (base_binding (flip_bit 0 keymesh_digest) (replicate 32 0x11)) \<noteq> sid_of (run 0) ?bd"
    by (rule session_ids_differ [OF w]) (use wrong in \<open>simp_all add: test_sessions\<close>)
  ultimately show "wrong_digest b run E"
    using wrong by (simp add: wrong_digest_def signs_well_def refuses_other_digest signing_refused(2) d Let_def)
  have "sid_of (run 1) (base_binding keymesh_digest (replicate 32 0x22)) \<noteq> sid_of (run 0) ?bd"
    by (rule session_ids_differ [OF w]) (simp_all add: test_sessions)
  then show "wrong_session b run E" by (simp add: wrong_session_def signing_refused(2))
  have "is_err (threshold_sign b (run i) E mat [0, 1] bd (sid_of (run 0) ?bd))"
    if "sid_of (run 0) bd \<noteq> sid_of (run 0) ?bd" for i bd
  proof -
    have "sid_of (run i) bd = sid_of (run 0) bd" unfolding honest_worldD(7) [OF w, of i] ..
    with that show ?thesis by (intro signing_refused(2)) simp_all
  qed
  then show "wrong_wallet_chain_nonce_policy b run E"
    unfolding wrong_wallet_chain_nonce_policy_def mat(1) on_success.simps Let_def
    by (auto simp: list_all_iff)
  show "wrong_protocol_participant_threshold b run E"
    by (simp add: wrong_protocol_participant_threshold_def signing_refused(3) Let_def)
  obtain mat2 where mat2: "setup_2of3 (run 2) = Ok mat2" by (rule honest_key [OF w, of 2]) (rule that)
  obtain mat3 where mat3: "setup_2of3 (run 3) = Ok mat3" by (rule honest_key [OF w, of 3]) (rule that)
  have "compressed_verifying_key (run 3) (vk_of mat3) = Ok (vk_compressed (run 3) (vk_of mat3))"
    by (simp add: compressed_verifying_key_def honest_worldD(9) [OF w])
  then show "config_fail_closed b run E"
    by (simp add: config_fail_closed_def threshold_provider_new_def threshold_provider_sign_def mat2 mat3
        rotation_initiate_def adversarial_binding_def Let_def)
qed


section \<open>An honest world\<close>

text \<open>The fair protocols of theory Availability with a hash that is the identity.\<close>

definition echo_mpc :: "(nat, nat, nat, unit, nat, nat option, nat, nat) mpc" where
  "echo_mpc = fair_mpc\<lparr>mpc_keccak := (\<lambda>x. x)\<rparr>"

definition ordinary_backend :: "(nat, bytes, u8, nat, nat) ecdsa_backend" where
  "ordinary_backend = toy_backend\<lparr>to_backend := (\<lambda>n. (replicate 31 0 @ [1] @ replicate 31 0 @ [7], 1))\<rparr>"

lemma hash_fields:
  "signer_verifier (M\<lparr>mpc_keccak := h\<rparr>) = signer_verifier M" "key_init_new (M\<lparr>mpc_keccak := h\<rparr>) = key_init_new M"
  "run_key_init (M\<lparr>mpc_keccak := h\<rparr>) = run_key_init M" "from_key_share (M\<lparr>mpc_keccak := h\<rparr>) = from_key_share M"
  "resharing_new (M\<lparr>mpc_keccak := h\<rparr>) = resharing_new M" "run_resharing (M\<lparr>mpc_keccak := h\<rparr>) = run_resharing M"
  "aux_gen_new (M\<lparr>mpc_keccak := h\<rparr>) = aux_gen_new M" "run_aux_gen (M\<lparr>mpc_keccak := h\<rparr>) = run_aux_gen M"
  "share_verifying_key (M\<lparr>mpc_keccak := h\<rparr>) = share_verifying_key M"
  "share_threshold (M\<lparr>mpc_keccak := h\<rparr>) = share_threshold M" "run_by (M\<lparr>mpc_keccak := h\<rparr>) = run_by M"
  by (simp_all add: run_by_def fun_eq_iff)

lemma honest_protocols_hash: "honest_protocols (M\<lparr>mpc_keccak := h\<rparr>) G \<longleftrightarrow> honest_protocols M G"
  unfolding honest_protocols_def honest_shares_def honest_key_init_def honest_resharing_def
    honest_aux_gen_def hash_fields ..

lemma ordinary_low: "bytes_le (replicate 31 0 @ [7]) HALF_N"
  by code_simp

lemma echo_signing: "honest_signing echo_mpc fair_dealing ordinary_backend"
proof -
  have good: "good_signature ordinary_backend 42 digest (to_backend ordinary_backend 7)" for digest
    using ordinary_low by (simp add: good_signature_def ordinary_backend_def toy_backend_def)
  have runs: "returns (run_signing echo_mpc eps) S (\<lambda>_. 7)" if "run_by echo_mpc eps S" for eps S
  proof -
    have "run_by fair_mpc eps S" using that by (simp add: run_by_def echo_mpc_def)
    from fair_returns [OF this, of "\<lambda>(s, _). (s, 7)" "\<lambda>_. 7"] show ?thesis by (simp add: echo_mpc_def fair_simps)
  qed
  show ?thesis
    unfolding honest_signing_def
  proof (intro allI impI)
    fix vs t vk and f :: "nat \<Rightarrow> nat" and a S and digest :: bytes
    assume "genuine fair_dealing vs t vk f \<and> genuine_aux fair_dealing vs a \<and> S \<subseteq> vs \<and> card S = t \<and> length digest = 32"
    then have "vk = 42" by (simp add: fair_dealing_def)
    with good runs show "\<exists>ks ax ep.
       (\<forall>v \<in> S. to_key_share echo_mpc (f v) S = Ok (ks v) \<and> aux_subset echo_mpc (a v) S = Ok (ax v)
          \<and> signing_new echo_mpc digest (ks v) (ax v) = Ok (ep v))
       \<and> (\<forall>eps. run_by echo_mpc eps S \<and> (\<forall>(s, e) \<in> set eps. e = ep (signer_verifier echo_mpc s)) \<longrightarrow>
            (\<exists>sg es. returns (run_signing echo_mpc eps) S sg \<and> (\<forall>v \<in> S. fst (to_backend ordinary_backend (sg v)) = es
              \<and> good_signature ordinary_backend vk digest (to_backend ordinary_backend (sg v)))))"
      by (intro exI [of _ f] exI [of _ a] exI [of _ "\<lambda>_. None"] conjI allI impI exI [of _ "\<lambda>_. 7"]
          exI [of _ "fst (to_backend ordinary_backend 7)"]) (simp_all add: echo_mpc_def fair_simps)
  qed
qed

lemma echo_sessions: "inj_on session_preimage (set signing_test_bindings)"
proof (rule inj_onI)
  fix x y assume "x \<in> set signing_test_bindings" "y \<in> set signing_test_bindings"
  then have "binding_wf x \<and> binding_wf y" by (auto simp: test_sessions binding_wf_def)
  then show "session_preimage x = session_preimage y \<Longrightarrow> x = y" by (intro session_preimage_inject) simp_all
qed

lemma echo_honest_world: "honest_world (\<lambda>_. echo_mpc) fair_dealing ordinary_backend"
proof -
  have "honest_protocols echo_mpc fair_dealing"
    unfolding echo_mpc_def honest_protocols_hash by (rule fair_protocols)
  moreover have "scalars_canonical ordinary_backend"
    using toy_backend_canonical by (simp add: scalars_canonical_def ordinary_backend_def)
  moreover have "replicate 31 0 @ [7 :: u8] \<noteq> replicate 32 0" "replicate 31 0 @ [1 :: u8] \<noteq> replicate 32 0"
    by code_simp+
  then have "ordinary_signatures ordinary_backend"
    by (simp add: ordinary_signatures_def ordinary_backend_def toy_backend_def)
  moreover have "inj_on (mpc_keccak echo_mpc \<circ> session_preimage) (set signing_test_bindings)"
    using echo_sessions by (simp add: echo_mpc_def comp_def inj_on_def)
  moreover have "distinct (map (\<lambda>i. signer_verifier echo_mpc (signer_new echo_mpc i)) [0, 1, 2])"
      "\<forall>vk. length (vk_compressed echo_mpc vk) = 33" by (simp_all add: echo_mpc_def fair_simps)
  moreover have "same_world echo_mpc echo_mpc" by (simp add: same_world_def)
  ultimately show ?thesis unfolding honest_world_def using echo_signing by blast
qed


end
