(* ===== verification/Key_Life_Tests.thy ===== *)
theory Key_Life_Tests
  imports Signing_Tests Governance_Tests
begin

text \<open>
  The tests of \<open>tests_lifecycle.rs\<close> that generate a key, refresh or rotate it and sign (marked
  \<open>ignore\<close> in the crate because they are slow), and the one of \<open>lifecycle.rs\<close> on key ids. As in
  theory Signing_Tests, \<open>run i\<close> is the outcome of the \<open>i\<close>-th operation that runs a protocol. Nine of the
  ten pass in every honest world; \<open>rotation_failed_preserves_old_state\<close> fails, and with what.
\<close>

section \<open>Helpers\<close>

text \<open>Sign the standard digest under a fresh session and check the signature against \<open>vk\<close>.\<close>

definition signs_digest ::
  "build \<Rightarrow> (nat \<Rightarrow> ('sn, 'v::linorder, 'sh, 'ax, 'vk, 'ep, 'ks, 'sg) mpc)
     \<Rightarrow> ('sg, 'es, 'rid, 'sc, 'vk) ecdsa_backend \<Rightarrow> nat \<Rightarrow> ('sn, 'v, 'sh, 'ax, 'vk) key_material
     \<Rightarrow> nat list \<Rightarrow> bytes \<Rightarrow> 'vk \<Rightarrow> (threshold_signature \<Rightarrow> bool) \<Rightarrow> bool" where
  "signs_digest b run E i mat idxs random vk rest =
     (let binding = dummy_binding keymesh_digest random
      in unwrapped (threshold_sign b (run i) E mat idxs binding (sid_of (run 0) binding)) (\<lambda>sig.
           verifies b E keymesh_digest sig vk \<and> rest sig))"

text \<open>Generate a key and take the material and the bytes of the group key.\<close>

definition with_key ::
  "('sn, 'v::linorder, 'sh, 'ax, 'vk, 'ep, 'ks, 'sg) mpc
     \<Rightarrow> (('sn, 'v, 'sh, 'ax, 'vk) key_lifecycle \<Rightarrow> ('sn, 'v, 'sh, 'ax, 'vk) key_material \<Rightarrow> bytes \<Rightarrow> bool) \<Rightarrow> bool" where
  "with_key M rest = after_value (lifecycle_dkg M lifecycle_new) (\<lambda>lc _.
     unwrapped_option (kl_material lc) (\<lambda>mat.
     unwrapped (compressed_verifying_key M (vk_of mat)) (\<lambda>gpk. rest lc mat gpk)))"

text \<open>A request of the key's current version for these names, approved twice.\<close>

definition approved_request ::
  "build \<Rightarrow> u64 \<Rightarrow> string list \<Rightarrow> nat \<Rightarrow> bytes \<Rightarrow> (rotation_request \<Rightarrow> u64 \<Rightarrow> bool) \<Rightarrow> bool" where
  "approved_request b version names threshold gpk rest =
     unwrapped (request_for version names threshold gpk 1000) (\<lambda>req. approved_twice b req 1100 1200 rest)"

text \<open>The same request, then the rotation, which succeeds.\<close>

definition after_rotation ::
  "build \<Rightarrow> ('sn, 'v::linorder, 'sh, 'ax, 'vk, 'ep, 'ks, 'sg) mpc \<Rightarrow> ('sn, 'v, 'sh, 'ax, 'vk) key_lifecycle
     \<Rightarrow> bytes \<Rightarrow> string list \<Rightarrow> nat
     \<Rightarrow> (('sn, 'v, 'sh, 'ax, 'vk) key_lifecycle \<Rightarrow> ('sn, 'v, 'sh, 'ax, 'vk) key_material \<Rightarrow> bool) \<Rightarrow> bool" where
  "after_rotation b M lc gpk names threshold rest =
     approved_request b (kl_version lc) names threshold gpk (\<lambda>req exec.
       case rotate_with_request b M lc req exec of (lc, req, r) \<Rightarrow>
         unwrapped r (\<lambda>_. unwrapped_option (kl_material lc) (\<lambda>mat. rest lc mat)))"

section \<open>Tests\<close>

definition refresh_preserves_group_key_and_signs ::
  "('sn, 'v::linorder, 'sh, 'ax, 'vk, 'ep, 'ks, 'sg, 'es, 'rid, 'sc) signing_test" where
  "refresh_preserves_group_key_and_signs b run E =
     after_value (lifecycle_dkg (run 0) lifecycle_new) (\<lambda>lc mat.
     let vk_before = vk_of mat; addr_before = g_ethereum_address (m_group_key mat);
         key_id_before = kl_key_id lc; version_before = kl_version lc
     in after (lifecycle_refresh (run 1) lc) (\<lambda>lc.
        unwrapped_option (kl_material lc) (\<lambda>new_mat.
          vk_of new_mat = vk_before \<and> g_ethereum_address (m_group_key new_mat) = addr_before
        \<and> kl_version lc = version_before \<and> kl_key_id lc = key_id_before \<and> kl_state lc = KsActive
        \<and> signs_digest b run E 2 new_mat [0, 1] (replicate 32 0x11) (vk_of new_mat) s_is_low)))"

definition failed_refresh_preserves_old_state ::
  "('sn, 'v::linorder, 'sh, 'ax, 'vk, 'ep, 'ks, 'sg, 'es, 'rid, 'sc) signing_test" where
  "failed_refresh_preserves_old_state b run E =
     (case lifecycle_refresh (run 0) active_by_hand of (lc, r) \<Rightarrow>
       rejected r (\<lambda>err. kl_state lc = KsActive \<and> 0 < length (debug_tss_error err)))"

definition rotation_governed_and_preserves_group_key ::
  "('sn, 'v::linorder, 'sh, 'ax, 'vk, 'ep, 'ks, 'sg, 'es, 'rid, 'sc) signing_test" where
  "rotation_governed_and_preserves_group_key b run E = with_key (run 0) (\<lambda>lc mat gpk.
     let vk_before = vk_of mat; addr_before = g_ethereum_address (m_group_key mat); version_before = kl_version lc
     in unwrapped (rotation_initiate 1 test_wallet version_before [''A'', ''C'', ''D''] 2 ''guardian1'' ''gov-ref-1''
          gpk 3 2 ROTATION_MIN_TIMELOCK 1000) (\<lambda>req.
        after (rotation_approve b req ''guardian1'' 1100) (\<lambda>req. after (rotation_approve b req ''guardian2'' 1200) (\<lambda>req.
          ro_status req = RotQuorumReached
        \<and> unwrapped_option (ro_executable_at req) (\<lambda>executable_at. rotation_is_executable req executable_at
        \<and> (case rotate_with_request b (run 1) lc req executable_at of (lc, req, r) \<Rightarrow> unwrapped r (\<lambda>_.
             unwrapped (add_u64 b version_before 1 :: (tss_error, u64) res) (\<lambda>next_version. kl_version lc = next_version)
           \<and> kl_state lc = KsActive
           \<and> kl_key_id lc \<noteq> derive_key_id (run 0)
               \<lparr>g_verifying_key = vk_before, g_ethereum_address = addr_before\<rparr> 2 version_before
           \<and> unwrapped_option (kl_material lc) (\<lambda>new_mat.
               vk_of new_mat = vk_before \<and> g_ethereum_address (m_group_key new_mat) = addr_before
             \<and> m_threshold new_mat = 2 \<and> m_total new_mat = 3 \<and> ro_status req = RotCompleted
             \<and> signs_digest b run E 2 new_mat [0, 1] (replicate 32 0x22) vk_before (\<lambda>_. True)
             \<and> is_err (check_signing_allowed lc version_before)
             \<and> is_ok (check_signing_allowed lc (kl_version lc))))))))))"

text \<open>The state that the test expects after the failed call is an argument; the test says \<open>Active\<close>.\<close>

definition rotation_failed_leaves ::
  "build \<Rightarrow> (nat \<Rightarrow> ('sn, 'v::linorder, 'sh, 'ax, 'vk, 'ep, 'ks, 'sg) mpc) \<Rightarrow> key_state \<Rightarrow> bool" where
  "rotation_failed_leaves b run expected = with_key (run 0) (\<lambda>lc mat_before gpk.
     approved_request b (kl_version lc) [''A'', ''B''] 2 gpk (\<lambda>req exec.
     after (begin_rotation lc req exec) (\<lambda>lc1.
     case apply_rotation b (run 1) lc1 req 5 of (lc2, r) \<Rightarrow> rejected r (\<lambda>err.
       kl_state lc2 = expected \<and> kl_version lc2 = kl_version lc
     \<and> unwrapped_option (kl_material lc2) (\<lambda>mat. vk_of mat = vk_of mat_before)))))"

definition rotation_failed_preserves_old_state ::
  "build \<Rightarrow> (nat \<Rightarrow> ('sn, 'v::linorder, 'sh, 'ax, 'vk, 'ep, 'ks, 'sg) mpc) \<Rightarrow> bool" where
  "rotation_failed_preserves_old_state b run = rotation_failed_leaves b run KsActive"

definition stale_share_rejected ::
  "('sn, 'v::linorder, 'sh, 'ax, 'vk, 'ep, 'ks, 'sg, 'es, 'rid, 'sc) signing_test" where
  "stale_share_rejected b run E = with_key (run 0) (\<lambda>lc old_mat gpk.
     let vk = vk_of old_mat; version_before = kl_version lc
     in after_rotation b (run 1) lc gpk [''A'', ''C'', ''D''] 2 (\<lambda>lc new_mat.
          let binding = dummy_binding keymesh_digest (replicate 32 0x33); sid = sid_of (run 0) binding
          in unwrapped (threshold_sign b (run 2) E old_mat [0, 1] binding sid) (\<lambda>sig_old.
               is_err (check_signing_allowed lc version_before)
             \<and> is_ok (check_signing_allowed lc (kl_version lc))
             \<and> unwrapped (threshold_sign b (run 3) E new_mat [0, 1] binding sid) (\<lambda>sig_new.
                 verifies b E keymesh_digest sig_new vk
               \<and> is_err (check_signing_allowed lc version_before)
               \<and> verifies b E keymesh_digest sig_old vk))))"

definition participant_addition ::
  "('sn, 'v::linorder, 'sh, 'ax, 'vk, 'ep, 'ks, 'sg, 'es, 'rid, 'sc) signing_test" where
  "participant_addition b run E = with_key (run 0) (\<lambda>lc mat gpk.
     let vk_before = vk_of mat; version_before = kl_version lc
     in after_rotation b (run 1) lc gpk [''A'', ''B'', ''C'', ''D''] 2 (\<lambda>lc new_mat.
          m_total new_mat = 4 \<and> vk_of new_mat = vk_before
        \<and> unwrapped (add_u64 b version_before 1 :: (tss_error, u64) res) (\<lambda>next_version. kl_version lc = next_version)
        \<and> signs_digest b run E 2 new_mat [0, 3] (replicate 32 0x44) vk_before (\<lambda>_. True)))"

definition participant_removal ::
  "('sn, 'v::linorder, 'sh, 'ax, 'vk, 'ep, 'ks, 'sg, 'es, 'rid, 'sc) signing_test" where
  "participant_removal b run E = with_key (run 0) (\<lambda>lc mat gpk.
     let vk_before = vk_of mat
     in after_rotation b (run 1) lc gpk [''A'', ''C''] 2 (\<lambda>lc new_mat.
          m_total new_mat = 2 \<and> m_threshold new_mat = 2 \<and> vk_of new_mat = vk_before
        \<and> signs_digest b run E 2 new_mat [0, 1] (replicate 32 0x55) vk_before (\<lambda>_. True)
        \<and> is_err (rotation_initiate 2 test_wallet (kl_version lc) [''A''] 2 ''g1'' ''ref'' gpk 3 2
            ROTATION_MIN_TIMELOCK 2000)))"

definition threshold_change_supported ::
  "('sn, 'v::linorder, 'sh, 'ax, 'vk, 'ep, 'ks, 'sg, 'es, 'rid, 'sc) signing_test" where
  "threshold_change_supported b run E = with_key (run 0) (\<lambda>lc mat gpk.
     let vk_before = vk_of mat
     in approved_request b (kl_version lc) [''A'', ''B'', ''C'', ''D''] 3 gpk (\<lambda>req exec.
          case rotate_with_request b (run 1) lc req exec of
            (lc, req, Ok _) \<Rightarrow> unwrapped_option (kl_material lc) (\<lambda>new_mat.
              m_threshold new_mat = 3 \<and> m_total new_mat = 4 \<and> vk_of new_mat = vk_before
            \<and> (let binding = dummy_binding keymesh_digest (replicate 32 0x66)
               in is_err (threshold_sign b (run 2) E new_mat [0, 1] binding (sid_of (run 0) binding)))
            \<and> signs_digest b run E 3 new_mat [0, 1, 2] (replicate 32 0x66) vk_before (\<lambda>_. True))
          | (lc, req, Err _) \<Rightarrow> kl_state lc = KsActive
          | (lc, req, Panic) \<Rightarrow> False))"

definition old_share_mixed_with_new_rejected_via_version ::
  "('sn, 'v::linorder, 'sh, 'ax, 'vk, 'ep, 'ks, 'sg, 'es, 'rid, 'sc) signing_test" where
  "old_share_mixed_with_new_rejected_via_version b run E = with_key (run 0) (\<lambda>lc mat gpk.
     let version_before = kl_version lc
     in after_rotation b (run 1) lc gpk [''A'', ''C'', ''D''] 2 (\<lambda>lc _.
          is_err (check_signing_allowed lc version_before) \<and> is_ok (check_signing_allowed lc (kl_version lc))))"

definition key_id_deterministic ::
  "('sn, 'v::linorder, 'sh, 'ax, 'vk, 'ep, 'ks, 'sg, 'es, 'rid, 'sc) signing_test" where
  "key_id_deterministic b run E = on_success (setup_2of3 (run 0)) (\<lambda>mat.
     let id1 = derive_key_id (run 0) (m_group_key mat) 2 1; id2 = derive_key_id (run 0) (m_group_key mat) 2 1;
         id3 = derive_key_id (run 0) (m_group_key mat) 2 2
     in id1 = id2 \<and> id1 \<noteq> id3)"

definition key_life_tests ::
  "('sn, 'v::linorder, 'sh, 'ax, 'vk, 'ep, 'ks, 'sg, 'es, 'rid, 'sc) signing_test list" where
  "key_life_tests =
     [refresh_preserves_group_key_and_signs, failed_refresh_preserves_old_state,
      rotation_governed_and_preserves_group_key, stale_share_rejected, participant_addition,
      participant_removal, threshold_change_supported, old_share_mixed_with_new_rejected_via_version,
      key_id_deterministic]"

section \<open>Keys of an honest world\<close>

text \<open>
  On top of an honest world: newcomers at the third and fourth position are none of the first
  three parties, and the ids of the first two versions of a key do not collide.
\<close>

definition key_life_world ::
  "(nat \<Rightarrow> ('sn, 'v, 'sh, 'ax, 'vk, 'ep, 'ks, 'sg) mpc) \<Rightarrow> ('v, 'sh, 'ax, 'vk) dealing
     \<Rightarrow> ('sg, 'es, 'rid, 'sc, 'vk) ecdsa_backend \<Rightarrow> bool" where
  "key_life_world run G E \<longleftrightarrow> honest_world run G E
     \<and> distinct (map (\<lambda>i. signer_verifier (run 0) (signer_new (run 0) i)) [0, 1, 2, 102, 103])
     \<and> (\<forall>vk. derive_key_id (run 0) vk 2 1 \<noteq> derive_key_id (run 0) vk 2 2)"

text \<open>A live key of an honest world: its material serves every run, and its fields are as the code sets them.\<close>

definition key_serves ::
  "(nat \<Rightarrow> ('sn, 'v, 'sh, 'ax, 'vk, 'ep, 'ks, 'sg) mpc) \<Rightarrow> ('v, 'sh, 'ax, 'vk) dealing
     \<Rightarrow> ('sn, 'v, 'sh, 'ax, 'vk) key_lifecycle \<Rightarrow> ('sn, 'v, 'sh, 'ax, 'vk) key_material \<Rightarrow> bool" where
  "key_serves run G lc mat \<longleftrightarrow> kl_material lc = Some mat \<and> kl_state lc = KsActive \<and> \<not> kl_locked lc
     \<and> kl_group_key_bytes lc = Some (vk_compressed (run 0) (vk_of mat))
     \<and> kl_key_id lc = derive_key_id (run 0) (m_group_key mat) (word_of_nat (m_threshold mat)) (kl_version lc)
     \<and> (\<forall>i. material_live (run i) G mat) \<and> length (m_participants mat) = m_total mat"

lemma key_servesI:
  assumes w: "honest_world run G E" and "lifecycle_inv (run 0) lc" and "lifecycle_live (run 0) G lc"
    and m: "kl_material lc = Some mat"
  shows "key_serves run G lc mat"
proof -
  have live: "material_live (run 0) G mat" using assms(3) m by (simp add: lifecycle_live_def)
  have "material_live (run i) G mat" for i
    by (rule same_world_material [OF honest_worldD(1) [OF w], THEN iffD2, OF live])
  then show ?thesis using assms(2-4) by (auto simp: key_serves_def lifecycle_inv_def lifecycle_live_def)
qed

lemma key_start:
  fixes run :: "nat \<Rightarrow> ('sn, 'v::linorder, 'sh, 'ax, 'vk, 'ep, 'ks, 'sg) mpc"
  assumes w: "honest_world run G E"
  shows "\<exists>lc mat. lifecycle_dkg (run 0) lifecycle_new = (lc, Ok mat) \<and> lifecycle_inv (run 0) lc
    \<and> lifecycle_live (run 0) G lc \<and> key_serves run G lc mat \<and> kl_version lc = 1
    \<and> m_threshold mat = 2 \<and> m_total mat = 3
    \<and> map p_verifier (m_participants mat) = map (\<lambda>i. signer_verifier (run 0) (signer_new (run 0) i)) [0, 1, 2]"
proof -
  note h = honest_worldD [OF w]
  have keys: "\<forall>vk. length (vk_compressed (run 0) vk) = 33" using h(9) by blast
  note d = dkg_complete [OF h(2) h(8) keys]
  obtain mat where mat: "setup_2of3 (run 0) = Ok mat" by (rule honest_key [OF w, of 0]) (rule that)
  then have dkg: "lifecycle_dkg (run 0) lifecycle_new = (fst (lifecycle_dkg (run 0) lifecycle_new), Ok mat)"
    using keys by (simp add: lifecycle_dkg_def lifecycle_new_def compressed_verifying_key_def Let_def)
  have m: "kl_material (fst (lifecycle_dkg (run 0) lifecycle_new)) = Some mat"
    using mat keys by (simp add: lifecycle_dkg_def lifecycle_new_def compressed_verifying_key_def Let_def)
  have inv: "lifecycle_inv (run 0) (fst (lifecycle_dkg (run 0) lifecycle_new))"
    by (rule lifecycle_inv_dkg [OF lifecycle_inv_new]) simp
  have "key_serves run G (fst (lifecycle_dkg (run 0) lifecycle_new)) mat"
    by (rule key_servesI [OF w inv _ m]) (use d in blast)
  with dkg inv d setup_2of3_facts [OF mat] show ?thesis by blast
qed

lemma key_seat:
  assumes "map p_verifier ps = map f [0, 1, 2]"
  shows "length ps = 3" "p_verifier (ps ! 0) = f 0" "p_verifier (ps ! Suc 0) = f 1" "p_verifier (ps ! 2) = f 2"
proof -
  have l: "length (map p_verifier ps) = 3" unfolding assms by simp
  then show "length ps = 3" by simp
  then show "p_verifier (ps ! 0) = f 0" "p_verifier (ps ! Suc 0) = f 1" "p_verifier (ps ! 2) = f 2"
    using assms by (simp_all flip: nth_map [of _ ps p_verifier])
qed

lemma assigned_verifiers:
  fixes M :: "('sn, 'v, 'sh, 'ax, 'vk, 'ep, 'ks, 'sg) mpc"
  assumes "map p_verifier ps = map f [0, 1, 2]" and f: "\<And>i. signer_verifier M (signer_new M i) = f i"
    and names: "names \<in> {[''A'', ''C'', ''D''], [''A'', ''B'', ''C'', ''D''], [''A'', ''C'']}"
  shows "map (fst \<circ> snd) (assign_signers M ps names)
    \<in> {[f 0, f 2, f 102], [f 0, f 1, f 2, f 103], [f 0, f 2]}"
proof -
  have a: "map (fst \<circ> snd) (assign_signers M ps ns) = map (\<lambda>(pos, name). case name_to_old_idx 3 name of
      Some i \<Rightarrow> p_verifier (ps ! i) | None \<Rightarrow> f (word_of_nat (100 + pos))) (enumerate 0 ns)" for ns
    by (auto simp: assign_signers_def assign_signer_def key_seat [OF assms(1)] f Let_def split: option.split)
  have e: "enumerate 0 [x, y, z, u] = [(0, x), (1, y), (2, z), (3, u)]" "enumerate 0 [x, y, z] = [(0, x), (1, y), (2, z)]"
      "enumerate 0 [x, y] = [(0, x), (1, y)]" for x y z u :: string
    by (simp_all add: enumerate_eq_zip upt_rec)
  show ?thesis
    using names unfolding a by (auto simp: e name_to_old_idx_3 key_seat [OF assms(1)])
qed

text \<open>The rotations of the tests, for a key that was just generated.\<close>

lemma key_rotates:
  fixes run :: "nat \<Rightarrow> ('sn, 'v::linorder, 'sh, 'ax, 'vk, 'ep, 'ks, 'sg) mpc"
  assumes w: "key_life_world run G E" and inv: "lifecycle_inv (run 0) lc" and live: "lifecycle_live (run 0) G lc"
    and key: "key_serves run G lc mat" "kl_version lc = 1"
    and seats: "map p_verifier (m_participants mat) = map (\<lambda>i. signer_verifier (run 0) (signer_new (run 0) i)) [0, 1, 2]"
    and names: "names \<in> {[''A'', ''C'', ''D''], [''A'', ''B'', ''C'', ''D''], [''A'', ''C'']}"
    and r: "ro_new_set r = names" "ro_threshold r = t" "0 < t" "t \<le> length names" "ro_old_version r = 1"
      "ro_group_public_key r = vk_compressed (run 0) (vk_of mat)" "rotation_is_executable r now"
  shows "\<exists>lc1 new. rotate_with_request b (run 1) lc r now = (lc1, r\<lparr>ro_status := RotCompleted\<rparr>, Ok ())
    \<and> key_serves run G lc1 new \<and> kl_version lc1 = 2 \<and> m_threshold new = t \<and> m_total new = length names
    \<and> m_group_key new = m_group_key mat"
proof -
  have hw: "honest_world run G E" using w by (simp add: key_life_world_def)
  note h = honest_worldD [OF hw]
  let ?v = "\<lambda>i. signer_verifier (run 0) (signer_new (run 0) i)"
  have v1: "signer_verifier (run 1) = signer_verifier (run 0)" "signer_new (run 1) = signer_new (run 0)"
    using h(1) [of 1] by (simp_all add: same_world_def)
  have "map (fst \<circ> snd) (assign_signers (run 1) (m_participants mat) names)
      \<in> {[?v 0, ?v 2, ?v 102], [?v 0, ?v 1, ?v 2, ?v 103], [?v 0, ?v 2]}"
    by (rule assigned_verifiers [OF seats _ names]) (simp only: v1)
  moreover have "distinct (map ?v [0, 1, 2, 102, 103])" using w by (simp add: key_life_world_def)
  ultimately have "distinct (map (fst \<circ> snd) (assign_signers (run 1) (m_participants mat) names))"
    by (elim insertE emptyE) simp_all
  then have adm: "event_admissible lc (EvRotate (run 1) r now)"
    using key r by (simp add: key_serves_def)
  obtain lc1 r1 x where rot: "rotate_with_request b (run 1) lc r now = (lc1, r1, x)"
    by (cases "rotate_with_request b (run 1) lc r now")
  note rot_ok = lifecycle_rotate_complete [OF h(2) [of 1] h(1) [of 1] live adm, of b, unfolded rot fst_conv snd_conv]
  have x: "x = Ok ()" using rot_ok by (cases x) auto
  have codec: "same_codec (run 0) (run 1)" using h(1) [of 1] unfolding same_world_def by blast
  have inv1: "lifecycle_inv (run 0) lc1"
    using lifecycle_inv_rotate [OF inv codec, of b r now] unfolding rot fst_conv .
  show ?thesis
  proof (rule rotate_with_request_Ok [OF rot [unfolded x]])
    fix mat' new
    assume m: "kl_material lc = Some mat'" "do_rotation_via_resharing (run 1) mat' (ro_new_set r) (ro_threshold r) = Ok new"
      "m_group_key new = m_group_key mat'" "kl_material lc1 = Some new" "kl_version lc1 = kl_version lc + 1"
      "r1 = r\<lparr>ro_status := RotCompleted\<rparr>"
    have "mat' = mat" using m(1) key(1) by (simp add: key_serves_def)
    moreover have "key_serves run G lc1 new" by (rule key_servesI [OF hw inv1 _ m(4)]) (use rot_ok in blast)
    ultimately show ?thesis using rotation_Ok [OF m(2)] m(3,5,6) rot x key(2) r(1,2)
      by (intro exI [of _ lc1] exI [of _ new]) simp
  qed
qed

text \<open>Any two or more distinct seats, as many as the threshold, sign the standard digest.\<close>

lemma key_signs:
  fixes run :: "nat \<Rightarrow> ('sn, 'v::linorder, 'sh, 'ax, 'vk, 'ep, 'ks, 'sg) mpc"
  assumes w: "honest_world run G E" and key: "key_serves run G lc mat"
    and idxs: "distinct idxs" "\<forall>i \<in> set idxs. i < m_total mat" "length idxs = m_threshold mat" and "vk = vk_of mat"
  shows "\<exists>sg. threshold_sign b (run i) E mat idxs (dummy_binding keymesh_digest random)
      (sid_of (run 0) (dummy_binding keymesh_digest random)) = Ok sg
    \<and> verifies b E keymesh_digest sg vk \<and> s_is_low sg"
proof -
  have live: "\<And>i. material_live (run i) G mat" and l: "length (m_participants mat) = m_total mat"
    using key by (simp_all add: key_serves_def)
  have d: "sb_digest (dummy_binding keymesh_digest random) = keymesh_digest" by (simp add: dummy_binding_def)
  have "\<forall>i \<in> set idxs. i < length (m_participants mat)" using idxs(2) by (simp add: l)
  from honest_signature [OF w live idxs(1) this idxs(3), of "dummy_binding keymesh_digest random" b i]
  show ?thesis unfolding d assms(6) length_keymesh_digest by metis
qed

section \<open>The tests of a key's life pass\<close>

text \<open>What the request of a test becomes: executable an hour after the second approval.\<close>

definition quorum_request ::
  "string \<Rightarrow> string \<Rightarrow> string \<Rightarrow> u64 \<Rightarrow> string list \<Rightarrow> nat \<Rightarrow> bytes \<Rightarrow> rotation_request" where
  "quorum_request g1 g2 reference version names t gpk =
     \<lparr>ro_id = 1, ro_wallet = test_wallet, ro_old_version = version, ro_new_set = names, ro_threshold = t,
      ro_requested_by = g1, ro_governance_reference = reference, ro_created_at = 1000,
      ro_executable_at = Some 4800, ro_quorum_required = 2, ro_timelock_seconds = 3600,
      ro_approvals = [g1, g2], ro_status = RotQuorumReached, ro_group_public_key = gpk\<rparr>"

lemma quorum_request_simps [simp]:
  "ro_new_set (quorum_request g1 g2 re v names t gpk) = names"
  "ro_threshold (quorum_request g1 g2 re v names t gpk) = t"
  "ro_old_version (quorum_request g1 g2 re v names t gpk) = v"
  "ro_group_public_key (quorum_request g1 g2 re v names t gpk) = gpk"
  "ro_status (quorum_request g1 g2 re v names t gpk) = RotQuorumReached"
  "ro_executable_at (quorum_request g1 g2 re v names t gpk) = Some 4800"
  "rotation_is_executable (quorum_request g1 g2 re v names t gpk) 4800"
  by (simp_all add: quorum_request_def rotation_is_executable_def rotation_effective_status_def)

lemma request_approved:
  assumes "names \<noteq> []" "distinct names" "0 < t" "t \<le> length names"
  shows "approved_request b v names t gpk rest = rest (quorum_request ''g1'' ''g2'' ''ref'' v names t gpk) 4800"
    and "unwrapped (rotation_initiate 1 test_wallet v names t ''guardian1'' ''gov-ref-1'' gpk 3 2 ROTATION_MIN_TIMELOCK 1000) (\<lambda>req.
      after (rotation_approve b req ''guardian1'' 1100) (\<lambda>req. after (rotation_approve b req ''guardian2'' 1200) rest'))
    = rest' (quorum_request ''guardian1'' ''guardian2'' ''gov-ref-1'' v names t gpk)"
  using assms
  by (simp_all add: approved_request_def quorum_request_def request_test_simps distinct_card [symmetric] length_remdups_card_conv
      split: build.split)

text \<open>The two beginnings that the tests share: a new key, and a new key that was rotated.\<close>

definition key_begins ::
  "(nat \<Rightarrow> ('sn, 'v::linorder, 'sh, 'ax, 'vk, 'ep, 'ks, 'sg) mpc) \<Rightarrow> ('v, 'sh, 'ax, 'vk) dealing
     \<Rightarrow> ('sn, 'v, 'sh, 'ax, 'vk) key_lifecycle \<Rightarrow> ('sn, 'v, 'sh, 'ax, 'vk) key_material \<Rightarrow> bool" where
  "key_begins run G lc mat \<longleftrightarrow>
     with_key (run 0) = (\<lambda>rest. rest lc mat (vk_compressed (run 0) (vk_of mat)))
   \<and> lifecycle_dkg (run 0) lifecycle_new = (lc, Ok mat) \<and> lifecycle_live (run 0) G lc \<and> lifecycle_inv (run 0) lc
   \<and> key_serves run G lc mat \<and> kl_version lc = 1 \<and> m_threshold mat = 2 \<and> m_total mat = 3"

definition key_rotated ::
  "(nat \<Rightarrow> ('sn, 'v, 'sh, 'ax, 'vk, 'ep, 'ks, 'sg) mpc) \<Rightarrow> ('v, 'sh, 'ax, 'vk) dealing
     \<Rightarrow> ('sn, 'v, 'sh, 'ax, 'vk) key_material \<Rightarrow> string list \<Rightarrow> nat \<Rightarrow> ('sn, 'v, 'sh, 'ax, 'vk) key_lifecycle
     \<Rightarrow> ('sn, 'v, 'sh, 'ax, 'vk) key_material \<Rightarrow> bool" where
  "key_rotated run G mat names t lc new \<longleftrightarrow> key_serves run G lc new \<and> kl_version lc = 2
     \<and> m_threshold new = t \<and> m_total new = length names \<and> m_group_key new = m_group_key mat"

definition test_seats :: "string list set" where
  "test_seats = {[''A'', ''C'', ''D''], [''A'', ''B'', ''C'', ''D''], [''A'', ''C'']}"

lemma key_begins_rotates:
  fixes run :: "nat \<Rightarrow> ('sn, 'v::linorder, 'sh, 'ax, 'vk, 'ep, 'ks, 'sg) mpc"
  assumes w: "key_life_world run G E"
  shows "\<exists>lc mat. key_begins run G lc mat \<and>
    (\<forall>names t g1 g2 re. names \<in> test_seats \<and> 0 < t \<and> t \<le> length names \<longrightarrow>
      (\<exists>lc1 new. rotate_with_request b (run 1) lc
          (quorum_request g1 g2 re 1 names t (vk_compressed (run 0) (vk_of mat))) 4800
        = (lc1, (quorum_request g1 g2 re 1 names t (vk_compressed (run 0) (vk_of mat)))\<lparr>ro_status := RotCompleted\<rparr>, Ok ())
        \<and> key_rotated run G mat names t lc1 new))"
proof -
  have hw: "honest_world run G E" using w by (simp add: key_life_world_def)
  obtain lc mat where k: "lifecycle_dkg (run 0) lifecycle_new = (lc, Ok mat)" "lifecycle_inv (run 0) lc"
      "lifecycle_live (run 0) G lc" "key_serves run G lc mat" "kl_version lc = 1" "m_threshold mat = 2" "m_total mat = 3"
      and seats: "map p_verifier (m_participants mat) = map (\<lambda>i. signer_verifier (run 0) (signer_new (run 0) i)) [0, 1, 2]"
    using key_start [OF hw] by blast
  have "with_key (run 0) = (\<lambda>rest. rest lc mat (vk_compressed (run 0) (vk_of mat)))"
    using k(1,4) honest_worldD(9) [OF hw, of 0] by (simp add: fun_eq_iff with_key_def key_serves_def compressed_verifying_key_def)
  with k have "key_begins run G lc mat" by (simp add: key_begins_def)
  moreover have "\<exists>lc1 new. rotate_with_request b (run 1) lc (quorum_request g1 g2 re 1 names t (vk_compressed (run 0) (vk_of mat))) 4800
        = (lc1, (quorum_request g1 g2 re 1 names t (vk_compressed (run 0) (vk_of mat)))\<lparr>ro_status := RotCompleted\<rparr>, Ok ())
        \<and> key_rotated run G mat names t lc1 new"
    if names: "names \<in> test_seats \<and> 0 < t \<and> t \<le> length names" for names t g1 g2 re
    using key_rotates [OF w k(2-5) seats, of names "quorum_request g1 g2 re 1 names t (vk_compressed (run 0) (vk_of mat))" t 4800 b] names
    unfolding key_rotated_def test_seats_def by simp
  ultimately show ?thesis by blast
qed

lemma after_rotation_eq:
  assumes "rotate_with_request b M lc (quorum_request ''g1'' ''g2'' ''ref'' 1 names t gpk) 4800 = (lc1, r1, Ok ())"
    and "key_rotated run G mat names t lc1 new" and "kl_version lc = 1" and "names \<in> test_seats" "0 < t" "t \<le> length names"
  shows "after_rotation b M lc gpk names t rest = rest lc1 new"
  using assms by (auto simp: after_rotation_def request_approved test_seats_def key_rotated_def key_serves_def)

lemma key_serves_guard:
  assumes "key_serves run G lc mat" shows "check_signing_allowed lc v = (if v = kl_version lc then Ok () else Err (StaleVersion (kl_version lc) v))"
  using assms by (simp add: check_signing_allowed_def key_serves_def ks_can_sign_def is_stale_def)

lemma signs_digest_ok:
  fixes run :: "nat \<Rightarrow> ('sn, 'v::linorder, 'sh, 'ax, 'vk, 'ep, 'ks, 'sg) mpc"
  assumes "honest_world run G E" and "key_serves run G lc mat"
    and "distinct idxs" "\<forall>i \<in> set idxs. i < m_total mat" "length idxs = m_threshold mat" and "vk = vk_of mat"
    and "\<And>sg. s_is_low sg \<Longrightarrow> rest sg"
  shows "signs_digest b run E i mat idxs random vk rest"
  using key_signs [OF assms(1-6), of b i random] assms(7) by (auto simp: signs_digest_def)

lemma key_tests:
  fixes run :: "nat \<Rightarrow> ('sn, 'v::linorder, 'sh, 'ax, 'vk, 'ep, 'ks, 'sg) mpc"
  assumes w: "key_life_world run G E"
  shows "failed_refresh_preserves_old_state b run E" "key_id_deterministic b run E"
    "refresh_preserves_group_key_and_signs b run E"
proof -
  have hw: "honest_world run G E" using w by (simp add: key_life_world_def)
  show "failed_refresh_preserves_old_state b run E"
    by (simp add: failed_refresh_preserves_old_state_def lifecycle_refresh_def active_by_hand_def lifecycle_new_def
        ks_can_mutate_def)
  obtain mat0 where "setup_2of3 (run 0) = Ok mat0" by (rule honest_key [OF hw, of 0]) (rule that)
  then show "key_id_deterministic b run E"
    using w by (simp add: key_id_deterministic_def key_life_world_def Let_def)
  obtain lc mat where k: "key_begins run G lc mat" using key_begins_rotates [OF w] by blast
  then have dkg: "lifecycle_dkg (run 0) lifecycle_new = (lc, Ok mat)" and live: "lifecycle_live (run 0) G lc"
      and inv: "lifecycle_inv (run 0) lc" and serves: "key_serves run G lc mat" and two: "m_threshold mat = 2" "m_total mat = 3"
    by (simp_all add: key_begins_def)
  note h = honest_worldD [OF hw]
  have codec: "same_codec (run 0) (run 1)" using h(1) [of 1] unfolding same_world_def by blast
  obtain lc1 x where r: "lifecycle_refresh (run 1) lc = (lc1, x)" by (cases "lifecycle_refresh (run 1) lc")
  note refreshed = lifecycle_refresh_complete [OF h(2) [of 1] h(1) [of 1] live, unfolded r fst_conv snd_conv]
  have x: "x = Ok ()" using refreshed by (cases x) auto
  obtain new where new: "kl_material lc1 = Some new" "do_refresh_via_resharing (run 1) mat = Ok new"
      "m_group_key new = m_group_key mat"
  proof (cases rule: lifecycle_refresh_cases [where M = "run 1" and s = lc])
    case (refreshed mat' new)
    then have "mat' = mat" "kl_material lc1 = Some new" using serves r by (auto simp: key_serves_def)
    with refreshed(4,5) that show thesis by blast
  qed (use r x in simp_all)
  have "lifecycle_inv (run 0) lc1" using lifecycle_inv_refresh [OF inv codec] unfolding r fst_conv .
  then have serves1: "key_serves run G lc1 new" by (rule key_servesI [OF hw _ _ new(1)]) (use refreshed in blast)
  have t: "m_threshold new = 2" "m_total new = 3" using refresh_Ok [OF new(2)] two by simp_all
  have signs: "signs_digest b run E 2 new [0, 1] (replicate 32 0x11) (vk_of mat) s_is_low"
    by (rule signs_digest_ok [OF hw serves1]) (simp_all add: t new(3))
  have "kl_version lc1 = kl_version lc" "kl_state lc1 = KsActive" "kl_key_id lc1 = kl_key_id lc"
    using refreshed serves serves1 t two new(3) by (simp_all add: key_serves_def)
  with signs show "refresh_preserves_group_key_and_signs b run E"
    unfolding refresh_preserves_group_key_and_signs_def dkg after_value.simps unwrapped.simps Let_def r x after.simps
    by (simp add: new(1,3))
qed

lemma rotation_tests:
  fixes run :: "nat \<Rightarrow> ('sn, 'v::linorder, 'sh, 'ax, 'vk, 'ep, 'ks, 'sg) mpc"
  assumes w: "key_life_world run G E"
  shows "rotation_governed_and_preserves_group_key b run E" "stale_share_rejected b run E"
    "participant_addition b run E" "participant_removal b run E" "threshold_change_supported b run E"
    "old_share_mixed_with_new_rejected_via_version b run E"
    "rotation_failed_leaves b run KsRotating"
proof -
  have hw: "honest_world run G E" using w by (simp add: key_life_world_def)
  obtain lc mat where k: "key_begins run G lc mat"
      and rot: "\<And>names t g1 g2 re. names \<in> test_seats \<Longrightarrow> 0 < t \<Longrightarrow> t \<le> length names \<Longrightarrow>
      \<exists>lc1 new. rotate_with_request b (run 1) lc
          (quorum_request g1 g2 re 1 names t (vk_compressed (run 0) (vk_of mat))) 4800
        = (lc1, (quorum_request g1 g2 re 1 names t (vk_compressed (run 0) (vk_of mat)))\<lparr>ro_status := RotCompleted\<rparr>, Ok ())
        \<and> key_rotated run G mat names t lc1 new"
    using key_begins_rotates [OF w, of b] by blast
  note key = k [unfolded key_begins_def]
  have start: "with_key (run 0) rest = rest lc mat (vk_compressed (run 0) (vk_of mat))" for rest
    using key by simp
  have v: "kl_version lc = 1" and old: "key_serves run G lc mat" "m_threshold mat = 2" "m_total mat = 3"
    using key by simp_all
  note signs = signs_digest_ok [OF hw]
  have acd: "[''A'', ''C'', ''D''] \<in> test_seats" and abcd: "[''A'', ''B'', ''C'', ''D''] \<in> test_seats"
      and ac: "[''A'', ''C''] \<in> test_seats" by (simp_all add: test_seats_def)
  let ?q = "\<lambda>g1 g2 re names t. quorum_request g1 g2 re 1 names t (vk_compressed (run 0) (vk_of mat))"
  have rotated: "\<exists>lc1 new. rotate_with_request b (run 1) lc (?q g1 g2 re names t) 4800
        = (lc1, (?q g1 g2 re names t)\<lparr>ro_status := RotCompleted\<rparr>, Ok ())
      \<and> key_rotated run G mat names t lc1 new \<and> key_serves run G lc1 new
      \<and> (g1 = ''g1'' \<and> g2 = ''g2'' \<and> re = ''ref'' \<longrightarrow> (\<forall>rest. after_rotation b (run 1) lc
          (vk_compressed (run 0) (vk_of mat)) names t rest = rest lc1 new))"
    if n: "names \<in> test_seats" "0 < t" "t \<le> length names" for names t g1 g2 re
  proof -
    obtain lc1 new where o: "rotate_with_request b (run 1) lc (?q g1 g2 re names t) 4800
        = (lc1, (?q g1 g2 re names t)\<lparr>ro_status := RotCompleted\<rparr>, Ok ())" "key_rotated run G mat names t lc1 new"
      using rot [OF n] by blast
    have "after_rotation b (run 1) lc (vk_compressed (run 0) (vk_of mat)) names t rest = rest lc1 new"
      if "g1 = ''g1'' \<and> g2 = ''g2'' \<and> re = ''ref''" for rest
      by (rule after_rotation_eq [OF _ o(2) v n]) (use o(1) that in simp)
    with o show ?thesis by (auto simp: key_rotated_def)
  qed
  obtain lc2 new2 where n2: "key_rotated run G mat [''A'', ''C'', ''D''] 2 lc2 new2" and s2: "key_serves run G lc2 new2"
      and ar2: "\<And>rest. after_rotation b (run 1) lc (vk_compressed (run 0) (vk_of mat)) [''A'', ''C'', ''D''] 2 rest = rest lc2 new2"
    using rotated [OF acd, of 2 "''g1''" "''g2''" "''ref''"] by auto
  note n2' = n2 [unfolded key_rotated_def]
  show "old_share_mixed_with_new_rejected_via_version b run E"
    unfolding old_share_mixed_with_new_rejected_via_version_def start Let_def ar2
    using n2' by (simp add: key_serves_guard [OF s2] v)
  obtain sg sg' where "threshold_sign b (run 2) E mat [0, 1] (dummy_binding keymesh_digest (replicate 32 0x33))
      (sid_of (run 0) (dummy_binding keymesh_digest (replicate 32 0x33))) = Ok sg" "verifies b E keymesh_digest sg (vk_of mat)"
      "threshold_sign b (run 3) E new2 [0, 1] (dummy_binding keymesh_digest (replicate 32 0x33))
      (sid_of (run 0) (dummy_binding keymesh_digest (replicate 32 0x33))) = Ok sg'" "verifies b E keymesh_digest sg' (vk_of mat)"
    using key_signs [OF hw old(1), of "[0, 1]" "vk_of mat" b 2 "replicate 32 0x33"]
      key_signs [OF hw s2, of "[0, 1]" "vk_of mat" b 3 "replicate 32 0x33"] old(2,3) n2' by auto
  then show "stale_share_rejected b run E"
    unfolding stale_share_rejected_def start Let_def ar2
    using n2' by (simp add: key_serves_guard [OF s2] v)
  obtain lc3 new3 where n3: "key_rotated run G mat [''A'', ''B'', ''C'', ''D''] 2 lc3 new3" and s3: "key_serves run G lc3 new3"
      and ar3: "\<And>rest. after_rotation b (run 1) lc (vk_compressed (run 0) (vk_of mat)) [''A'', ''B'', ''C'', ''D''] 2 rest = rest lc3 new3"
    using rotated [OF abcd, of 2 "''g1''" "''g2''" "''ref''"] by auto
  have "signs_digest b run E 2 new3 [0, 3] (replicate 32 0x44) (vk_of mat) (\<lambda>_. True)"
    by (rule signs [OF s3]) (use n3 in \<open>simp_all add: key_rotated_def\<close>)
  then show "participant_addition b run E"
    unfolding participant_addition_def start Let_def ar3
    using n3 by (simp add: v key_rotated_def add_u64_def)
  obtain lc4 new4 where n4: "key_rotated run G mat [''A'', ''C''] 2 lc4 new4" and s4: "key_serves run G lc4 new4"
      and ar4: "\<And>rest. after_rotation b (run 1) lc (vk_compressed (run 0) (vk_of mat)) [''A'', ''C''] 2 rest = rest lc4 new4"
    using rotated [OF ac, of 2 "''g1''" "''g2''" "''ref''"] by auto
  have "signs_digest b run E 2 new4 [0, 1] (replicate 32 0x55) (vk_of mat) (\<lambda>_. True)"
    by (rule signs [OF s4]) (use n4 in \<open>simp_all add: key_rotated_def\<close>)
  then show "participant_removal b run E"
    unfolding participant_removal_def start Let_def ar4
    using n4 by (simp add: key_rotated_def rotation_initiate_def)
  obtain lc5 r5 new5 where r5: "rotate_with_request b (run 1) lc (?q ''g1'' ''g2'' ''ref'' [''A'', ''B'', ''C'', ''D''] 3) 4800
        = (lc5, r5, Ok ())"
      and n5: "key_rotated run G mat [''A'', ''B'', ''C'', ''D''] 3 lc5 new5" and s5: "key_serves run G lc5 new5"
    using rotated [OF abcd, of 3 "''g1''" "''g2''" "''ref''"] by auto
  have "signs_digest b run E 3 new5 [0, 1, 2] (replicate 32 0x66) (vk_of mat) (\<lambda>_. True)"
    by (rule signs [OF s5]) (use n5 in \<open>simp_all add: key_rotated_def\<close>)
  moreover have "is_err (threshold_sign b (run 2) E new5 [0, 1] bd sid)" for bd sid
    by (rule signing_refused(1)) (use n5 in \<open>simp add: key_rotated_def\<close>)
  moreover have a5: "approved_request b 1 [''A'', ''B'', ''C'', ''D''] 3 gpk rest
      = rest (quorum_request ''g1'' ''g2'' ''ref'' 1 [''A'', ''B'', ''C'', ''D''] 3 gpk) 4800" for gpk rest
    by (rule request_approved) simp_all
  ultimately show "threshold_change_supported b run E"
    unfolding threshold_change_supported_def start Let_def v a5 r5
    using n5 s5 by (simp add: key_rotated_def key_serves_def)
  obtain lc6 r6 new6 where r6: "rotate_with_request b (run 1) lc (?q ''guardian1'' ''guardian2'' ''gov-ref-1'' [''A'', ''C'', ''D''] 2) 4800
        = (lc6, r6, Ok ())" "ro_status r6 = RotCompleted"
      and n6: "key_rotated run G mat [''A'', ''C'', ''D''] 2 lc6 new6" and s6: "key_serves run G lc6 new6"
    using rotated [OF acd, of 2 "''guardian1''" "''guardian2''" "''gov-ref-1''"] by auto
  have "signs_digest b run E 2 new6 [0, 1] (replicate 32 0x22) (vk_of mat) (\<lambda>_. True)"
    by (rule signs [OF s6]) (use n6 in \<open>simp_all add: key_rotated_def\<close>)
  moreover have "kl_key_id lc6 = derive_key_id (run 0) (m_group_key mat) 2 2"
    using n6 s6 by (simp add: key_rotated_def key_serves_def)
  then have kid: "kl_key_id lc6 \<noteq> derive_key_id (run 0) (m_group_key mat) 2 1"
    using w by (simp add: key_life_world_def) metis
  have gk: "\<lparr>g_verifying_key = vk_of mat, g_ethereum_address = g_ethereum_address (m_group_key mat)\<rparr> = m_group_key mat"
    by simp
  note a6 = request_approved(2) [of "[''A'', ''C'', ''D'']" 2 1, simplified]
  ultimately show "rotation_governed_and_preserves_group_key b run E"
    unfolding rotation_governed_and_preserves_group_key_def start Let_def v
    using n6 s6 r6 kid by (simp add: a6 gk key_rotated_def add_u64_def key_serves_guard [OF s6]) (simp add: key_serves_def gk)
  have a7: "approved_request b 1 [''A'', ''B''] 2 gpk rest
      = rest (quorum_request ''g1'' ''g2'' ''ref'' 1 [''A'', ''B''] 2 gpk) 4800" for gpk rest
    by (rule request_approved) simp_all
  show "rotation_failed_leaves b run KsRotating"
    unfolding rotation_failed_leaves_def start v a7
    using old v by (simp add: key_serves_def begin_rotation_def apply_rotation_def ks_can_mutate_def Let_def)
qed


lemma with_keyD: "with_key M rest \<Longrightarrow> \<exists>lc mat gpk. rest lc mat gpk"
  by (cases "lifecycle_dkg M lifecycle_new") (auto simp: with_key_def unwrapped_iff unwrapped_option_iff)

text \<open>After the failed call of that test the key is in one state only, whatever the test expects.\<close>

lemma rotation_failed_leaves_rotating:
  fixes run :: "nat \<Rightarrow> ('sn, 'v::linorder, 'sh, 'ax, 'vk, 'ep, 'ks, 'sg) mpc"
  assumes "rotation_failed_leaves b run expected"
  shows "expected = KsRotating"
proof -
  obtain lc gpk and mat :: "('sn, 'v, 'sh, 'ax, 'vk) key_material"
    where "approved_request b (kl_version lc) [''A'', ''B''] 2 gpk (\<lambda>req exec.
     after (begin_rotation lc req exec) (\<lambda>lc1.
     case apply_rotation b (run 1) lc1 req 5 of (lc2, r) \<Rightarrow> rejected r (\<lambda>err.
       kl_state lc2 = expected \<and> kl_version lc2 = kl_version lc
     \<and> unwrapped_option (kl_material lc2) (\<lambda>m. vk_of m = vk_of mat))))"
    using with_keyD [OF assms [unfolded rotation_failed_leaves_def]] by blast
  then obtain req where t: "ro_threshold req = 2" and a: "after (begin_rotation lc req 4800) (\<lambda>lc1.
     case apply_rotation b (run 1) lc1 req 5 of (lc2, r) \<Rightarrow> rejected r (\<lambda>err.
       kl_state lc2 = expected \<and> kl_version lc2 = kl_version lc
     \<and> unwrapped_option (kl_material lc2) (\<lambda>m. vk_of m = vk_of mat)))"
    using that [of "quorum_request ''g1'' ''g2'' ''ref'' (kl_version lc) [''A'', ''B''] 2 gpk"]
    by (simp add: request_approved)
  have refused: "\<exists>e. apply_rotation b (run 1) lc1 req 5 = (lc1, Err e)" for lc1
    by (rule apply_rotation_refused) (simp add: t)
  show ?thesis
  proof (cases rule: begin_rotation_cases [where s = lc and r = req and now = 4800])
    case begun
    then show ?thesis using a refused [of "lc\<lparr>kl_state := KsRotating, kl_locked := True\<rparr>"] by (auto simp: rejected_iff)
  qed (use a in simp)
qed

text \<open>
  A test of the repository that cannot pass. The ignored test
  \<open>rotation_failed_preserves_old_state\<close> asserts that the key is active again after \<open>apply_rotation\<close> was
  called with a threshold that is not the request's. It fails for every outcome of the protocols
  and in both build modes: in an honest world every call before the assertion goes as the test
  wants, version and group key are preserved, but the key is left in the state \<open>Rotating\<close>.
\<close>

theorem failed_rotation_test_fails:
  "\<not> rotation_failed_preserves_old_state b run
    \<and> (key_life_world run G E \<longrightarrow> rotation_failed_leaves b run KsRotating)"
  by (auto simp: rotation_failed_preserves_old_state_def rotation_tests dest: rotation_failed_leaves_rotating)

lemma echo_key_life_world: "key_life_world (\<lambda>_. echo_mpc) fair_dealing ordinary_backend"
proof -
  have "u64_be 1 \<noteq> u64_be 2" by code_simp
  then show ?thesis
    using echo_honest_world by (simp add: key_life_world_def derive_key_id_def echo_mpc_def fair_simps)
qed


theorem failed_rotation_test_fails_witness:
  "\<not> rotation_failed_preserves_old_state Debug (\<lambda>_. echo_mpc) \<and> rotation_failed_leaves Debug (\<lambda>_. echo_mpc) KsRotating"
  using failed_rotation_test_fails [of Debug "\<lambda>_. echo_mpc" fair_dealing ordinary_backend] echo_key_life_world by blast

end
