(* ===== verification/Proto_Tests.thy ===== *)
theory Proto_Tests
  imports Signing_Tests Proto_Signing Proto_Transport
begin

text \<open>
  The tests of the prototype crate: \<open>proto_tests.rs\<close>, \<open>test_vectors.rs\<close> and the unit tests of \<open>session.rs\<close>,
  \<open>shamir.rs\<close>, \<open>dkg.rs\<close> and \<open>signature.rs\<close>. A test takes the build, the hash, the curve library and the
  scalars that its key generation draws; the test with a seed takes the stream of the seeded generator.
\<close>

section \<open>Helpers\<close>

definition proto_binding :: "bytes \<Rightarrow> bytes \<Rightarrow> session_binding" where
  "proto_binding digest random = (dummy_binding digest random)\<lparr>sb_protocol_version := ''cggmp21/v1''\<rparr>"

text \<open>\<open>let mat = distributed_keygen(3, 2); rest\<close>: a panic fails the test.\<close>

definition generated ::
  "build \<Rightarrow> ('a::field, 'vk) key_backend \<Rightarrow> (nat \<Rightarrow> 'a \<times> 'a) \<Rightarrow> (('a, 'vk) proto_key_material \<Rightarrow> bool) \<Rightarrow> bool" where
  "generated b K draws rest =
     unwrapped (distributed_keygen b K draws 3 2 :: (string, ('a, 'vk) proto_key_material) res) rest"

definition proto_verifies ::
  "build \<Rightarrow> ('a, 'sk, 'es, 'rid, 'vk) proto_ecdsa \<Rightarrow> bytes \<Rightarrow> threshold_signature \<Rightarrow> 'vk \<Rightarrow> bool" where
  "proto_verifies b G digest sg vk = unwrapped (proto_verify_signature b G digest sg vk) (\<lambda>ok. ok)"

definition proto_refuses ::
  "build \<Rightarrow> ('a, 'sk, 'es, 'rid, 'vk) proto_ecdsa \<Rightarrow> bytes \<Rightarrow> threshold_signature \<Rightarrow> 'vk \<Rightarrow> bool" where
  "proto_refuses b G digest sg vk = unwrapped (proto_verify_signature b G digest sg vk) (\<lambda>ok. \<not> ok)"

abbreviation share_at :: "('a, 'vk) proto_key_material \<Rightarrow> nat \<Rightarrow> 'a participant_share" where
  "share_at m i \<equiv> pk_shares m ! i"

text \<open>\<open>assert_eq!\<close> of two interpolations, either of which may panic.\<close>

definition interpolate_equal :: "'a::field participant_share list \<Rightarrow> 'a participant_share list \<Rightarrow> bool" where
  "interpolate_equal s s' =
     unwrapped (lagrange_interpolate_at_zero s :: (string, 'a) res) (\<lambda>x.
     unwrapped (lagrange_interpolate_at_zero s' :: (string, 'a) res) (\<lambda>y. x = y))"

definition interpolate_differ :: "'a::field participant_share list \<Rightarrow> 'a participant_share list \<Rightarrow> bool" where
  "interpolate_differ s s' =
     unwrapped (lagrange_interpolate_at_zero s :: (string, 'a) res) (\<lambda>x.
     unwrapped (lagrange_interpolate_at_zero s' :: (string, 'a) res) (\<lambda>y. x \<noteq> y))"

type_synonym ('a, 'sk, 'es, 'rid, 'vk) proto_test =
  "build \<Rightarrow> (bytes \<Rightarrow> bytes) \<Rightarrow> ('a, 'vk) key_backend \<Rightarrow> ('a, 'sk, 'es, 'rid, 'vk) proto_ecdsa
     \<Rightarrow> (nat \<Rightarrow> 'a \<times> 'a) \<Rightarrow> bool"

section \<open>Key generation and interpolation\<close>

definition shamir_2of3_reconstruct :: "'a::field itself \<Rightarrow> bool" where
  "shamir_2of3_reconstruct TYPE('a) =
     (let x = scalar_of 42 :: 'a; a = scalar_of 7;
          share = (\<lambda>i. \<lparr>sh_index = i, sh_secret = x + a * scalar_of i\<rparr>);
          shares = [share 1, share 2, share 3];
          at_zero = (\<lambda>s test. unwrapped (lagrange_interpolate_at_zero s :: (string, 'a) res) test)
      in at_zero (take 2 shares) (\<lambda>r. r = x) \<and> at_zero [shares ! 0, shares ! 2] (\<lambda>r. r = x)
       \<and> at_zero (drop 1 shares) (\<lambda>r. r = x) \<and> at_zero (take 1 shares) (\<lambda>r. r \<noteq> x))"

definition dkg_all_derive_same_group_key :: "('a::field, 'sk, 'es, 'rid, 'vk) proto_test" where
  "dkg_all_derive_same_group_key b keccak K G draws = generated b K draws (\<lambda>mat.
     interpolate_equal (take 2 (pk_shares mat)) [share_at mat 0, share_at mat 2]
   \<and> interpolate_equal [share_at mat 0, share_at mat 2] (drop 1 (pk_shares mat))
   \<and> interpolate_differ (take 1 (pk_shares mat)) (take 2 (pk_shares mat)))"

definition dkg_2of3_succeeds_and_group_key_consistent :: "('a::field, 'sk, 'es, 'rid, 'vk) proto_test" where
  "dkg_2of3_succeeds_and_group_key_consistent b keccak K G draws = generated b K draws (\<lambda>mat.
     length (pk_shares mat) = 3 \<and> pk_threshold mat = 2
   \<and> interpolate_equal (take 2 (pk_shares mat)) [share_at mat 0, share_at mat 2]
   \<and> interpolate_equal [share_at mat 0, share_at mat 2] (drop 1 (pk_shares mat))
   \<and> pk_ethereum_address mat \<noteq> replicate 20 0)"

definition ethereum_address_derivation_consistent :: "('a::field, 'sk, 'es, 'rid, 'vk) proto_test" where
  "ethereum_address_derivation_consistent b keccak K G draws = generated b K draws (\<lambda>mat.
     proto_ethereum_address K (pk_group_verifying_key mat) = pk_ethereum_address mat
   \<and> length (pk_ethereum_address mat) = 20)"

section \<open>Sessions and the simulated transport\<close>

definition session_test_binding :: "u8 \<Rightarrow> session_binding" where
  "session_test_binding random_byte = \<lparr>sb_wallet = replicate 20 0x11, sb_chain_id = 31337, sb_nonce = 0,
     sb_digest = replicate 32 0xab, sb_policy_version = 1, sb_protocol_version = ''cggmp21/v1'',
     sb_random = replicate 32 random_byte\<rparr>"

definition session_id_deterministic :: "(bytes \<Rightarrow> bytes) \<Rightarrow> bool" where
  "session_id_deterministic keccak \<longleftrightarrow>
     proto_derive_session_id keccak (session_test_binding 0xaa) = proto_derive_session_id keccak (session_test_binding 0xaa)"

definition session_id_changes_with_binding :: "(bytes \<Rightarrow> bytes) \<Rightarrow> bool" where
  "session_id_changes_with_binding keccak \<longleftrightarrow>
     (let base = session_test_binding 0xaa; base_id = proto_derive_session_id keccak base
      in proto_derive_session_id keccak (base\<lparr>sb_nonce := 1\<rparr>) \<noteq> base_id)"

definition proto_session_lifecycle_monotonic :: "(bytes \<Rightarrow> bytes) \<Rightarrow> bool" where
  "proto_session_lifecycle_monotonic keccak =
     (case proto_transition (proto_session_new keccak (session_test_binding 0xaa) [1, 2] 2) ProtoCompleted of
        (s, r) \<Rightarrow> is_ok r \<and> is_err (snd (proto_transition s ProtoAborted)))"

definition abort_cannot_finalize_and_reuse_fails :: "(bytes \<Rightarrow> bytes) \<Rightarrow> bool" where
  "abort_cannot_finalize_and_reuse_fails keccak =
     (let session = proto_session_new keccak (proto_binding (replicate 32 0x88) (replicate 32 0x99)) [1, 2] 2
      in pss_status session = ProtoStarted
       \<and> after (proto_transition session ProtoAborted) (\<lambda>session.
           case proto_transition session ProtoCompleted of (session, r) \<Rightarrow> is_err r
         \<and> (let sid = pss_session_id session; binding2 = proto_binding (replicate 32 0x88) (replicate 32 0xaa)
            in sid \<noteq> proto_derive_session_id keccak binding2)))"

definition proto_sim_message :: "u8 \<Rightarrow> u8 \<Rightarrow> bytes \<Rightarrow> proto_message" where
  "proto_sim_message sender rnd payload = \<lparr>pm_session_id = replicate 32 0xaa, pm_sender = sender, pm_round = rnd,
     pm_payload = payload, pm_digest = replicate 32 0xbb\<rparr>"

definition wrong_round_and_duplicate_handling_via_transport :: bool where
  "wrong_round_and_duplicate_handling_via_transport =
     (let t = proto_send (proto_send proto_new (proto_sim_message 1 1 [1, 2])) (proto_sim_message 2 1 [3, 4])
      in is_ok (proto_check_no_duplicate t) \<and> is_ok (proto_check_rounds t)
       \<and> is_err (proto_check_no_duplicate (proto_duplicate_first t))
       \<and> (let t2 = proto_reorder (proto_send (proto_send proto_new (proto_sim_message 1 1 [1])) (proto_sim_message 1 2 [2]))
          in is_ok (proto_check_no_duplicate t2)
           \<and> is_err (proto_verify_binding (proto_modify_first_digest t2 (replicate 32 0xff))
               (replicate 32 0xaa) (replicate 32 0xbb)))
       \<and> is_err (proto_check_rounds (proto_send proto_new (proto_sim_message 1 99 []))))"

section \<open>Signing\<close>

text \<open>\<open>threshold_sign\<close> with the group key and the threshold 2, as every test calls it.\<close>

definition proto_signed ::
  "build \<Rightarrow> (bytes \<Rightarrow> bytes) \<Rightarrow> ('a::field, 'sk, 'es, 'rid, 'vk) proto_ecdsa \<Rightarrow> ('a, 'vk) proto_key_material
     \<Rightarrow> 'a participant_share list \<Rightarrow> session_binding \<Rightarrow> tss_session_id \<Rightarrow> (string, threshold_signature) res" where
  "proto_signed b keccak G mat shares binding sid =
     proto_threshold_sign b keccak G shares (pk_group_verifying_key mat) binding sid 2"

definition threshold_2of3_all_pairs_succeed_single_fails :: "('a::field, 'sk, 'es, 'rid, 'vk) proto_test" where
  "threshold_2of3_all_pairs_succeed_single_fails b keccak K G draws = generated b K draws (\<lambda>mat.
     let binding = proto_binding keymesh_digest (replicate 32 0x11);
         sign = (\<lambda>shares. proto_signed b keccak G mat shares binding (proto_derive_session_id keccak binding))
     in is_ok (sign (take 2 (pk_shares mat))) \<and> is_ok (sign [share_at mat 0, share_at mat 2])
      \<and> is_ok (sign (drop 1 (pk_shares mat)))
      \<and> is_err (sign [share_at mat 0]) \<and> is_err (sign [share_at mat 1]) \<and> is_err (sign [share_at mat 2]))"

definition produced_signature_is_standard_ecdsa_low_s_and_recovers :: "('a::field, 'sk, 'es, 'rid, 'vk) proto_test" where
  "produced_signature_is_standard_ecdsa_low_s_and_recovers b keccak K G draws = generated b K draws (\<lambda>mat.
     let digest = keymesh_digest; binding = proto_binding digest (replicate 32 0x22)
     in unwrapped (proto_signed b keccak G mat (take 2 (pk_shares mat)) binding (proto_derive_session_id keccak binding)) (\<lambda>sig.
          sg_r sig \<noteq> replicate 32 0 \<and> sg_s sig \<noteq> replicate 32 0 \<and> proto_s_is_low sig \<and> sg_v sig \<in> {27, 28}
        \<and> proto_verifies b G digest sig (pk_group_verifying_key mat)
        \<and> proto_refuses b G (flip_bit 0 digest) sig (pk_group_verifying_key mat)))"

definition signature_bound_to_keymesh_digest_modified_digest_fails :: "('a::field, 'sk, 'es, 'rid, 'vk) proto_test" where
  "signature_bound_to_keymesh_digest_modified_digest_fails b keccak K G draws = generated b K draws (\<lambda>mat.
     let digest_a = replicate 32 0x11; digest_b = replicate 32 0x22;
         binding_a = proto_binding digest_a (replicate 32 0x33); sid_a = proto_derive_session_id keccak binding_a;
         binding_b = proto_binding digest_b (replicate 32 0x33)
     in unwrapped (proto_signed b keccak G mat (take 2 (pk_shares mat)) binding_a sid_a) (\<lambda>sig_a.
          proto_refuses b G digest_b sig_a (pk_group_verifying_key mat)
        \<and> is_err (proto_signed b keccak G mat (take 2 (pk_shares mat)) binding_b sid_a)))"

definition replayed_session_fails :: "('a::field, 'sk, 'es, 'rid, 'vk) proto_test" where
  "replayed_session_fails b keccak K G draws = generated b K draws (\<lambda>mat.
     let digest = keymesh_digest; shares = take 2 (pk_shares mat);
         binding = proto_binding digest (replicate 32 0x44); sid = proto_derive_session_id keccak binding;
         binding2 = proto_binding digest (replicate 32 0x55); sid2 = proto_derive_session_id keccak binding2;
         wrong_digest = digest[1 := xor (digest ! 1) 0xff];
         binding_wrong = proto_binding wrong_digest (replicate 32 0x44)
     in unwrapped (proto_signed b keccak G mat shares binding sid) (\<lambda>sig.
          proto_verifies b G digest sig (pk_group_verifying_key mat) \<and> sid \<noteq> sid2
        \<and> is_err (proto_signed b keccak G mat shares binding2 sid)
        \<and> is_err (proto_signed b keccak G mat shares binding_wrong sid)))"

definition wrong_participant_identity_fails :: "('a::field, 'sk, 'es, 'rid, 'vk) proto_test" where
  "wrong_participant_identity_fails b keccak K G draws = generated b K draws (\<lambda>mat.
     let binding = proto_binding keymesh_digest (replicate 32 0x66); sid = proto_derive_session_id keccak binding;
         fake = \<lparr>sh_index = 99, sh_secret = sh_secret (share_at mat 0)\<rparr>
     in is_err (proto_signed b keccak G mat [share_at mat 0, share_at mat 0] binding sid)
      \<and> is_err (proto_signed b keccak G mat [share_at mat 0, fake] binding sid))"

definition offline_participant_2of3_still_succeeds_1_fails :: "('a::field, 'sk, 'es, 'rid, 'vk) proto_test" where
  "offline_participant_2of3_still_succeeds_1_fails b keccak K G draws = generated b K draws (\<lambda>mat.
     let binding = proto_binding keymesh_digest (replicate 32 0x77); sid = proto_derive_session_id keccak binding
     in is_ok (proto_signed b keccak G mat (take 2 (pk_shares mat)) binding sid)
      \<and> is_err (proto_signed b keccak G mat (take 1 (pk_shares mat)) binding sid))"

definition transcript_records_without_secrets :: "('a::field, 'sk, 'es, 'rid, 'vk) proto_test" where
  "transcript_records_without_secrets b keccak K G draws = generated b K draws (\<lambda>mat.
     let digest = keymesh_digest; binding = proto_binding digest (replicate 32 0xcc);
         sid = proto_derive_session_id keccak binding
     in unwrapped (proto_signed b keccak G mat (take 2 (pk_shares mat)) binding sid) (\<lambda>sig.
          let transcript = proto_transcript_new_success [1, 2] sid digest 31337 (sb_wallet binding) 0 1 sig
          in tr_participant_indices transcript = [1, 2] \<and> tr_digest transcript = digest
           \<and> tr_session_id transcript = sid
           \<and> unwrapped_option (tr_final_signature transcript) (\<lambda>final. sg_r final = sg_r sig)))"

definition keymesh_digest_flow :: "('a::field, 'sk, 'es, 'rid, 'vk) proto_test" where
  "keymesh_digest_flow b keccak K G draws = generated b K draws (\<lambda>mat.
     let digest = keymesh_digest; binding = proto_binding digest (replicate 32 0xdd)
     in unwrapped (proto_signed b keccak G mat (take 2 (pk_shares mat)) binding (proto_derive_session_id keccak binding)) (\<lambda>sig.
          proto_verifies b G digest sig (pk_group_verifying_key mat)))"

text \<open>Without the wall-clock limits of the test.\<close>

definition performance_measure_2of3 :: "('a::field, 'sk, 'es, 'rid, 'vk) proto_test" where
  "performance_measure_2of3 b keccak K G draws = generated b K draws (\<lambda>mat.
     let digest = replicate 32 0x55; binding = proto_binding digest (replicate 32 0xee);
         sid = proto_derive_session_id keccak binding;
         message = (\<lambda>sender. \<lparr>pm_session_id = (case sid of TssSessionId bs \<Rightarrow> bs), pm_sender = sender, pm_round = 1,
           pm_payload = replicate 64 0, pm_digest = digest\<rparr>)
     in unwrapped (proto_signed b keccak G mat (take 2 (pk_shares mat)) binding sid) (\<lambda>_.
          proto_len (proto_send (proto_send proto_new (message 1)) (message 2)) = 2))"

definition no_exposed_reconstruct_in_public_api :: "('a::field, 'sk, 'es, 'rid, 'vk) proto_test" where
  "no_exposed_reconstruct_in_public_api b keccak K G draws = generated b K draws (\<lambda>mat.
     let binding = proto_binding (replicate 32 0x99) (replicate 32 0xff)
     in is_err (proto_signed b keccak G mat (take 1 (pk_shares mat)) binding (proto_derive_session_id keccak binding)))"

definition signature_test_binding :: "bytes \<Rightarrow> session_binding" where
  "signature_test_binding digest = \<lparr>sb_wallet = replicate 20 0x11, sb_chain_id = 31337, sb_nonce = 0, sb_digest = digest,
     sb_policy_version = 1, sb_protocol_version = ''cggmp21/v1'', sb_random = replicate 32 0x33\<rparr>"

definition low_s_and_recovery :: "('a::field, 'sk, 'es, 'rid, 'vk) proto_test" where
  "low_s_and_recovery b keccak K G draws = generated b K draws (\<lambda>mat.
     let digest = replicate 32 0x42;
         binding = signature_test_binding digest
     in unwrapped (proto_signed b keccak G mat (take 2 (pk_shares mat)) binding (proto_derive_session_id keccak binding)) (\<lambda>sig.
          proto_s_is_low sig \<and> sg_v sig \<in> {27, 28} \<and> proto_verifies b G digest sig (pk_group_verifying_key mat)))"

text \<open>The test with the seeded generator prints the vector that it checks; the printing is left out.\<close>

definition cross_language_vector_print ::
  "build \<Rightarrow> (bytes \<Rightarrow> bytes) \<Rightarrow> ('a::field, 'vk) key_backend \<Rightarrow> ('a, 'sk, 'es, 'rid, 'vk) proto_ecdsa
     \<Rightarrow> (u64 \<Rightarrow> nat \<Rightarrow> 'a \<times> 'a) \<Rightarrow> bool" where
  "cross_language_vector_print b keccak K G chacha =
     unwrapped (distributed_keygen_seeded K chacha 3 2 0xdeadbeefcafe1234 :: (string, ('a, 'vk) proto_key_material) res) (\<lambda>mat.
     let digest = keymesh_digest; binding = proto_binding digest (replicate 32 0x99)
     in unwrapped (proto_signed b keccak G mat (take 2 (pk_shares mat)) binding (proto_derive_session_id keccak binding)) (\<lambda>sig.
          proto_verifies b G digest sig (pk_group_verifying_key mat)))"

definition proto_key_tests :: "('a::field, 'sk, 'es, 'rid, 'vk) proto_test list" where
  "proto_key_tests =
     [dkg_all_derive_same_group_key, dkg_2of3_succeeds_and_group_key_consistent, ethereum_address_derivation_consistent,
      threshold_2of3_all_pairs_succeed_single_fails, produced_signature_is_standard_ecdsa_low_s_and_recovers,
      signature_bound_to_keymesh_digest_modified_digest_fails, replayed_session_fails,
      wrong_participant_identity_fails, offline_participant_2of3_still_succeeds_1_fails,
      transcript_records_without_secrets, keymesh_digest_flow, performance_measure_2of3,
      no_exposed_reconstruct_in_public_api, low_s_and_recovery]"

definition proto_session_tests :: "((bytes \<Rightarrow> bytes) \<Rightarrow> bool) list" where
  "proto_session_tests =
     [session_id_deterministic, session_id_changes_with_binding, proto_session_lifecycle_monotonic,
      abort_cannot_finalize_and_reuse_fails, \<lambda>_. wrong_round_and_duplicate_handling_via_transport]"

section \<open>What the tests need\<close>

text \<open>The bindings whose sessions a test compares.\<close>

definition proto_test_bindings :: "session_binding list" where
  "proto_test_bindings =
     [session_test_binding 0xaa, (session_test_binding 0xaa)\<lparr>sb_nonce := 1\<rparr>,
      proto_binding (replicate 32 0x88) (replicate 32 0x99), proto_binding (replicate 32 0x88) (replicate 32 0xaa),
      proto_binding (replicate 32 0x11) (replicate 32 0x33), proto_binding (replicate 32 0x22) (replicate 32 0x33),
      proto_binding keymesh_digest (replicate 32 0x44), proto_binding keymesh_digest (replicate 32 0x55),
      proto_binding (keymesh_digest[1 := xor (keymesh_digest ! 1) 0xff]) (replicate 32 0x44)]"

text \<open>
  Scalars that determine their index, curve operations as documented with ordinary signatures, no
  collision among those sessions.
\<close>

definition proto_world ::
  "(bytes \<Rightarrow> bytes) \<Rightarrow> ('a::field, 'vk) key_backend \<Rightarrow> ('a, 'sk, 'es, 'rid, 'vk) proto_ecdsa \<Rightarrow> bool" where
  "proto_world keccak K G \<longleftrightarrow> inj (scalar_of :: u8 \<Rightarrow> 'a) \<and> public_key_law K \<and> ecdsa_signs K G
     \<and> (\<forall>k digest es rid. sign_prehash G k digest = Ok (es, rid) \<longrightarrow> length (sig_to_bytes G es) = 64
          \<and> take 32 (sig_to_bytes G es) \<noteq> replicate 32 0 \<and> drop 32 (sig_to_bytes G es) \<noteq> replicate 32 0
          \<and> recid_to_byte G rid \<in> {0, 1})
     \<and> inj_on (keccak \<circ> session_preimage) (set proto_test_bindings)"

text \<open>
  Draws that are no accident: neither the group secret nor the slope nor the first share is zero, the
  first share is not a secret key of the group's public key, and the address is not zero.
\<close>

definition ordinary_draws :: "('a::field, 'vk) key_backend \<Rightarrow> (nat \<Rightarrow> 'a \<times> 'a) \<Rightarrow> bool" where
  "ordinary_draws K draws \<longleftrightarrow> group_secret draws \<noteq> 0 \<and> group_slope draws \<noteq> 0
     \<and> group_secret draws + group_slope draws \<noteq> 0
     \<and> public_of K (group_secret draws + group_slope draws) \<noteq> public_of K (group_secret draws)
     \<and> (\<forall>vk. public_of K (group_secret draws) = Some vk \<longrightarrow>
          length (proto_ethereum_address K vk) = 20 \<and> proto_ethereum_address K vk \<noteq> replicate 20 0)"

section \<open>One key generation\<close>

text \<open>The material of a key generation with ordinary draws.\<close>

definition proto_material ::
  "('a::field, 'vk) key_backend \<Rightarrow> (nat \<Rightarrow> 'a \<times> 'a) \<Rightarrow> ('a, 'vk) proto_key_material \<Rightarrow> bool" where
  "proto_material K draws m \<longleftrightarrow>
     pk_shares m = map (\<lambda>j. \<lparr>sh_index = word_of_nat j,
       sh_secret = group_secret draws + group_slope draws * of_nat j\<rparr>) [1, 2, 3]
     \<and> pk_threshold m = 2 \<and> public_of K (group_secret draws) = Some (pk_group_verifying_key m)
     \<and> pk_ethereum_address m = proto_ethereum_address K (pk_group_verifying_key m)"

lemma proto_generates:
  fixes K :: "('a::field, 'vk) key_backend"
  assumes w: "inj (scalar_of :: u8 \<Rightarrow> 'a)" "public_key_law K" and d: "group_secret draws \<noteq> 0"
  shows "\<exists>m. (distributed_keygen b K draws 3 2 :: (string, ('a, 'vk) proto_key_material) res) = Ok m
    \<and> (distributed_keygen_seeded K (\<lambda>_. draws) 3 2 seed :: (string, ('a, 'vk) proto_key_material) res) = Ok m
    \<and> proto_material K draws m"
proof -
  obtain a c where ac: "contributions 3 draws = (a, c)" by (rule contributions_pair)
  obtain vk where vk: "public_of K (group_secret draws) = Some vk"
    using w(2) d by (auto simp: public_key_law_def)
  let ?m = "\<lparr>pk_shares = keygen_shares 3 a c, pk_group_verifying_key = vk,
    pk_ethereum_address = proto_ethereum_address K vk, pk_threshold = 2, pk_total = 3\<rparr>"
  have "(distributed_keygen b K draws 3 2 :: (string, ('a, 'vk) proto_key_material) res) = Ok ?m"
    by (simp add: distributed_keygen_eq [OF w(1) ac] vk)
  moreover have "(distributed_keygen_seeded K (\<lambda>_. draws) 3 2 seed :: (string, ('a, 'vk) proto_key_material) res) = Ok ?m"
    by (simp add: distributed_keygen_seeded_def keygen_core_def ac keygen_values(1) [OF ac] vk)
  moreover have "proto_material K draws ?m"
    by (simp add: proto_material_def vk keygen_values(2) [OF ac])
  ultimately show ?thesis by blast
qed

lemma proto_material_interpolates:
  fixes K :: "('a::field, 'vk) key_backend"
  assumes w: "inj (scalar_of :: u8 \<Rightarrow> 'a)" and m: "proto_material K draws m"
    and ss: "set ss \<subseteq> set (pk_shares m)" "distinct (map sh_index ss)" "2 \<le> length ss"
  shows "lagrange_interpolate_at_zero ss = (Ok (group_secret draws) :: (string, 'a) res)"
proof -
  obtain a c where ac: "contributions 3 draws = (a, c)" by (rule contributions_pair)
  have "pk_shares m = keygen_shares 3 a c" using m by (simp add: proto_material_def keygen_values(2) [OF ac])
  with ss show ?thesis by (intro keygen_shares_recover [OF w ac]) simp_all
qed

lemma lagrange_single: "lagrange_interpolate_at_zero [s] = Ok (sh_secret s)"
  by (simp add: lagrange_interpolate_at_zero_def scalar_invert_def)

lemma proto_slices:
  assumes "proto_material K draws m"
  shows "length (pk_shares m) = 3" "take 1 (pk_shares m) = [share_at m 0]" "take 2 (pk_shares m) = [share_at m 0, share_at m 1]"
    "drop 1 (pk_shares m) = [share_at m 1, share_at m 2]"
    "sh_index (share_at m 0) = 1" "sh_index (share_at m 1) = 2" "sh_index (share_at m 2) = 3"
    "sh_secret (share_at m 0) = group_secret draws + group_slope draws"
    "share_at m 0 \<in> set (pk_shares m)" "share_at m 1 \<in> set (pk_shares m)" "share_at m 2 \<in> set (pk_shares m)"
    "sh_index (share_at m (Suc 0)) = 2" "share_at m (Suc 0) \<in> set (pk_shares m)"
  using assms by (simp_all add: proto_material_def numeral_2_eq_2 numeral_3_eq_3)

text \<open>A fake participant with a copied share interpolates to that share.\<close>

lemma fake_share:
  fixes s :: "'a::field participant_share"
  assumes "inj (scalar_of :: u8 \<Rightarrow> 'a)" and "sh_index s = 1"
  shows "lagrange_interpolate_at_zero [s, \<lparr>sh_index = 99, sh_secret = sh_secret s\<rparr>] = (Ok (sh_secret s) :: (string, 'a) res)"
  using lagrange_recovers_facts [OF assms(1), of "[s, \<lparr>sh_index = 99, sh_secret = sh_secret s\<rparr>]" "[sh_secret s]"] assms(2)
  by (simp add: poly_at_def)

definition proto_good :: "build \<Rightarrow> ('a::field, 'sk, 'es, 'rid, 'vk) proto_ecdsa \<Rightarrow> 'vk \<Rightarrow> bytes \<Rightarrow> threshold_signature \<Rightarrow> bool" where
  "proto_good b G vk digest sg \<longleftrightarrow> proto_verifies b G digest sg vk \<and> sg_digest sg = digest \<and> proto_s_is_low sg
     \<and> sg_r sg \<noteq> replicate 32 0 \<and> sg_s sg \<noteq> replicate 32 0 \<and> sg_v sg \<in> {27, 28}"

lemma proto_pairs_sign:
  fixes G :: "('a::field, 'sk, 'es, 'rid, 'vk) proto_ecdsa"
  assumes w: "proto_world keccak K G" and m: "proto_material K draws m"
  shows "\<exists>sg. proto_good b G (pk_group_verifying_key m) (sb_digest binding) sg
    \<and> (\<forall>ss. set ss \<subseteq> set (pk_shares m) \<and> distinct (map sh_index ss) \<and> 2 \<le> length ss \<longrightarrow>
        proto_signed b keccak G m ss binding (proto_derive_session_id keccak binding) = Ok sg)"
proof -
  have law: "ecdsa_signs K G" and inj: "inj (scalar_of :: u8 \<Rightarrow> 'a)"
      and pk: "public_of K (group_secret draws) = Some (pk_group_verifying_key m)"
    using w m by (simp_all add: proto_world_def proto_material_def)
  obtain sg k es rid where sg: "sign_prehash G k (sb_digest binding) = Ok (es, rid)"
      "sg = \<lparr>sg_r = take 32 (sig_to_bytes G es), sg_s = drop 32 (sig_to_bytes G es),
        sg_v = recid_to_byte G rid + 27, sg_digest = sb_digest binding,
        sg_session_id = derive_session_id keccak binding\<rparr>" "proto_s_is_low sg"
    and v: "proto_verify_signature b G (sb_digest binding) sg (pk_group_verifying_key m) = Ok True"
    and sign: "\<And>shares. 2 \<le> length shares \<Longrightarrow> distinct (map sh_index shares)
      \<Longrightarrow> lagrange_interpolate_at_zero shares = (Ok (group_secret draws) :: (string, 'a) res)
      \<Longrightarrow> proto_threshold_sign b keccak G shares (pk_group_verifying_key m) binding
        (derive_session_id keccak binding) 2 = Ok sg"
    using proto_sign_eq [OF law pk, where keccak = keccak and binding = binding and b = b and t = 2
        and w = "pk_group_verifying_key m", simplified refl if_True] by metis
  have parts: "take 32 (sig_to_bytes G es) \<noteq> replicate 32 0 \<and> drop 32 (sig_to_bytes G es) \<noteq> replicate 32 0
      \<and> recid_to_byte G rid \<in> {0, 1}" using w sg(1) unfolding proto_world_def by blast
  have "proto_good b G (pk_group_verifying_key m) (sb_digest binding) sg"
    using v sg(3) parts unfolding proto_good_def sg(2) by (auto simp: proto_verifies_def)
  moreover have "proto_signed b keccak G m ss binding (proto_derive_session_id keccak binding) = Ok sg"
    if "set ss \<subseteq> set (pk_shares m) \<and> distinct (map sh_index ss) \<and> 2 \<le> length ss" for ss
    using that proto_material_interpolates [OF inj m, of ss]
    by (simp add: proto_signed_def proto_derive_session_id_eq sign)
  ultimately show ?thesis by blast
qed

lemma proto_refused:
  "length ss < 2 \<Longrightarrow> is_err (proto_signed b keccak G m ss binding sid)"
  "\<not> distinct (map sh_index ss) \<Longrightarrow> is_err (proto_signed b keccak G m ss binding sid)"
  "proto_derive_session_id keccak binding \<noteq> sid \<Longrightarrow> is_err (proto_signed b keccak G m ss binding sid)"
  by (simp_all add: proto_signed_def proto_threshold_sign_def distinct_loop_Ok Let_def)

lemma proto_sessions_differ:
  assumes "proto_world keccak K G" and "x \<in> set proto_test_bindings" "y \<in> set proto_test_bindings" "x \<noteq> y"
  shows "proto_derive_session_id keccak x \<noteq> proto_derive_session_id keccak y"
proof -
  have "inj_on (keccak \<circ> session_preimage) (set proto_test_bindings)" using assms(1) by (simp add: proto_world_def)
  from inj_on_contraD [OF this assms(4,2,3)] show ?thesis
    by (simp add: proto_derive_session_id_eq derive_session_id_def)
qed

lemma proto_binding_fields [simp]: "sb_digest (proto_binding d r) = d"
  "proto_binding d r = proto_binding d' r' \<longleftrightarrow> d = d' \<and> r = r'"
  by (auto simp: proto_binding_def dummy_binding_def)

section \<open>The prototype's tests pass\<close>

lemma proto_refuses_digest: "proto_good b G vk digest sg \<Longrightarrow> digest \<noteq> digest' \<Longrightarrow> proto_refuses b G digest' sg vk"
  by (simp add: proto_good_def proto_refuses_def proto_verify_signature_def)

lemma session_tests:
  assumes "proto_world keccak K G"
  shows "session_id_deterministic keccak" "session_id_changes_with_binding keccak"
    "proto_session_lifecycle_monotonic keccak" "abort_cannot_finalize_and_reuse_fails keccak"
    "wrong_round_and_duplicate_handling_via_transport"
proof -
  show "session_id_deterministic keccak" by (simp add: session_id_deterministic_def)
  show "session_id_changes_with_binding keccak"
    using proto_sessions_differ [OF assms, of "(session_test_binding 0xaa)\<lparr>sb_nonce := 1\<rparr>" "session_test_binding 0xaa"]
    by (simp add: session_id_changes_with_binding_def proto_test_bindings_def session_test_binding_def Let_def)
  show "proto_session_lifecycle_monotonic keccak"
    by (simp add: proto_session_lifecycle_monotonic_def proto_session_new_def proto_transition_def)
  show "abort_cannot_finalize_and_reuse_fails keccak"
    using proto_sessions_differ [OF assms, of "proto_binding (replicate 32 0x88) (replicate 32 0x99)"
        "proto_binding (replicate 32 0x88) (replicate 32 0xaa)"]
    by (simp add: abort_cannot_finalize_and_reuse_fails_def proto_session_new_def proto_transition_def
        proto_test_bindings_def Let_def)
  show "wrong_round_and_duplicate_handling_via_transport"
    by (simp add: wrong_round_and_duplicate_handling_via_transport_def proto_sim_message_def proto_send_def
        proto_new_def proto_check_no_duplicate_def proto_check_rounds_def proto_duplicate_first_def
        proto_reorder_def proto_modify_first_digest_def proto_verify_binding_def Let_def)
qed

lemma shamir_test:
  assumes inj: "inj (scalar_of :: u8 \<Rightarrow> 'a::field)"
  shows "shamir_2of3_reconstruct TYPE('a)"
proof -
  let ?share = "\<lambda>i. \<lparr>sh_index = i, sh_secret = scalar_of 42 + scalar_of 7 * scalar_of i\<rparr> :: 'a participant_share"
  have two: "lagrange_interpolate_at_zero [?share i, ?share j] = (Ok (scalar_of 42) :: (string, 'a) res)" if "i \<noteq> j" for i j
    using lagrange_recovers_facts [OF inj, of "[?share i, ?share j]" "[scalar_of 42, scalar_of 7]"] that
    by (simp add: poly_at_def lessThan_Suc numeral_2_eq_2)
  have "scalar_of 7 \<noteq> (scalar_of 0 :: 'a)" using inj by (simp add: inj_eq)
  then have "scalar_of 7 * scalar_of 1 \<noteq> (0 :: 'a)" by (simp add: scalar_of_def)
  then show ?thesis
    by (simp add: shamir_2of3_reconstruct_def two lagrange_single Let_def)
qed

lemma proto_key_start:
  fixes K :: "('a::field, 'vk) key_backend"
  assumes "proto_world keccak K (G :: ('a, 'sk, 'es, 'rid, 'vk) proto_ecdsa)" and "ordinary_draws K draws"
  shows "\<exists>m. (\<forall>rest. generated b K draws rest = rest m) \<and> proto_material K draws m"
proof -
  have "inj (scalar_of :: u8 \<Rightarrow> 'a)" "public_key_law K" "group_secret draws \<noteq> 0"
    using assms by (simp_all add: proto_world_def ordinary_draws_def)
  from proto_generates [OF this, of b 0] obtain m where
    "(distributed_keygen b K draws 3 2 :: (string, ('a, 'vk) proto_key_material) res) = Ok m" "proto_material K draws m"
    by blast
  then show ?thesis by (intro exI [of _ m]) (simp add: generated_def)
qed

lemma interpolation_tests:
  fixes K :: "('a::field, 'vk) key_backend" and G :: "('a, 'sk, 'es, 'rid, 'vk) proto_ecdsa"
  assumes w: "proto_world keccak K G" and d: "ordinary_draws K draws"
  shows "dkg_all_derive_same_group_key b keccak K G draws" "dkg_2of3_succeeds_and_group_key_consistent b keccak K G draws"
    "ethereum_address_derivation_consistent b keccak K G draws"
proof -
  obtain m where g: "\<And>rest. generated b K draws rest = rest m" and m: "proto_material K draws m"
    using proto_key_start [OF w d] by blast
  have inj: "inj (scalar_of :: u8 \<Rightarrow> 'a)" using w by (simp add: proto_world_def)
  note s = proto_slices [OF m]
  have two: "lagrange_interpolate_at_zero [x, y] = (Ok (group_secret draws) :: (string, 'a) res)"
    if "x \<in> set (pk_shares m)" "y \<in> set (pk_shares m)" "sh_index x \<noteq> sh_index y" for x y
    by (rule proto_material_interpolates [OF inj m]) (use that in simp_all)
  have pairs: "lagrange_interpolate_at_zero [share_at m 0, share_at m 1] = (Ok (group_secret draws) :: (string, 'a) res)"
      "lagrange_interpolate_at_zero [share_at m 0, share_at m 2] = (Ok (group_secret draws) :: (string, 'a) res)"
      "lagrange_interpolate_at_zero [share_at m 1, share_at m 2] = (Ok (group_secret draws) :: (string, 'a) res)"
    by (rule two; simp add: s)+
  have slope: "group_slope draws \<noteq> 0" using d by (simp add: ordinary_draws_def)
  have pk: "public_of K (group_secret draws) = Some (pk_group_verifying_key m)" "pk_threshold m = 2"
      "pk_ethereum_address m = proto_ethereum_address K (pk_group_verifying_key m)" using m by (simp_all add: proto_material_def)
  then have addr: "length (pk_ethereum_address m) = 20" "pk_ethereum_address m \<noteq> replicate 20 0"
    using d by (simp_all add: ordinary_draws_def)
  show "dkg_all_derive_same_group_key b keccak K G draws"
    unfolding dkg_all_derive_same_group_key_def g interpolate_equal_def interpolate_differ_def s(2-4) pairs
    by (simp add: lagrange_single s(8) slope)
  show "dkg_2of3_succeeds_and_group_key_consistent b keccak K G draws"
    unfolding dkg_2of3_succeeds_and_group_key_consistent_def g interpolate_equal_def s(2-4) pairs
    by (simp add: s(1) pk(2) addr(2))
  show "ethereum_address_derivation_consistent b keccak K G draws"
    unfolding ethereum_address_derivation_consistent_def g by (simp add: pk(3) addr(1) [unfolded pk(3)])
qed

lemma proto_signing_tests:
  fixes K :: "('a::field, 'vk) key_backend" and G :: "('a, 'sk, 'es, 'rid, 'vk) proto_ecdsa"
  assumes w: "proto_world keccak K G" and d: "ordinary_draws K draws"
  shows "threshold_2of3_all_pairs_succeed_single_fails b keccak K G draws"
    "produced_signature_is_standard_ecdsa_low_s_and_recovers b keccak K G draws"
    "signature_bound_to_keymesh_digest_modified_digest_fails b keccak K G draws"
    "replayed_session_fails b keccak K G draws"
    "offline_participant_2of3_still_succeeds_1_fails b keccak K G draws"
    "transcript_records_without_secrets b keccak K G draws" "keymesh_digest_flow b keccak K G draws"
    "performance_measure_2of3 b keccak K G draws" "no_exposed_reconstruct_in_public_api b keccak K G draws"
    "low_s_and_recovery b keccak K G draws"
proof -
  obtain m where g: "\<And>rest. generated b K draws rest = rest m" and m: "proto_material K draws m"
    using proto_key_start [OF w d] by blast
  note s = proto_slices [OF m]
  let ?vk = "pk_group_verifying_key m"
  define sig where "sig = (\<lambda>binding. SOME sg. proto_good b G ?vk (sb_digest binding) sg
    \<and> (\<forall>ss. set ss \<subseteq> set (pk_shares m) \<and> distinct (map sh_index ss) \<and> 2 \<le> length ss \<longrightarrow>
        proto_signed b keccak G m ss binding (proto_derive_session_id keccak binding) = Ok sg))"
  have sig: "proto_good b G ?vk (sb_digest binding) (sig binding)"
      "set ss \<subseteq> set (pk_shares m) \<Longrightarrow> distinct (map sh_index ss) \<Longrightarrow> 2 \<le> length ss \<Longrightarrow>
        proto_signed b keccak G m ss binding (proto_derive_session_id keccak binding) = Ok (sig binding)" for binding ss
    using someI_ex [OF proto_pairs_sign [OF w m, of b binding]] unfolding sig_def by blast+
  have pairs: "proto_signed b keccak G m [share_at m 0, share_at m 1] binding (proto_derive_session_id keccak binding) = Ok (sig binding)"
      "proto_signed b keccak G m [share_at m 0, share_at m 2] binding (proto_derive_session_id keccak binding) = Ok (sig binding)"
      "proto_signed b keccak G m [share_at m 1, share_at m 2] binding (proto_derive_session_id keccak binding) = Ok (sig binding)" for binding
    by (rule sig(2); simp add: s)+
  have good: "proto_verifies b G (sb_digest binding) (sig binding) ?vk" "proto_s_is_low (sig binding)"
      "sg_r (sig binding) \<noteq> replicate 32 0" "sg_s (sig binding) \<noteq> replicate 32 0" "sg_v (sig binding) \<in> {27, 28}" for binding
    using sig(1) [of binding] by (simp_all add: proto_good_def)
  have other: "sb_digest binding \<noteq> digest \<Longrightarrow> proto_refuses b G digest (sig binding) ?vk" for binding digest
    by (rule proto_refuses_digest [OF sig(1)])
  have single: "is_err (proto_signed b keccak G m [x] binding sid)" for x binding sid by (rule proto_refused(1)) simp
  note other_session = proto_refused(3) [OF proto_sessions_differ [OF w]]
  have wrong: "flip_bit 0 keymesh_digest \<noteq> keymesh_digest" by (rule flip_bit_differs) simp
  have wrong1: "keymesh_digest[1 := xor (keymesh_digest ! 1) 0xff] \<noteq> keymesh_digest" by code_simp
  show "threshold_2of3_all_pairs_succeed_single_fails b keccak K G draws"
    unfolding threshold_2of3_all_pairs_succeed_single_fails_def g Let_def s(2-4) pairs by (simp add: single)
  show "produced_signature_is_standard_ecdsa_low_s_and_recovers b keccak K G draws"
    unfolding produced_signature_is_standard_ecdsa_low_s_and_recovers_def g Let_def s(2-4) pairs unwrapped.simps
    using good [of "proto_binding keymesh_digest (replicate 32 0x22)"]
      other [of "proto_binding keymesh_digest (replicate 32 0x22)" "flip_bit 0 keymesh_digest"] wrong by simp
  show "signature_bound_to_keymesh_digest_modified_digest_fails b keccak K G draws"
    unfolding signature_bound_to_keymesh_digest_modified_digest_fails_def g Let_def s(2-4) pairs unwrapped.simps
    by (intro conjI other other_session) (simp_all add: proto_test_bindings_def)
  show "replayed_session_fails b keccak K G draws"
    unfolding replayed_session_fails_def g Let_def s(2-4) pairs unwrapped.simps
    using good(1) [of "proto_binding keymesh_digest (replicate 32 0x44)"] wrong1
    by (intro conjI other_session proto_sessions_differ [OF w]) (simp_all add: proto_test_bindings_def)
  show "offline_participant_2of3_still_succeeds_1_fails b keccak K G draws"
    unfolding offline_participant_2of3_still_succeeds_1_fails_def g Let_def s(2-4) pairs by (simp add: single)
  show "transcript_records_without_secrets b keccak K G draws"
    unfolding transcript_records_without_secrets_def g Let_def s(2-4) pairs unwrapped.simps
    by (simp add: proto_transcript_new_success_def)
  show "keymesh_digest_flow b keccak K G draws"
    unfolding keymesh_digest_flow_def g Let_def s(2-4) pairs unwrapped.simps
    using good(1) [of "proto_binding keymesh_digest (replicate 32 0xdd)"] by simp
  show "performance_measure_2of3 b keccak K G draws"
    unfolding performance_measure_2of3_def g Let_def s(2-4) pairs unwrapped.simps
    by (simp add: proto_len_def proto_send_def proto_new_def)
  show "no_exposed_reconstruct_in_public_api b keccak K G draws"
    unfolding no_exposed_reconstruct_in_public_api_def g Let_def s(2-4) by (rule single)
  show "low_s_and_recovery b keccak K G draws"
    unfolding low_s_and_recovery_def g Let_def s(2-4) pairs unwrapped.simps
    using good [of "signature_test_binding (replicate 32 0x42)"] by (simp add: signature_test_binding_def)
qed

lemma proto_sign_with_key:
  fixes G :: "('a::field, 'sk, 'es, 'rid, 'vk) proto_ecdsa"
  assumes "ecdsa_signs K G" "public_of K x = Some vk" "w \<noteq> vk"
    and "t \<le> length shares" "distinct (map sh_index shares)"
    and "lagrange_interpolate_at_zero shares = (Ok x :: (string, 'a) res)"
  shows "proto_threshold_sign b keccak G shares w binding (derive_session_id keccak binding) t
    = Err ''recovered key mismatch''"
  by (rule proto_sign_eq [OF assms(1,2), where keccak = keccak and binding = binding and b = b and t = t and w = w])
    (use assms(3-6) in simp)

lemma identity_test:
  fixes K :: "('a::field, 'vk) key_backend" and G :: "('a, 'sk, 'es, 'rid, 'vk) proto_ecdsa"
  assumes w: "proto_world keccak K G" and d: "ordinary_draws K draws"
  shows "wrong_participant_identity_fails b keccak K G draws"
proof -
  obtain m where g: "\<And>rest. generated b K draws rest = rest m" and m: "proto_material K draws m"
    using proto_key_start [OF w d] by blast
  note s = proto_slices [OF m]
  have inj: "inj (scalar_of :: u8 \<Rightarrow> 'a)" and law: "ecdsa_signs K G" using w by (simp_all add: proto_world_def)
  let ?first = "group_secret draws + group_slope draws"
  have "public_of K ?first \<noteq> None" using w d by (simp add: proto_world_def ordinary_draws_def public_key_law_def)
  then obtain vk where vk: "public_of K ?first = Some vk" by blast
  have "public_of K ?first \<noteq> public_of K (group_secret draws)" using d unfolding ordinary_draws_def by blast
  then have other: "pk_group_verifying_key m \<noteq> vk" using m vk by (auto simp: proto_material_def)
  let ?binding = "proto_binding keymesh_digest (replicate 32 0x66)"
  let ?fake = "[share_at m 0, \<lparr>sh_index = 99, sh_secret = sh_secret (share_at m 0)\<rparr>]"
  have "lagrange_interpolate_at_zero ?fake = (Ok ?first :: (string, 'a) res)"
    using fake_share [OF inj s(5)] s(8) by simp
  then have "proto_signed b keccak G m ?fake ?binding (proto_derive_session_id keccak ?binding) = Err ''recovered key mismatch''"
    unfolding proto_signed_def proto_derive_session_id_eq
    by (subst proto_sign_with_key [OF law vk]) (use s(5) other in simp_all)
  then show ?thesis
    unfolding wrong_participant_identity_fails_def g Let_def by (simp add: proto_refused(2))
qed

lemma seeded_test:
  fixes K :: "('a::field, 'vk) key_backend" and G :: "('a, 'sk, 'es, 'rid, 'vk) proto_ecdsa"
  assumes w: "proto_world keccak K G" and d: "group_secret (chacha 0xdeadbeefcafe1234) \<noteq> 0"
  shows "cross_language_vector_print b keccak K G chacha"
proof -
  let ?draws = "chacha 0xdeadbeefcafe1234"
  have "inj (scalar_of :: u8 \<Rightarrow> 'a)" "public_key_law K" using w by (simp_all add: proto_world_def)
  from proto_generates [OF this d, where b = b and seed = "0xdeadbeefcafe1234"] obtain m where
      g: "(distributed_keygen_seeded K (\<lambda>_. ?draws) 3 2 0xdeadbeefcafe1234 :: (string, ('a, 'vk) proto_key_material) res) = Ok m"
      and m: "proto_material K ?draws m" by blast
  have g': "(distributed_keygen_seeded K chacha 3 2 0xdeadbeefcafe1234 :: (string, ('a, 'vk) proto_key_material) res) = Ok m"
    using g by (simp add: distributed_keygen_seeded_def)
  note s = proto_slices [OF m]
  let ?binding = "proto_binding keymesh_digest (replicate 32 0x99)"
  obtain sg where "proto_good b G (pk_group_verifying_key m) keymesh_digest sg"
      "proto_signed b keccak G m [share_at m 0, share_at m 1] ?binding (proto_derive_session_id keccak ?binding) = Ok sg"
    using proto_pairs_sign [OF w m, of b ?binding] s by auto
  then show ?thesis
    unfolding cross_language_vector_print_def g' Let_def unwrapped.simps s(3)
    by (simp add: proto_good_def)
qed


text \<open>
  A toy curve whose keys only tell whether the secret is the one of \<open>toy_draws\<close>. A signature is its key.
\<close>

definition two_keys :: "(rat, bool) key_backend" where
  "two_keys = \<lparr>public_of = (\<lambda>x. if x = 0 then None else Some (x = 18)), encode_uncompressed = (\<lambda>_. replicate 65 4),
     kb_keccak = (\<lambda>_. replicate 32 1)\<rparr>"

definition two_ecdsa :: "(rat, bool, bool, unit, bool) proto_ecdsa" where
  "two_ecdsa = \<lparr>scalar_repr = (\<lambda>x. [if x = 0 then 0 else if x = 18 then 1 else 2]), scalar_of_repr = (\<lambda>_. None),
     key_of_bytes = (\<lambda>bs. if last bs = 0 then Err ''signature error'' else Ok (last bs = 1)),
     sign_prehash = (\<lambda>k _. Ok (k, ())),
     sig_to_bytes = (\<lambda>k. (if k then 1 else 2) # replicate 62 0 @ [7]), sig_of_bytes = (\<lambda>bs. Some (hd bs = 1)),
     recid_to_byte = (\<lambda>_. 1), recid_of_byte = (\<lambda>_. Some ()), recover_prehash = (\<lambda>_ k _. Ok k)\<rparr>"

lemma two_world: "proto_world (\<lambda>x. x) two_keys two_ecdsa"
proof -
  have ends: "drop 32 (x # replicate 62 0 @ [7 :: u8]) = replicate 31 0 @ [7]"
      "take 32 (x # replicate 62 0 @ [7 :: u8]) = x # replicate 31 0" for x by simp_all
  have "replicate 31 0 @ [7 :: u8] \<noteq> replicate 32 0" by code_simp
  moreover have "replicate 32 (0 :: u8) = 0 # replicate 31 0" by code_simp
  ultimately have parts: "take 32 ((if k then 1 else 2) # replicate 62 0 @ [7 :: u8]) \<noteq> replicate 32 0"
      "drop 32 ((if k then 1 else 2) # replicate 62 0 @ [7 :: u8]) \<noteq> replicate 32 0"
      "bytes_le (drop 32 ((if k then 1 else 2) # replicate 62 0 @ [7])) HALF_N" for k
    unfolding ends using toy_low by simp_all
  have "ecdsa_signs two_keys two_ecdsa"
    unfolding ecdsa_signs_def
  proof (intro allI impI)
    fix x :: rat and vk digest assume "public_of two_keys x = Some vk"
    then have x: "x \<noteq> 0" "vk = (x = 18)" by (auto simp: two_keys_def split: if_splits)
    show "\<exists>k es rid. key_of_bytes two_ecdsa (scalar_repr two_ecdsa x) = Ok k
        \<and> sign_prehash two_ecdsa k digest = Ok (es, rid) \<and> length (sig_to_bytes two_ecdsa es) = 64
        \<and> bytes_le (drop 32 (sig_to_bytes two_ecdsa es)) HALF_N
        \<and> sig_of_bytes two_ecdsa (sig_to_bytes two_ecdsa es) = Some es \<and> recid_to_byte two_ecdsa rid \<le> 3
        \<and> recid_of_byte two_ecdsa (recid_to_byte two_ecdsa rid) = Some rid
        \<and> recover_prehash two_ecdsa digest es rid = Ok vk"
      using parts(3) [of "x = 18"] x
      by (intro exI [of _ "x = 18"] exI [of _ "()"]) (simp add: two_ecdsa_def del: drop_Cons_numeral)
  qed
  moreover have "public_key_law two_keys" by (simp add: public_key_law_def two_keys_def)
  moreover have "inj_on session_preimage (set proto_test_bindings)"
  proof (rule inj_onI)
    fix x y assume "x \<in> set proto_test_bindings" "y \<in> set proto_test_bindings"
    then have "binding_wf x \<and> binding_wf y"
      by (auto simp: proto_test_bindings_def session_test_binding_def proto_binding_def dummy_binding_def binding_wf_def)
    then show "session_preimage x = session_preimage y \<Longrightarrow> x = y" by (intro session_preimage_inject) simp_all
  qed
  ultimately show ?thesis
    using scalar_of_inj_rat parts(1,2) by (auto simp: proto_world_def two_ecdsa_def comp_def)
qed

lemma two_draws: "ordinary_draws two_keys toy_draws"
proof -
  have "replicate 20 (1 :: u8) \<noteq> replicate 20 0" by code_simp
  then show ?thesis
    by (simp add: ordinary_draws_def toy_secret two_keys_def proto_ethereum_address_def)
qed


end
