(* ===== verification/Spec2Isabelle.thy ===== *)
theory Spec2Isabelle
  imports Recovery_Encoding Policy Transaction Crypto Core_Tss Network_Pair Cli
    Governance_Encoding Lifecycle_Machine Availability Proto_Signing Proto_Transport
    Unit_Tests Key_Life_Tests Proto_Tests
begin

text \<open>
  A verification of the Rust crates of KeyMesh, a wallet whose keys are split among devices and whose
  recovery and key rotation are governed by guardians. The crates are

    \<^item> \<open>crates/keymesh-core\<close>: recovery requests, policy classification, canonical transactions, wire
      encoding, domain-separated signing over a crypto provider, core signing sessions;
    \<^item> \<open>crates/keymesh-tss\<close>: threshold ECDSA over the \<open>synedrion\<close> protocols: key generation, key
      lifecycle with refresh and governed rotation, signing, envelopes, transports, share storage;
    \<^item> \<open>crates/keymesh-tss-proto\<close>: the earlier prototype with Shamir shares.

  \<^bold>\<open>How code is modelled.\<close> A struct is a record, an enum a datatype, \<open>u8\<close>, \<open>u32\<close> and \<open>u64\<close> are words, a \<open>usize\<close>
  that only counts is a \<open>nat\<close>, byte arrays and slices are lists of \<open>u8\<close>, strings are char lists
  (their UTF-8 bytes; lengths are byte lengths). A method that takes \<open>&mut self\<close> returns the
  state after the call beside its result. Results are \<open>Ok\<close>, \<open>Err\<close> or \<open>Panic\<close>, the last
  for \<open>unwrap\<close>, \<open>expect\<close>, failing assertions and checked arithmetic. Arithmetic that a debug
  build checks and a release build wraps takes the \<open>build\<close> as an argument. The system clock and
  environment variables are arguments. Debug output of \<open>Option\<close> and of strings in error messages is
  written out as the formatter prints it.

  \<^bold>\<open>What is a parameter.\<close> Code outside the repository is a record of functions that the definitions take
  as an argument: \<open>mpc\<close> (the protocols of \<open>synedrion\<close> run by \<open>manul\<close>, with their key shares and
  auxiliary information), \<open>k256_ecdsa\<close>, \<open>ecdsa_backend\<close>, \<open>key_backend\<close> and \<open>proto_ecdsa\<close> (the parts of
  \<open>k256\<close> that each module calls), \<open>aead\<close> (ChaCha20-Poly1305 and SHA-256), \<open>net_env\<close> (JSON and sockets), and
  a function for Keccak. Nothing is assumed of them in a definition. Where a property
  relies on their documented behaviour it has a hypothesis of its own (\<open>ecdsa_correct\<close>,
  \<open>only_signed\<close>, \<open>json_correct\<close>, \<open>aead_correct\<close>, \<open>scalars_canonical\<close>, \<open>codec_sizes\<close>, \<open>public_key_law\<close>,
  \<open>ecdsa_signs\<close>, \<open>honest_protocols\<close>, \<open>honest_signing\<close>), which a toy instance satisfies in the property's witness.

  \<^bold>\<open>The theories.\<close>

    \<^item> \<open>Prelude\<close>: results, machine arithmetic, big-endian and length-prefixed bytes, decimal and hex
      text, with the lemmas every component shares.
    \<^item> \<open>Contracts\<close>: the interfaces as locales. \<open>quorum_timelock\<close> and its extensions \<open>quorum_machine\<close> and
      \<open>cancellable_quorum\<close> (collect distinct approvals, wait, act) are provided by recovery requests
      and rotation requests; \<open>one_shot\<close> (a session leaves its start once) by the three session types.
      Further interfaces stand beside their clients: \<open>wire_field\<close> in \<open>Wire\<close>, \<open>crypto_provider\<close> in
      \<open>Crypto\<close>, \<open>tss_transport\<close> in \<open>Network_Safety\<close>, \<open>share_map\<close> in \<open>Storage\<close>. Every one is
      interpreted on the definitions that model the code.
    \<^item> \<open>Km_Errors\<close>, \<open>Wire\<close>, \<open>Recovery\<close> with \<open>Recovery_Safety\<close> and \<open>Recovery_Encoding\<close>, \<open>Policy\<close>,
      \<open>Transaction\<close>, \<open>Crypto\<close> and \<open>Core_Tss\<close>: the modules \<open>errors\<close>, \<open>serialization\<close>, \<open>recovery\<close>, \<open>policy\<close>,
      \<open>transaction\<close>, \<open>crypto\<close> with \<open>signing/mod.rs\<close>, and \<open>signing/tss.rs\<close> of \<open>keymesh-core\<close>.
    \<^item> \<open>Tss_Session\<close> (errors, sessions, handshake), \<open>Envelope\<close> (identities, envelopes), \<open>Network\<close> with
      \<open>Network_Safety\<close> and \<open>Network_Pair\<close> (both ends of the in-memory transport, interleaved),
      \<open>Sim_Transport\<close>, \<open>Storage\<close>, \<open>Cli\<close> (the programs of \<open>bin\<close>), \<open>Governance\<close> with \<open>Governance_Encoding\<close>,
      \<open>Tss_Material\<close> (\<open>dkg.rs\<close>, \<open>participant.rs\<close>), \<open>Resharing\<close> and \<open>Lifecycle\<close> (\<open>lifecycle.rs\<close>) with
      \<open>Lifecycle_Safety\<close> and \<open>Lifecycle_Machine\<close>, and \<open>Tss_Signing\<close> (\<open>signing.rs\<close>, \<open>transcript.rs\<close>,
      \<open>provider.rs\<close>): \<open>keymesh-tss\<close>.
    \<^item> \<open>Honest_Protocols\<close> and \<open>Availability\<close>: what the protocols are documented to do when all parties
      follow them, and that the code then never gets stuck.
    \<^item> \<open>Proto_Session\<close>, \<open>Proto_Shamir\<close>, \<open>Proto_Dkg\<close>, \<open>Proto_Signing\<close> and \<open>Proto_Transport\<close>:
      \<open>keymesh-tss-proto\<close>. Its scalars are the elements of any field.

    \<^item> \<open>Test_Support\<close>, \<open>Recovery_Tests\<close>, \<open>Core_Tests\<close>, \<open>Transaction_Tests\<close>, \<open>Governance_Tests\<close> with their
      summary \<open>Unit_Tests\<close>, \<open>Network_Tests\<close>, \<open>Signing_Tests\<close>, \<open>Key_Life_Tests\<close> and \<open>Proto_Tests\<close>: the tests of the repository, each
      \<open>#[test]\<close> function a \<open>bool\<close> of the same name. A test that runs protocols takes their outcomes as the
      sequence \<open>run\<close>, one for each operation; random keys, nonces and the hash are arguments.

  \<^bold>\<open>What is shown.\<close> For recovery and rotation: nothing is executed without a quorum of distinct
  approvals and the timelock, over every sequence of calls; the requests refine an abstract machine,
  can complete, settle after boundedly many effective calls, and never leave a terminal status.
  For the key lifecycle: its invariant over every sequence of calls and protocol outcomes,
  refinement of the documented state machine, atomic failures, single use of a request, when signing
  is allowed, the sizes of its arrays, and, when the protocols are run honestly, that no refresh,
  rotation or signature ever fails. For the encodings: the wire format is a bijection with
  the decoder, and the canonical bytes of transactions, recovery and rotation requests and session
  bindings determine what they encode. For signing: a signature needs a quorum of distinct
  participants and verifies under the group key; in the prototype every quorum of shares
  recovers the key, gives the same signature, and a single share hides it. For the network: framing
  round trips, what is received over TCP was sent by the peer, and the in-memory
  channel delivers in order, exactly once and without getting stuck. For storage: it is a map, its
  failures stay local, and the participant program prints nothing of a share.
  For the tests: they pass on the model, so the model agrees with the code where the repository
  says what the code must do. Tests that sign pass in every honest world (\<open>honest_world\<close>,
  \<open>key_life_world\<close>: protocols and signatures as documented, no collision among the sessions compared), tests
  of connections and storage in every \<open>network_world\<close>, those of the prototype in every \<open>proto_world\<close> for
  \<open>ordinary_draws\<close>; the shared vectors need \<open>keccak_known_answers\<close>. Each
  of these hypotheses has a toy instance in a witness. One ignored test can never pass
  (\<open>failed_rotation_test_fails\<close>).
  This theory holds the properties that span components: a rotation is governed from the request to
  the new key, and signatures outlive every refresh and rotation.

  Other properties state where the code departs from what it means to do: the overflow of the deadline
  (\<open>recovery_deadline_overflow\<close>), the panics of \<open>canonical_bytes\<close>, of the low-\<open>s\<close> normalisation and of the
  recovery byte, a resharing that skips the timelock, a failed \<open>apply_rotation\<close> that stays locked, names
  that collide, and the reception that checks no signature.

  \<^bold>\<open>Bounds.\<close> No definition needs fuel: every loop of the code runs over a list and is structural.
  Sums of times and timelocks that must not overflow, and runs of fewer than \<open>2\<^sup>6\<^sup>4\<close> calls where a version
  is counted, are hypotheses of the theorems concerned.

  \<^bold>\<open>Not modelled.\<close> Wall-clock limits and printing in tests and the test of the derived debug text of a
  \<open>k256\<close> key and the unused \<open>seeded_scalar\<close>, the argument parser of the command line programs, zeroizing of memory, real concurrency (the code is single-threaded; the two ends
  of a transport are interleaved explicitly), the Solidity contracts and the TypeScript packages.
\<close>

section \<open>Governance and the key lifecycle together\<close>


definition toy_rotation_request :: rotation_request where
  "toy_rotation_request = sample_rotation\<lparr>ro_new_set := [''A'', ''C'', ''Zoe''],
     ro_group_public_key := 2 # replicate 32 1\<rparr>"


section \<open>Signing through the whole life of a key\<close>

text \<open>
  Claim C7. Signatures survive refreshes and rotations. Whatever happens to a key after its
  generation (refreshes, rotations, failures, other protocol outcomes), every signature made with the
  shares of that day verifies under the verifying key that was generated, the one the wallet's
  address is derived from.
\<close>

theorem signatures_survive:
  assumes "list_all (event_codec M) (evs @ evs')" and "same_codec M N"
    and "kl_material (lifecycle_run b lifecycle_new evs) = Some m"
    and "kl_material (lifecycle_run b lifecycle_new (evs @ evs')) = Some m'"
    and "threshold_sign b N E m' idxs binding sid = Ok sg" and "scalars_canonical E"
  shows "verify_signature b E (sb_digest binding) sg (g_verifying_key (m_group_key m)) = Ok True
    \<and> g_ethereum_address (m_group_key m') = ethereum_address_from_verifying_key M (g_verifying_key (m_group_key m))"
proof -
  let ?s = "lifecycle_run b lifecycle_new evs"
  have inv: "lifecycle_inv M ?s" using assms(1) by (simp add: lifecycle_inv_run lifecycle_inv_new)
  have "list_all (event_codec M) evs'" using assms(1) by simp
  from lifecycle_run_group_key [OF inv assms(3) this, of b] assms(4)
  have g: "m_group_key m' = m_group_key m" by simp
  have "m_group_key m = make_group_key M (g_verifying_key (m_group_key m))"
    using inv assms(3) by (simp add: lifecycle_inv_def)
  then have "g_ethereum_address (m_group_key m)
      = ethereum_address_from_verifying_key M (g_verifying_key (m_group_key m))"
    unfolding make_group_key_def by (metis group_public_key.select_convs(2))
  with threshold_sign_Ok [OF assms(5,6)] g show ?thesis by simp
qed

theorem signatures_survive_witness:
  "verify_signature Debug toy_backend (sb_digest sample_binding) toy_signature 42 = Ok True"
proof -
  have ev: "lifecycle_run Debug lifecycle_new ([EvDkg toy_mpc] @ [EvRefresh toy_mpc]) = toy_active"
    by (simp add: toy_dkg) (simp add: lifecycle_refresh_def toy_active_def ks_can_mutate_def toy_refresh)
  have m: "kl_material (lifecycle_run Debug lifecycle_new [EvDkg toy_mpc]) = Some toy_material"
      "kl_material (lifecycle_run Debug lifecycle_new ([EvDkg toy_mpc] @ [EvRefresh toy_mpc])) = Some toy_material"
    unfolding ev toy_active_run by (simp_all add: toy_active_def)
  have "list_all (event_codec toy_mpc) ([EvDkg toy_mpc] @ [EvRefresh toy_mpc])" by simp
  from signatures_survive [OF this same_codec_refl m toy_threshold_sign toy_backend_canonical]
  show ?thesis by (simp add: toy_material_def)
qed

section \<open>Sessions over the network\<close>


definition network_binding :: session_binding where
  "network_binding = sample_binding\<lparr>sb_wallet := replicate 20 2, sb_chain_id := 1\<rparr>"


end
